(* ===== verification/Prelude.thy ===== *)
theory Prelude
  imports Main "HOL-Library.Word"
begin

text \<open>
  Shared vocabulary of the development: the model of Rust's \<open>Result\<close> (with panics made
  explicit), the combinators the handlers are written with, the byte-level types, and the
  generic facts on lists and results that the component theories use.

  The programs modelled here return \<open>anyhow::Result\<close>.  A call written \<open>f(x)?\<close> in the source is
  \<open>and_then (f x) (\<lambda>y. \<dots>)\<close> in the model; \<open>ensure!(c, e)\<close> is \<open>ensure c e\<close>; \<open>expect\<close>, \<open>assert!\<close>,
  an arithmetic operator with overflow checks enabled and an out-of-range slice index are
  \<open>Panic\<close> branches.  A function that takes \<open>&mut state\<close> returns the new state inside \<open>Ok\<close>; on an
  error the callers drop the state, so \<open>Err\<close> and \<open>Panic\<close> carry none.
\<close>

subsection \<open>Bytes\<close>

type_synonym byte = "8 word"
type_synonym bytes = "byte list"

text \<open>The fact collections of the development.\<close>

named_theorems res_simps \<comment> \<open>inversion of successful computations\<close>
named_theorems arith_defs \<comment> \<open>unfolding of the checked and saturating integer operations\<close>
named_theorems frame_simps \<comment> \<open>which parts of the state an operation leaves alone\<close>

subsection \<open>Results\<close>

datatype ('e, 'a) result = Ok 'a | Err 'e | Panic

fun and_then :: "('e, 'a) result \<Rightarrow> ('a \<Rightarrow> ('e, 'b) result) \<Rightarrow> ('e, 'b) result" where
  "and_then (Ok a) f = f a"
| "and_then (Err e) f = Err e"
| "and_then Panic f = Panic"

fun map_ok :: "('a \<Rightarrow> 'b) \<Rightarrow> ('e, 'a) result \<Rightarrow> ('e, 'b) result" where
  "map_ok f (Ok a) = Ok (f a)"
| "map_ok f (Err e) = Err e"
| "map_ok f Panic = Panic"

definition ensure :: "bool \<Rightarrow> 'e \<Rightarrow> ('e, unit) result" where
  "ensure c e = (if c then Ok () else Err e)"

definition ok_or :: "'a option \<Rightarrow> 'e \<Rightarrow> ('e, 'a) result" where
  "ok_or x e = (case x of None \<Rightarrow> Err e | Some a \<Rightarrow> Ok a)"

definition expect :: "'a option \<Rightarrow> ('e, 'a) result" where
  "expect x = (case x of None \<Rightarrow> Panic | Some a \<Rightarrow> Ok a)"

definition assert_rs :: "bool \<Rightarrow> ('e, unit) result" where
  "assert_rs c = (if c then Ok () else Panic)"

text \<open>Indexing a slice panics out of range.\<close>

definition nth_rs :: "'a list \<Rightarrow> nat \<Rightarrow> ('e, 'a) result" where
  "nth_rs xs i = (if i < length xs then Ok (xs ! i) else Panic)"

definition is_ok :: "('e, 'a) result \<Rightarrow> bool" where
  "is_ok r = (case r of Ok _ \<Rightarrow> True | _ \<Rightarrow> False)"

text \<open>The loops \<open>for x in xs { f(x, &mut s)?; }\<close> and \<open>xs.map(f).collect::<Result<Vec<_>>>()\<close>.\<close>

fun try_fold :: "('x \<Rightarrow> 's \<Rightarrow> ('e, 's) result) \<Rightarrow> 'x list \<Rightarrow> 's \<Rightarrow> ('e, 's) result" where
  "try_fold f [] s = Ok s"
| "try_fold f (x # xs) s = and_then (f x s) (try_fold f xs)"

fun try_map :: "('x \<Rightarrow> ('e, 'y) result) \<Rightarrow> 'x list \<Rightarrow> ('e, 'y list) result" where
  "try_map f [] = Ok []"
| "try_map f (x # xs) = and_then (f x) (\<lambda>y. and_then (try_map f xs) (\<lambda>ys. Ok (y # ys)))"

text \<open>
  A loop whose body may end it with \<open>break\<close>; \<open>continue\<close> and reaching the end of the body go on with
  the next element.
\<close>

datatype 'l control = Break 'l | Continue 'l

fun loop_with_break :: "('x \<Rightarrow> 'l \<Rightarrow> ('e, 'l control) result) \<Rightarrow> 'x list \<Rightarrow> 'l \<Rightarrow> ('e, 'l) result" where
  "loop_with_break body [] l = Ok l"
| "loop_with_break body (x # xs) l =
     and_then (body x l) (\<lambda>c.
       case c of Break l \<Rightarrow> Ok l | Continue l \<Rightarrow> loop_with_break body xs l)"

subsection \<open>Facts on results\<close>

lemma and_then_eq_Ok [res_simps]:
  "and_then m f = Ok b \<longleftrightarrow> (\<exists>a. m = Ok a \<and> f a = Ok b)"
  by (cases m) auto

lemma map_ok_eq_Ok [res_simps]: "map_ok f m = Ok b \<longleftrightarrow> (\<exists>a. m = Ok a \<and> b = f a)"
  by (cases m) auto

lemma ensure_eq_Ok [res_simps]: "ensure c e = Ok u \<longleftrightarrow> c"
  by (simp add: ensure_def)

lemma ensure_True [simp]: "ensure True e = Ok ()"
  by (simp add: ensure_def)

lemma ensure_False [simp]: "ensure False e = Err e"
  by (simp add: ensure_def)

lemma ok_or_eq_Ok [res_simps]: "ok_or x e = Ok a \<longleftrightarrow> x = Some a"
  by (simp add: ok_or_def split: option.splits)

lemma expect_eq_Ok [res_simps]: "expect x = Ok a \<longleftrightarrow> x = Some a"
  by (simp add: expect_def split: option.splits)

lemma assert_rs_eq_Ok [res_simps]: "assert_rs c = Ok u \<longleftrightarrow> c"
  by (simp add: assert_rs_def)

lemma nth_rs_Ok [res_simps]: "nth_rs xs i = Ok x \<longleftrightarrow> i < length xs \<and> x = xs ! i"
  by (auto simp: nth_rs_def)

lemma nth_rs_ok [simp]: "i < length xs \<Longrightarrow> nth_rs xs i = Ok (xs ! i)"
  by (simp add: nth_rs_def)

lemma and_then_Ok_right [simp]: "and_then m Ok = m"
  by (cases m) auto

lemma map_ok_id: "map_ok (\<lambda>x. x) m = m"
  by (cases m) auto

lemma and_then_assoc: "and_then (and_then m f) g = and_then m (\<lambda>a. and_then (f a) g)"
  by (cases m) auto

lemma and_then_cong [fundef_cong]:
  "m = m' \<Longrightarrow> (\<And>a. m' = Ok a \<Longrightarrow> f a = g a) \<Longrightarrow> and_then m f = and_then m' g"
  by (cases m') auto

lemma try_fold_append:
  "try_fold f (xs @ ys) s = and_then (try_fold f xs s) (try_fold f ys)"
  by (induction xs arbitrary: s) (auto simp: and_then_assoc intro: and_then_cong)

lemma try_map_length: "try_map f xs = Ok ys \<Longrightarrow> length ys = length xs"
  by (induction xs arbitrary: ys) (auto simp: res_simps)

lemma try_map_nth: "try_map f xs = Ok ys \<Longrightarrow> i < length xs \<Longrightarrow> f (xs ! i) = Ok (ys ! i)"
proof (induction xs arbitrary: ys i)
  case Nil
  then show ?case by simp
next
  case (Cons x xs)
  then show ?case by (cases i) (auto simp: res_simps)
qed

lemma try_map_total:
  "(\<And>x. x \<in> set xs \<Longrightarrow> \<exists>y. f x = Ok y) \<Longrightarrow> \<exists>ys. try_map f xs = Ok ys"
proof (induction xs)
  case Nil
  then show ?case by simp
next
  case (Cons x xs)
  then obtain y ys where "f x = Ok y" "try_map f xs = Ok ys"
    by (metis list.set_intros)
  then show ?case by simp
qed

text \<open>
  The contract of a state-changing operation that keeps an invariant: whatever its argument,
  a successful call from a state satisfying the invariant ends in one that satisfies it.  The
  block and epoch handlers apply such operations in loops.
\<close>

locale preserving =
  fixes inv :: "'s \<Rightarrow> bool"
    and opr :: "'x \<Rightarrow> 's \<Rightarrow> ('e, 's) result"
  assumes opr_preserves: "inv s \<Longrightarrow> opr x s = Ok s' \<Longrightarrow> inv s'"
begin

lemma fold_preserves: "inv s \<Longrightarrow> try_fold opr xs s = Ok s' \<Longrightarrow> inv s'"
  by (induction xs arbitrary: s) (auto simp: res_simps intro: opr_preserves)

end

text \<open>
  An operation that in addition refines an operation on abstract states: both succeed with related
  states, or both fail with the same error.
\<close>

locale refining = preserving inv opr
  for inv :: "'s \<Rightarrow> bool" and opr :: "'x \<Rightarrow> 's \<Rightarrow> ('e, 's) result" +
  fixes abs :: "'s \<Rightarrow> 'a"
    and spec :: "'x \<Rightarrow> 'a \<Rightarrow> ('e, 'a) result"
  assumes opr_abs: "inv s \<Longrightarrow> map_ok abs (opr x s) = spec x (abs s)"
begin

lemma fold_abs: "inv s \<Longrightarrow> map_ok abs (try_fold opr xs s) = try_fold spec xs (abs s)"
proof (induction xs arbitrary: s)
  case (Cons x xs)
  then show ?case
    using opr_abs [of s x] by (cases "opr x s") (auto intro: opr_preserves simp flip: opr_abs)
qed simp

end

text \<open>
  The contract of the body of a loop with \<open>break\<close>: \<open>inv pre l\<close> holds of the elements handled so far
  and the loop state while the loop goes on, and \<open>post pre l\<close> when it ends, by a \<open>break\<close> or because
  no element is left.
\<close>

locale loop_exit =
  fixes inv :: "'x list \<Rightarrow> 'l \<Rightarrow> bool"
    and post :: "'x list \<Rightarrow> 'l \<Rightarrow> bool"
    and body :: "'x \<Rightarrow> 'l \<Rightarrow> ('e, 'l control) result"
  assumes exit_continue: "inv pre l \<Longrightarrow> body x l = Ok (Continue l') \<Longrightarrow> inv (pre @ [x]) l'"
    and exit_break: "inv pre l \<Longrightarrow> body x l = Ok (Break l') \<Longrightarrow> post pre l'"
    and exit_end: "inv pre l \<Longrightarrow> post pre l"
begin

lemma loop_post:
  "inv pre l \<Longrightarrow> loop_with_break body xs l = Ok l' \<Longrightarrow> \<exists>k \<le> length xs. post (pre @ take k xs) l'"
proof (induction xs arbitrary: pre l)
  case (Cons x xs)
  from Cons.prems(2) obtain c where c: "body x l = Ok c"
    "(case c of Break l \<Rightarrow> Ok l | Continue l \<Rightarrow> loop_with_break body xs l) = Ok l'"
    by (auto simp: and_then_eq_Ok)
  show ?case
  proof (cases c)
    case (Break m)
    then show ?thesis using c exit_break [OF Cons.prems(1)] by (intro exI [of _ 0]) simp
  next
    case (Continue m)
    then obtain k where "k \<le> length xs" "post ((pre @ [x]) @ take k xs) l'"
      using Cons.IH [OF exit_continue [OF Cons.prems(1)]] c by auto
    then show ?thesis by (intro exI [of _ "Suc k"]) simp
  qed
qed (simp add: exit_end)

end

text \<open>A body that keeps one invariant, whether it goes on or breaks.\<close>

locale loop_body =
  fixes inv :: "'x list \<Rightarrow> 'l \<Rightarrow> bool"
    and body :: "'x \<Rightarrow> 'l \<Rightarrow> ('e, 'l control) result"
  assumes body_continue: "inv pre l \<Longrightarrow> body x l = Ok (Continue l') \<Longrightarrow> inv (pre @ [x]) l'"
    and body_break: "inv pre l \<Longrightarrow> body x l = Ok (Break l') \<Longrightarrow> inv pre l'"

sublocale loop_body \<subseteq> exiting: loop_exit inv inv body
  by unfold_locales (auto intro: body_continue body_break)

context loop_body
begin

lemma loop_inv:
  "inv pre l \<Longrightarrow> loop_with_break body xs l = Ok l' \<Longrightarrow> \<exists>k \<le> length xs. inv (pre @ take k xs) l'"
  by (rule exiting.loop_post)

end

subsection \<open>Facts on lists\<close>

lemma sum_list_filter_le:
  fixes f :: "'a \<Rightarrow> nat"
  shows "sum_list (map f (filter P xs)) \<le> sum_list (map f xs)"
  by (induction xs) auto

lemma length_concat_replicate_chunks:
  "(\<And>x. x \<in> set xs \<Longrightarrow> length x = n) \<Longrightarrow> length (concat xs) = n * length xs"
  by (induction xs) auto

lemma nth_take_drop: "i < n \<Longrightarrow> a + n \<le> length xs \<Longrightarrow> take n (drop a xs) ! i = xs ! (a + i)"
  by simp

end
