(* ===== verification/Containers.thy ===== *)
theory Containers
  imports Prelude
begin

text \<open>
  The SSZ containers of the Electra block format and of the parts of the state that are
  containers themselves (\<open>types/src/phase0/containers.rs\<close>, \<open>types/src/altair/containers.rs\<close>,
  \<open>types/src/capella/containers.rs\<close>, \<open>types/src/deneb/containers.rs\<close>,
  \<open>types/src/electra/containers.rs\<close>) and the small enumerations of \<open>types/src/nonstandard.rs\<close>.

  Every struct is a record with the source's fields in the source's order.  Field names carry a
  prefix naming the container, because record selectors share one name space.  Fixed-size byte
  arrays are byte lists; a \<open>u64\<close> is a natural number (the operations write the bound
  \<open>2 ^ 64\<close> out where they can overflow); \<open>BitList\<close> and \<open>BitVector\<close> are lists of booleans.
\<close>

type_synonym h256 = bytes
type_synonym h32 = bytes
type_synonym public_key_bytes = bytes
type_synonym signature_bytes = bytes
type_synonym execution_address = bytes
type_synonym gwei = nat
type_synonym epoch = nat
type_synonym slot = nat
type_synonym validator_index = nat
type_synonym committee_index = nat
type_synonym unix_seconds = nat
type_synonym participation_flags = byte

datatype phase = Phase0 | Altair | Bellatrix | Capella | Deneb | Electra | Fulu | Gloas

datatype relative_epoch = RPrevious | RCurrent | RNext

datatype attestation_epoch = APrevious | ACurrent

datatype slashing_kind = Proposer | Attester

subsection \<open>Phase 0\<close>

record checkpoint =
  cp_epoch :: epoch
  cp_root :: h256

record attestation_data =
  data_slot :: slot
  data_index :: committee_index
  data_beacon_block_root :: h256
  data_source :: checkpoint
  data_target :: checkpoint

record beacon_block_header =
  hdr_slot :: slot
  hdr_proposer_index :: validator_index
  hdr_parent_root :: h256
  hdr_state_root :: h256
  hdr_body_root :: h256

record deposit_data =
  dd_pubkey :: public_key_bytes
  dd_withdrawal_credentials :: h256
  dd_amount :: gwei
  dd_signature :: signature_bytes

record deposit =
  dep_proof :: "h256 list"
  dep_data :: deposit_data

record deposit_message =
  dm_pubkey :: public_key_bytes
  dm_withdrawal_credentials :: h256
  dm_amount :: gwei

record eth1_data =
  e1_deposit_root :: h256
  e1_deposit_count :: nat
  e1_block_hash :: h256

record fork =
  fork_previous_version :: h32
  fork_current_version :: h32
  fork_epoch :: epoch

record signed_beacon_block_header =
  shdr_message :: beacon_block_header
  shdr_signature :: signature_bytes

record proposer_slashing =
  ps_signed_header_1 :: signed_beacon_block_header
  ps_signed_header_2 :: signed_beacon_block_header

record voluntary_exit =
  ve_epoch :: epoch
  ve_validator_index :: validator_index

record signed_voluntary_exit =
  sve_message :: voluntary_exit
  sve_signature :: signature_bytes

record validator =
  val_pubkey :: public_key_bytes
  val_withdrawal_credentials :: h256
  val_effective_balance :: gwei
  val_slashed :: bool
  val_activation_eligibility_epoch :: epoch
  val_activation_epoch :: epoch
  val_exit_epoch :: epoch
  val_withdrawable_epoch :: epoch

subsection \<open>Altair to Deneb\<close>

record sync_aggregate =
  sa_sync_committee_bits :: "bool list"
  sa_sync_committee_signature :: signature_bytes

record sync_committee =
  sc_pubkeys :: "public_key_bytes list"
  sc_aggregate_pubkey :: public_key_bytes

record bls_to_execution_change =
  bc_validator_index :: validator_index
  bc_from_bls_pubkey :: public_key_bytes
  bc_to_execution_address :: execution_address

record signed_bls_to_execution_change =
  sbc_message :: bls_to_execution_change
  sbc_signature :: signature_bytes

record withdrawal =
  wd_index :: nat
  wd_validator_index :: validator_index
  wd_address :: execution_address
  wd_amount :: gwei

record historical_summary =
  hs_block_summary_root :: h256
  hs_state_summary_root :: h256

record execution_payload =
  ep_parent_hash :: h256
  ep_fee_recipient :: execution_address
  ep_state_root :: h256
  ep_receipts_root :: h256
  ep_logs_bloom :: bytes
  ep_prev_randao :: h256
  ep_block_number :: nat
  ep_gas_limit :: nat
  ep_gas_used :: nat
  ep_timestamp :: unix_seconds
  ep_extra_data :: bytes
  ep_base_fee_per_gas :: nat
  ep_block_hash :: h256
  ep_transactions :: "bytes list"
  ep_withdrawals :: "withdrawal list"
  ep_blob_gas_used :: nat
  ep_excess_blob_gas :: nat

record execution_payload_header =
  eh_parent_hash :: h256
  eh_fee_recipient :: execution_address
  eh_state_root :: h256
  eh_receipts_root :: h256
  eh_logs_bloom :: bytes
  eh_prev_randao :: h256
  eh_block_number :: nat
  eh_gas_limit :: nat
  eh_gas_used :: nat
  eh_timestamp :: unix_seconds
  eh_extra_data :: bytes
  eh_base_fee_per_gas :: nat
  eh_block_hash :: h256
  eh_transactions_root :: h256
  eh_withdrawals_root :: h256
  eh_blob_gas_used :: nat
  eh_excess_blob_gas :: nat

subsection \<open>Electra\<close>

record attestation =
  att_aggregation_bits :: "bool list"
  att_data :: attestation_data
  att_signature :: signature_bytes
  att_committee_bits :: "bool list"

record indexed_attestation =
  ia_attesting_indices :: "validator_index list"
  ia_data :: attestation_data
  ia_signature :: signature_bytes

record attester_slashing =
  as_attestation_1 :: indexed_attestation
  as_attestation_2 :: indexed_attestation

record deposit_request =
  dr_pubkey :: public_key_bytes
  dr_withdrawal_credentials :: h256
  dr_amount :: gwei
  dr_signature :: signature_bytes
  dr_index :: nat

record withdrawal_request =
  wr_source_address :: execution_address
  wr_validator_pubkey :: public_key_bytes
  wr_amount :: gwei

record consolidation_request =
  cr_source_address :: execution_address
  cr_source_pubkey :: public_key_bytes
  cr_target_pubkey :: public_key_bytes

record execution_requests =
  er_deposits :: "deposit_request list"
  er_withdrawals :: "withdrawal_request list"
  er_consolidations :: "consolidation_request list"

record pending_deposit =
  pd_pubkey :: public_key_bytes
  pd_withdrawal_credentials :: h256
  pd_amount :: gwei
  pd_signature :: signature_bytes
  pd_slot :: slot

record pending_consolidation =
  pc_source_index :: validator_index
  pc_target_index :: validator_index

record pending_partial_withdrawal =
  pw_validator_index :: validator_index
  pw_amount :: gwei
  pw_withdrawable_epoch :: epoch

record beacon_block_body =
  bb_randao_reveal :: signature_bytes
  bb_eth1_data :: eth1_data
  bb_graffiti :: h256
  bb_proposer_slashings :: "proposer_slashing list"
  bb_attester_slashings :: "attester_slashing list"
  bb_attestations :: "attestation list"
  bb_deposits :: "deposit list"
  bb_voluntary_exits :: "signed_voluntary_exit list"
  bb_sync_aggregate :: sync_aggregate
  bb_execution_payload :: execution_payload
  bb_bls_to_execution_changes :: "signed_bls_to_execution_change list"
  bb_blob_kzg_commitments :: "bytes list"
  bb_execution_requests :: execution_requests

record beacon_block =
  blk_slot :: slot
  blk_proposer_index :: validator_index
  blk_parent_root :: h256
  blk_state_root :: h256
  blk_body :: beacon_block_body

record signed_beacon_block =
  sblk_message :: beacon_block
  sblk_signature :: signature_bytes

subsection \<open>Internal structures\<close>

text \<open>
  \<open>PartialValidator\<close> holds the fields of a validator that change rarely
  (\<open>types/src/nonstandard.rs\<close>).
\<close>

record partial_validator =
  pv_withdrawal_credentials :: h256
  pv_slashed :: bool
  pv_activation_eligibility_epoch :: epoch
  pv_activation_epoch :: epoch
  pv_exit_epoch :: epoch
  pv_withdrawable_epoch :: epoch

definition to_partial_validator :: "validator \<Rightarrow> partial_validator" where
  "to_partial_validator v =
     \<lparr> pv_withdrawal_credentials = val_withdrawal_credentials v,
       pv_slashed = val_slashed v,
       pv_activation_eligibility_epoch = val_activation_eligibility_epoch v,
       pv_activation_epoch = val_activation_epoch v,
       pv_exit_epoch = val_exit_epoch v,
       pv_withdrawable_epoch = val_withdrawable_epoch v \<rparr>"

end
