(* ===== verification/Errors.thy ===== *)
theory Errors
  imports Containers
begin

text \<open>
  The error values of the modelled code.  The source propagates them as \<open>anyhow::Error\<close>, which
  erases the concrete type; here \<open>error\<close> is the sum of the error enumerations that the modelled
  functions construct: \<open>ArithmeticError\<close> (\<open>arithmetic/src/lib.rs\<close>), \<open>IndexError\<close>,
  \<open>PushError\<close> and \<open>ReadError\<close> (\<open>ssz/src/error.rs\<close>), the error enumeration of
  \<open>helper_functions/src/error.rs\<close> and the one of \<open>transition_functions/src/unphased/error.rs\<close>.
\<close>

datatype arithmetic_error =
    AdditionOverflow nat nat
  | AdditionOverflowU256 nat nat
  | SubtractionOverflow nat nat
  | MultiplicationOverflow nat nat
  | DivisionByZero nat nat

datatype index_error =
    DoesNotFitInUsize nat
  | OutOfBounds nat nat

datatype push_error = IndexOutOfBounds | ListFull

datatype read_error =
    FixedSizeMismatch nat nat
  | OffsetDoesNotFitInUsize nat
  | OffsetsNotValidSubsliceBounds nat nat nat
  | BooleanInvalid nat
  | VectorFirstOffsetMismatch nat nat
  | VectorSizeMismatch nat nat
  | ListSizeNotMultiple nat nat
  | ListFirstOffsetUnaligned nat
  | ListTooLong nat nat
  | BitVectorTooLong nat nat
  | BitListEmptySlice
  | BitListNoDelimitingBit
  | BitListTooLong nat nat
  | ContainerFirstOffsetMismatch nat nat
  | CustomRead string

datatype signature_kind =
    SkAggregateAndProof | SkAttestation | SkBlockInBlobSidecar | SkBlock
  | SkBlsToExecutionChange | SkBuilder | SkBuilderDeposit | SkConsolidation
  | SkContributionAndProof | SkDeposit | SkExecutionPayloadBid | SkExecutionPayloadEnvelope
  | SkExecutionProofEnvelope | SkMulti | SkPayloadAttestation | SkProposerPreferences
  | SkRandao | SkSelectionProof | SkSyncAggregate | SkSyncCommitteeContribution
  | SkSyncCommitteeMessage | SkSyncCommitteeSelectionProof | SkVoluntaryExit

text \<open>
  \<open>helper_functions::error::Error\<close>.  \<open>InvalidPhase\<close> wraps another error and is raised only by code
  for later phases, so it has no counterpart here.
\<close>

datatype helper_error =
    AttestationHasNoAttestingIndices
  | HAttestationSourceMismatch
  | AttestingIndexOutOfBounds validator_index nat
  | AttestingIndicesNotSortedAndUnique
  | BlobsForPreDenebBlock h256 slot
  | BlobsForPostGloasBlock h256 slot
  | CommitteeIndexOutOfBounds
  | CommitteeIndexStartInvalid
  | CommitteeIndexEndInvalid
  | CommitteeLengthMismatch nat nat
  | EpochAfterNext
  | EpochBeforePrevious
  | EpochInTheFuture
  | EpochOverflow
  | FailedToSelectProposer
  | GraffitiTooLong
  | NoActiveValidators
  | NoCommitteeAttesters committee_index
  | InvalidAttestationIndexForCurrentSlot nat
  | PayloadAvailabilityOutOfRange
  | ParentSlotMissing
  | ParticipantsCountMismatch nat nat
  | PermutatedPrefixMaximumOverflow
  | PreGloasSlot slot
  | SignatureInvalid signature_kind
  | SlotOutOfRange
  | SubnetIdOverflow
  | TooManyAttestingIndices nat nat

text \<open>
  \<open>transition_functions::unphased::Error\<close>, the variants of the phases up to Electra, with the
  fields in the order of the source.
\<close>

datatype transition_error =
    AttestationDataNotSlashable attestation_data attestation_data
  | AttestationOutsideInclusionRange slot slot
  | AttestationSourceMismatch checkpoint checkpoint
  | AttestationTargetsWrongEpoch attestation
  | AttestationWithNonZeroCommitteeIndex attestation
  | BlockNotNewerThanLatestBlockHeader slot slot
  | DepositCountMismatch nat nat
  | DepositProofInvalid deposit
  | ExecutionPayloadParentHashMismatch h256 h256
  | ExecutionPayloadPrevRandaoMismatch h256 h256
  | ExecutionPayloadTimestampMismatch unix_seconds unix_seconds
  | NoAttestersSlashed
  | ParentRootMismatch h256 h256
  | ProposerSlashed validator_index
  | ProposerIndexMismatch validator_index validator_index
  | ProposerNotSlashable validator_index validator
  | ProposerSlashingHeadersIdentical beacon_block_header
  | ProposerSlashingProposerMismatch validator_index validator_index
  | ProposerSlashingSlotMismatch slot slot
  | SlotMismatch slot slot
  | SlotNotLater slot slot
  | StateRootMismatch h256 h256
  | TooManyBlockKzgCommitments nat nat
  | TooManyOperations string nat nat
  | ValidatorAlreadyExited validator_index epoch
  | ValidatorHasNotBeenActiveLongEnough validator_index epoch epoch
  | ValidatorIndexOverflow
  | ValidatorNotActive validator_index validator epoch
  | VoluntaryExitIsExpired epoch epoch
  | VoluntaryExitWithPendingWithdrawals
  | WithdrawalCountMismatch nat nat
  | WithdrawalMismatch withdrawal withdrawal
  | WithdrawalRootMismatch h256 h256
  | WithdrawalCredentialsMismatch h256 h256
  | WithdrawalIndexOverflow

text \<open>\<open>deposit_tree::Error\<close>; a range of indices is the pair of its bounds.\<close>

datatype deposit_tree_error =
    TreeFull nat
  | UnexpectedIndex nat nat
  | InvalidIndexRanges "nat \<times> nat" "nat \<times> nat"
  | CountMismatch nat nat

text \<open>
  \<open>External\<close> stands for an error that code outside the model reports (a BLS library, a payload
  verifier); \<open>Message\<close> for an \<open>anyhow\<close> error built from a format string.
\<close>

datatype error =
    Arithmetic arithmetic_error
  | Index index_error
  | Push push_error
  | Read read_error
  | Helper helper_error
  | Transition transition_error
  | Tree deposit_tree_error
  | External string
  | Message string

type_synonym 'a res = "(error, 'a) result"

end
