(* ===== verification/Arithmetic.thy ===== *)
theory Arithmetic
  imports Errors
begin

text \<open>
  The crate \<open>arithmetic\<close> (\<open>arithmetic/src/lib.rs\<close>): checked operations on \<open>usize\<close>, \<open>u64\<close>,
  \<open>NonZeroU64\<close>, \<open>u16\<close> and \<open>U256\<close> that report the operands on overflow, and the rounding
  functions on powers of two and multiples.  Machine integers are natural numbers below
  \<open>2 ^ 64\<close> (the supported targets are 64-bit, so \<open>usize\<close> has the width of \<open>u64\<close>), below
  \<open>2 ^ 16\<close> for \<open>u16\<close> and below \<open>2 ^ 256\<close> for \<open>U256\<close>.

  The operations of the Rust core library the modelled code uses on \<open>u64\<close> are defined first.
  The release profile of the repository enables overflow checks, so the plain operators panic.
\<close>

abbreviation u64_max :: nat where
  "u64_max \<equiv> 18446744073709551615"

definition u64_bound :: nat where
  "u64_bound = 18446744073709551616"

subsection \<open>Operations of the core library\<close>

definition checked_add :: "nat \<Rightarrow> nat \<Rightarrow> nat option" where
  "checked_add a b = (if a + b < u64_bound then Some (a + b) else None)"

definition checked_sub :: "nat \<Rightarrow> nat \<Rightarrow> nat option" where
  "checked_sub a b = (if b \<le> a then Some (a - b) else None)"

definition checked_mul :: "nat \<Rightarrow> nat \<Rightarrow> nat option" where
  "checked_mul a b = (if a * b < u64_bound then Some (a * b) else None)"

definition checked_div :: "nat \<Rightarrow> nat \<Rightarrow> nat option" where
  "checked_div a b = (if b = 0 then None else Some (a div b))"

definition checked_rem :: "nat \<Rightarrow> nat \<Rightarrow> nat option" where
  "checked_rem a b = (if b = 0 then None else Some (a mod b))"

definition saturating_add :: "nat \<Rightarrow> nat \<Rightarrow> nat" where
  "saturating_add a b = min (a + b) u64_max"

definition saturating_sub :: "nat \<Rightarrow> nat \<Rightarrow> nat" where
  "saturating_sub a b = a - b"

definition saturating_mul :: "nat \<Rightarrow> nat \<Rightarrow> nat" where
  "saturating_mul a b = min (a * b) u64_max"

text \<open>The operators \<open>+\<close>, \<open>-\<close> and \<open>*\<close> with overflow checks.\<close>

definition add_rs :: "nat \<Rightarrow> nat \<Rightarrow> ('e, nat) result" where
  "add_rs a b = expect (checked_add a b)"

definition sub_rs :: "nat \<Rightarrow> nat \<Rightarrow> ('e, nat) result" where
  "sub_rs a b = expect (checked_sub a b)"

definition mul_rs :: "nat \<Rightarrow> nat \<Rightarrow> ('e, nat) result" where
  "mul_rs a b = expect (checked_mul a b)"

text \<open>\<open>Iterator::sum\<close>: addition from the left, which panics on overflow.\<close>

definition sum_rs :: "nat list \<Rightarrow> ('e, nat) result" where
  "sum_rs xs = try_fold (\<lambda>x acc. add_rs acc x) xs 0"

text \<open>\<open>next_power_of_two\<close>: the smallest power of two not below the argument.\<close>

fun next_power_of_two :: "nat \<Rightarrow> nat" where
  "next_power_of_two n = (if n \<le> 1 then 1 else 2 * next_power_of_two ((n + 1) div 2))"

declare next_power_of_two.simps [simp del]

definition checked_next_power_of_two :: "nat \<Rightarrow> nat option" where
  "checked_next_power_of_two n =
     (let p = next_power_of_two n in if p < u64_bound then Some p else None)"

fun trailing_zeros :: "nat \<Rightarrow> nat" where
  "trailing_zeros n =
     (if n = 0 then 64 else if n mod 2 = 1 then 0 else Suc (trailing_zeros (n div 2)))"

declare trailing_zeros.simps [simp del]

text \<open>\<open>ilog2\<close> is the position of the highest set bit; it panics on zero.\<close>

fun ilog2_nat :: "nat \<Rightarrow> nat" where
  "ilog2_nat n = (if n \<le> 1 then 0 else Suc (ilog2_nat (n div 2)))"

declare ilog2_nat.simps [simp del]

definition ilog2 :: "nat \<Rightarrow> nat res" where
  "ilog2 n = (if n = 0 then Panic else Ok (ilog2_nat n))"

subsection \<open>\<open>UsizeExt\<close>\<close>

definition is_odd :: "nat \<Rightarrow> bool" where
  "is_odd n = (n mod 2 = 1)"

definition usize_ilog2_ceil :: "nat \<Rightarrow> nat res" where
  "usize_ilog2_ceil n =
     (let bits = (case checked_next_power_of_two n of None \<Rightarrow> 64 | Some p \<Rightarrow> trailing_zeros p)
      in if bits < 256 then Ok bits else Panic)"

definition usize_try_add :: "nat \<Rightarrow> nat \<Rightarrow> nat res" where
  "usize_try_add lhs rhs = ok_or (checked_add lhs rhs) (Arithmetic (AdditionOverflow lhs rhs))"

definition usize_try_sub :: "nat \<Rightarrow> nat \<Rightarrow> nat res" where
  "usize_try_sub lhs rhs = ok_or (checked_sub lhs rhs) (Arithmetic (SubtractionOverflow lhs rhs))"

definition usize_try_mul :: "nat \<Rightarrow> nat \<Rightarrow> nat res" where
  "usize_try_mul lhs rhs =
     ok_or (checked_mul lhs rhs) (Arithmetic (MultiplicationOverflow lhs rhs))"

definition usize_try_div :: "nat \<Rightarrow> nat \<Rightarrow> nat res" where
  "usize_try_div lhs rhs = ok_or (checked_div lhs rhs) (Arithmetic (DivisionByZero lhs rhs))"

subsection \<open>\<open>NonZeroU64Ext\<close>, \<open>U16Ext\<close> and \<open>U256Ext\<close>\<close>

text \<open>The product of two nonzero numbers is nonzero, so only overflow can fail.\<close>

definition nonzero_try_mul :: "nat \<Rightarrow> nat \<Rightarrow> nat res" where
  "nonzero_try_mul lhs rhs =
     ok_or (checked_mul lhs rhs) (Arithmetic (MultiplicationOverflow lhs rhs))"

definition u16_try_add :: "nat \<Rightarrow> nat \<Rightarrow> nat res" where
  "u16_try_add lhs rhs =
     (if lhs + rhs < 2 ^ 16 then Ok (lhs + rhs) else Err (Arithmetic (AdditionOverflow lhs rhs)))"

definition u16_try_sub :: "nat \<Rightarrow> nat \<Rightarrow> nat res" where
  "u16_try_sub lhs rhs =
     ok_or (checked_sub lhs rhs) (Arithmetic (SubtractionOverflow lhs rhs))"

definition u256_try_add :: "nat \<Rightarrow> nat \<Rightarrow> nat res" where
  "u256_try_add lhs rhs =
     (if lhs + rhs < 2 ^ 256 then Ok (lhs + rhs)
      else Err (Arithmetic (AdditionOverflowU256 lhs rhs)))"

subsection \<open>\<open>U64Ext\<close>\<close>

definition prev_multiple_of :: "nat \<Rightarrow> nat \<Rightarrow> nat" where
  "prev_multiple_of n factor = saturating_sub n (n mod factor)"

definition prev_power_of_two :: "nat \<Rightarrow> nat res" where
  "prev_power_of_two n = map_ok (\<lambda>k. 2 ^ k) (ilog2 n)"

definition ilog2_ceil :: "nat \<Rightarrow> nat res" where
  "ilog2_ceil n =
     (let bits = (case checked_next_power_of_two n of None \<Rightarrow> 64 | Some p \<Rightarrow> trailing_zeros p)
      in if bits < 256 then Ok bits else Panic)"

definition try_add :: "nat \<Rightarrow> nat \<Rightarrow> nat res" where
  "try_add lhs rhs = ok_or (checked_add lhs rhs) (Arithmetic (AdditionOverflow lhs rhs))"

definition try_rem :: "nat \<Rightarrow> nat \<Rightarrow> nat res" where
  "try_rem lhs rhs = ok_or (checked_rem lhs rhs) (Arithmetic (DivisionByZero lhs rhs))"

definition try_sub :: "nat \<Rightarrow> nat \<Rightarrow> nat res" where
  "try_sub lhs rhs = ok_or (checked_sub lhs rhs) (Arithmetic (SubtractionOverflow lhs rhs))"

definition try_mul :: "nat \<Rightarrow> nat \<Rightarrow> nat res" where
  "try_mul lhs rhs = ok_or (checked_mul lhs rhs) (Arithmetic (MultiplicationOverflow lhs rhs))"

definition try_div :: "nat \<Rightarrow> nat \<Rightarrow> nat res" where
  "try_div lhs rhs = ok_or (checked_div lhs rhs) (Arithmetic (DivisionByZero lhs rhs))"

subsection \<open>Inversion of the checked operations\<close>

lemmas checked_defs [arith_defs] =
  checked_add_def checked_sub_def checked_mul_def checked_div_def checked_rem_def

lemmas try_defs [arith_defs] =
  try_add_def try_rem_def try_sub_def try_mul_def try_div_def
  usize_try_add_def usize_try_sub_def usize_try_mul_def usize_try_div_def nonzero_try_mul_def
  add_rs_def sub_rs_def mul_rs_def

lemma try_add_Ok [res_simps]: "try_add a b = Ok c \<longleftrightarrow> c = a + b \<and> a + b < u64_bound"
  by (auto simp: arith_defs ok_or_def)

lemma try_sub_Ok [res_simps]: "try_sub a b = Ok c \<longleftrightarrow> c = a - b \<and> b \<le> a"
  by (auto simp: arith_defs ok_or_def)

lemma try_mul_Ok [res_simps]: "try_mul a b = Ok c \<longleftrightarrow> c = a * b \<and> a * b < u64_bound"
  by (auto simp: arith_defs ok_or_def)

lemma try_div_Ok [res_simps]: "try_div a b = Ok c \<longleftrightarrow> c = a div b \<and> b \<noteq> 0"
  by (auto simp: arith_defs ok_or_def)

lemma try_rem_Ok [res_simps]: "try_rem a b = Ok c \<longleftrightarrow> c = a mod b \<and> b \<noteq> 0"
  by (auto simp: arith_defs ok_or_def)

lemma usize_try_add_Ok [res_simps]:
  "usize_try_add a b = Ok c \<longleftrightarrow> c = a + b \<and> a + b < u64_bound"
  by (auto simp: arith_defs ok_or_def)

lemma usize_try_sub_Ok [res_simps]: "usize_try_sub a b = Ok c \<longleftrightarrow> c = a - b \<and> b \<le> a"
  by (auto simp: arith_defs ok_or_def)

lemma usize_try_mul_Ok [res_simps]:
  "usize_try_mul a b = Ok c \<longleftrightarrow> c = a * b \<and> a * b < u64_bound"
  by (auto simp: arith_defs ok_or_def)

lemma usize_try_div_Ok [res_simps]: "usize_try_div a b = Ok c \<longleftrightarrow> c = a div b \<and> b \<noteq> 0"
  by (auto simp: arith_defs ok_or_def)

lemma nonzero_try_mul_Ok [res_simps]:
  "nonzero_try_mul a b = Ok c \<longleftrightarrow> c = a * b \<and> a * b < u64_bound"
  by (auto simp: arith_defs ok_or_def)

lemma add_rs_Ok [res_simps]: "add_rs a b = Ok c \<longleftrightarrow> c = a + b \<and> a + b < u64_bound"
  by (auto simp: arith_defs expect_def)

lemma sub_rs_Ok [res_simps]: "sub_rs a b = Ok c \<longleftrightarrow> c = a - b \<and> b \<le> a"
  by (auto simp: arith_defs expect_def)

lemma mul_rs_Ok [res_simps]: "mul_rs a b = Ok c \<longleftrightarrow> c = a * b \<and> a * b < u64_bound"
  by (auto simp: arith_defs expect_def)

lemma try_fold_add_rs:
  "acc < u64_bound \<Longrightarrow> try_fold (\<lambda>x acc. add_rs acc x) xs acc =
     (if acc + sum_list xs < u64_bound then Ok (acc + sum_list xs) else Panic)"
proof (induction xs arbitrary: acc)
  case (Cons x xs)
  show ?case
  proof (cases "acc + x < u64_bound")
    case True
    then show ?thesis using Cons.IH [OF True] by (simp add: add_rs_def checked_add_def expect_def add.assoc)
  next
    case False
    then show ?thesis by (simp add: add_rs_def checked_add_def expect_def)
  qed
qed simp

lemma sum_rs_eq: "sum_rs xs = (if sum_list xs < u64_bound then Ok (sum_list xs) else Panic)"
  unfolding sum_rs_def by (subst try_fold_add_rs) (simp_all add: u64_bound_def)

lemma sum_rs_Ok [res_simps]: "sum_rs xs = Ok s \<longleftrightarrow> s = sum_list xs \<and> sum_list xs < u64_bound"
  by (auto simp: sum_rs_eq)

lemma saturating_add_le: "saturating_add a b \<le> a + b" "saturating_add a b < u64_bound"
  by (auto simp: saturating_add_def u64_bound_def)

lemma saturating_add_exact: "a + b < u64_bound \<Longrightarrow> saturating_add a b = a + b"
  by (simp add: saturating_add_def u64_bound_def)

lemma saturating_add_ge: "a \<le> u64_max \<Longrightarrow> a \<le> saturating_add a b"
  by (simp add: saturating_add_def)

lemma saturating_mul_bound: "saturating_mul a b < u64_bound"
  by (simp add: saturating_mul_def u64_bound_def min_def)

subsection \<open>Rounding to powers of two and to multiples\<close>

lemma next_power_of_two_eq: "\<exists>k. next_power_of_two n = 2 ^ k"
proof (induction n rule: next_power_of_two.induct)
  case (1 n)
  then show ?case
    by (subst next_power_of_two.simps) (metis power_0 power_Suc)
qed

lemma next_power_of_two_ge: "n \<le> next_power_of_two n"
proof (induction n rule: next_power_of_two.induct)
  case (1 n)
  then show ?case by (subst next_power_of_two.simps) auto
qed

lemma next_power_of_two_least: "n \<le> 2 ^ k \<Longrightarrow> next_power_of_two n \<le> 2 ^ k"
proof (induction n arbitrary: k rule: next_power_of_two.induct)
  case (1 n)
  show ?case
  proof (cases "n \<le> 1")
    case True
    then show ?thesis by (subst next_power_of_two.simps) simp
  next
    case False
    then obtain j where k: "k = Suc j"
      using 1 by (cases k) auto
    then have "(n + 1) div 2 \<le> 2 ^ j" using 1 by simp
    with 1(1) False k show ?thesis by (subst next_power_of_two.simps) simp
  qed
qed

lemma trailing_zeros_power: "trailing_zeros (2 ^ k) = k"
proof (induction k)
  case 0
  then show ?case by (subst trailing_zeros.simps) simp
next
  case (Suc k)
  then show ?case by (subst trailing_zeros.simps) simp
qed

lemma ilog2_nat_bounds: "n \<noteq> 0 \<Longrightarrow> 2 ^ ilog2_nat n \<le> n \<and> n < 2 ^ Suc (ilog2_nat n)"
proof (induction n rule: ilog2_nat.induct)
  case (1 n)
  then show ?case by (subst (1 2) ilog2_nat.simps) auto
qed

lemma u64_bound_power: "u64_bound = 2 ^ 64"
  by (simp add: u64_bound_def)

lemma ilog2_ceil_power:
  assumes "n \<le> u64_max" "next_power_of_two n = 2 ^ k"
  shows "ilog2_ceil n = Ok k"
proof -
  have "n \<le> 2 ^ 64" using assms by simp
  then have "(2::nat) ^ k \<le> 2 ^ 64" using next_power_of_two_least assms(2) by metis
  then have le: "k \<le> 64" by (rule power_le_imp_le_exp [rotated]) simp
  show ?thesis
  proof (cases "k = 64")
    case True
    then show ?thesis
      by (simp add: ilog2_ceil_def checked_next_power_of_two_def assms(2) u64_bound_power)
  next
    case False
    then have "(2::nat) ^ k < 2 ^ 64" using le by (intro power_strict_increasing) auto
    then show ?thesis
      using le by (simp add: ilog2_ceil_def checked_next_power_of_two_def assms(2) u64_bound_power
          trailing_zeros_power)
  qed
qed

lemma ilog2_ceil_unique:
  assumes "n \<le> u64_max" "n \<le> 2 ^ k" "\<And>j. n \<le> 2 ^ j \<Longrightarrow> k \<le> j"
  shows "ilog2_ceil n = Ok k"
proof -
  obtain j where j: "next_power_of_two n = 2 ^ j" using next_power_of_two_eq by blast
  have "n \<le> 2 ^ j" using next_power_of_two_ge [of n] j by simp
  moreover have "(2::nat) ^ j \<le> 2 ^ k" using next_power_of_two_least [OF assms(2)] j by simp
  ultimately have "j = k" using assms(3) by (simp add: le_antisym power_le_imp_le_exp)
  then show ?thesis using ilog2_ceil_power [OF assms(1) j] by simp
qed

lemma usize_ilog2_ceil_eq: "usize_ilog2_ceil n = ilog2_ceil n"
  by (simp add: usize_ilog2_ceil_def ilog2_ceil_def)

text \<open>
  For every 64-bit argument \<open>ilog2_ceil\<close> returns without panicking, and its result is the
  least exponent \<open>k\<close> such that the argument is at most \<open>2 ^ k\<close>, also for arguments above the
  largest 64-bit power of two, where \<open>checked_next_power_of_two\<close> fails.
\<close>

lemma ilog2_ceil_least:
  assumes "n \<le> u64_max"
  shows "\<exists>k. ilog2_ceil n = Ok k \<and> n \<le> 2 ^ k \<and> (\<forall>j. n \<le> 2 ^ j \<longrightarrow> k \<le> j)"
proof -
  obtain k where k: "next_power_of_two n = 2 ^ k" using next_power_of_two_eq by blast
  moreover have "n \<le> 2 ^ k" using next_power_of_two_ge [of n] k by simp
  moreover have "k \<le> j" if "n \<le> 2 ^ j" for j
    using next_power_of_two_least [OF that] k by (simp add: power_le_imp_le_exp)
  ultimately show ?thesis using ilog2_ceil_power [OF assms] by blast
qed

lemma ilog2_ceil_least_example:
  "\<exists>k. ilog2_ceil u64_max = Ok k \<and> u64_max \<le> 2 ^ k
     \<and> (\<forall>j. u64_max \<le> 2 ^ j \<longrightarrow> k \<le> j)"
  using ilog2_ceil_least [of u64_max] by simp

lemma prev_power_of_two_greatest:
  assumes "n \<noteq> 0"
  shows "\<exists>k. prev_power_of_two n = Ok (2 ^ k) \<and> 2 ^ k \<le> n \<and> n < 2 * 2 ^ k"
  using ilog2_nat_bounds [OF assms] assms
  by (auto simp: prev_power_of_two_def ilog2_def)

lemma prev_multiple_of_greatest:
  assumes "factor \<noteq> 0"
  shows "factor dvd prev_multiple_of n factor" "prev_multiple_of n factor \<le> n"
    "n < prev_multiple_of n factor + factor"
  using assms dividend_less_times_div [of factor n]
  by (auto simp: prev_multiple_of_def saturating_sub_def minus_mod_eq_mult_div add.commute)

end
