(* ===== verification/Hashing.thy ===== *)
theory Hashing
  imports Arithmetic
begin

text \<open>
  The crate \<open>hashing\<close> (\<open>hashing/src/lib.rs\<close>): SHA-256 of messages of fixed lengths, with the
  padded last block written out as a constant.  The compression function \<open>sha2::compress256\<close> is
  code of the crate \<open>sha2\<close>, so it is the parameter \<open>compress\<close> of every definition that uses it:
  it takes the eight-word state and a list of 64-byte blocks.

  The reference is SHA-256 for arbitrary messages: append the byte \<open>0x80\<close>, zero bytes up to
  56 modulo 64, and the bit length as a big-endian 64-bit number, and compress the blocks.
  \<open>sha256\<close> below is that definition over the same \<open>compress\<close>.
\<close>

type_synonym sha256_state = "32 word list"
type_synonym compress256 = "sha256_state \<Rightarrow> bytes list \<Rightarrow> sha256_state"

subsection \<open>Encodings of integers\<close>

definition to_le_bytes :: "nat \<Rightarrow> nat \<Rightarrow> bytes" where
  "to_le_bytes width n = map (\<lambda>i. of_nat (n div 256 ^ i)) [0..<width]"

definition to_be_bytes :: "nat \<Rightarrow> nat \<Rightarrow> bytes" where
  "to_be_bytes width n = rev (to_le_bytes width n)"

definition word_to_be_bytes :: "32 word \<Rightarrow> bytes" where
  "word_to_be_bytes w = to_be_bytes 4 (unat w)"

text \<open>\<open>block[start..start + src.len()].copy_from_slice(src)\<close>\<close>

definition copy_from_slice :: "nat \<Rightarrow> 'a list \<Rightarrow> 'a list \<Rightarrow> 'a list" where
  "copy_from_slice start src block = take start block @ src @ drop (start + length src) block"

text \<open>The \<open>hex!\<close> literals of the source group the bytes of a block in 32-bit words.\<close>

definition hex_block :: "32 word list \<Rightarrow> bytes" where
  "hex_block ws = concat (map word_to_be_bytes ws)"

subsection \<open>Padded blocks\<close>

definition BLOCK_WITH_PADDING_FOR_64_BITS :: bytes where
  "BLOCK_WITH_PADDING_FOR_64_BITS = hex_block
     [0x00000000, 0x00000000, 0x80000000, 0x00000000,
      0x00000000, 0x00000000, 0x00000000, 0x00000000,
      0x00000000, 0x00000000, 0x00000000, 0x00000000,
      0x00000000, 0x00000000, 0x00000000, 0x00000040]"

definition BLOCK_WITH_PADDING_FOR_256_BITS :: bytes where
  "BLOCK_WITH_PADDING_FOR_256_BITS = hex_block
     [0x00000000, 0x00000000, 0x00000000, 0x00000000,
      0x00000000, 0x00000000, 0x00000000, 0x00000000,
      0x80000000, 0x00000000, 0x00000000, 0x00000000,
      0x00000000, 0x00000000, 0x00000000, 0x00000100]"

definition BLOCK_WITH_PADDING_FOR_264_BITS :: bytes where
  "BLOCK_WITH_PADDING_FOR_264_BITS = hex_block
     [0x00000000, 0x00000000, 0x00000000, 0x00000000,
      0x00000000, 0x00000000, 0x00000000, 0x00000000,
      0x00800000, 0x00000000, 0x00000000, 0x00000000,
      0x00000000, 0x00000000, 0x00000000, 0x00000108]"

definition BLOCK_WITH_PADDING_FOR_296_BITS :: bytes where
  "BLOCK_WITH_PADDING_FOR_296_BITS = hex_block
     [0x00000000, 0x00000000, 0x00000000, 0x00000000,
      0x00000000, 0x00000000, 0x00000000, 0x00000000,
      0x00000000, 0x00800000, 0x00000000, 0x00000000,
      0x00000000, 0x00000000, 0x00000000, 0x00000128]"

definition BLOCK_WITH_PADDING_FOR_320_BITS :: bytes where
  "BLOCK_WITH_PADDING_FOR_320_BITS = hex_block
     [0x00000000, 0x00000000, 0x00000000, 0x00000000,
      0x00000000, 0x00000000, 0x00000000, 0x00000000,
      0x00000000, 0x00000000, 0x80000000, 0x00000000,
      0x00000000, 0x00000000, 0x00000000, 0x00000140]"

definition BLOCK_WITH_PADDING_FOR_352_BITS :: bytes where
  "BLOCK_WITH_PADDING_FOR_352_BITS = hex_block
     [0x00000000, 0x00000000, 0x00000000, 0x00000000,
      0x00000000, 0x00000000, 0x00000000, 0x00000000,
      0x00000000, 0x00000000, 0x00000000, 0x80000000,
      0x00000000, 0x00000000, 0x00000000, 0x00000160]"

definition BLOCK_WITH_PADDING_FOR_384_BITS :: bytes where
  "BLOCK_WITH_PADDING_FOR_384_BITS = hex_block
     [0x00000000, 0x00000000, 0x00000000, 0x00000000,
      0x00000000, 0x00000000, 0x00000000, 0x00000000,
      0x00000000, 0x00000000, 0x00000000, 0x00000000,
      0x80000000, 0x00000000, 0x00000000, 0x00000180]"

definition PADDING_BLOCK_FOR_512_BITS :: bytes where
  "PADDING_BLOCK_FOR_512_BITS = hex_block
     [0x80000000, 0x00000000, 0x00000000, 0x00000000,
      0x00000000, 0x00000000, 0x00000000, 0x00000000,
      0x00000000, 0x00000000, 0x00000000, 0x00000000,
      0x00000000, 0x00000000, 0x00000000, 0x00000200]"

definition BLOCK_WITH_PADDING_FOR_768_BITS :: bytes where
  "BLOCK_WITH_PADDING_FOR_768_BITS = hex_block
     [0x00000000, 0x00000000, 0x00000000, 0x00000000,
      0x00000000, 0x00000000, 0x00000000, 0x00000000,
      0x80000000, 0x00000000, 0x00000000, 0x00000000,
      0x00000000, 0x00000000, 0x00000000, 0x00000300]"

subsection \<open>\<open>Sha256State\<close>\<close>

definition sha256_state_default :: sha256_state where
  "sha256_state_default =
     [0x6a09e667, 0xbb67ae85, 0x3c6ef372, 0xa54ff53a,
      0x510e527f, 0x9b05688c, 0x1f83d9ab, 0x5be0cd19]"

definition compress_multiple :: "compress256 \<Rightarrow> sha256_state \<Rightarrow> bytes list \<Rightarrow> sha256_state" where
  "compress_multiple compress self blocks = compress self blocks"

definition compress_single :: "compress256 \<Rightarrow> sha256_state \<Rightarrow> bytes \<Rightarrow> sha256_state" where
  "compress_single compress self block = compress_multiple compress self [block]"

text \<open>
  The loop zips the eight 4-byte chunks of a zeroed 32-byte output with the state words.
\<close>

definition sha256_output :: "sha256_state \<Rightarrow> h256" where
  "sha256_output self =
     concat (map (\<lambda>(o4, s). word_to_be_bytes s) (zip (replicate 8 (replicate 4 (0::byte))) self))"

subsection \<open>Hash functions\<close>

definition hash_64 :: "compress256 \<Rightarrow> nat \<Rightarrow> h256" where
  "hash_64 compress value =
     (let block = copy_from_slice 0 (to_le_bytes 8 value) BLOCK_WITH_PADDING_FOR_64_BITS
      in sha256_output (compress_single compress sha256_state_default block))"

definition hash_256 :: "compress256 \<Rightarrow> h256 \<Rightarrow> h256" where
  "hash_256 compress bs =
     (let block = copy_from_slice 0 bs BLOCK_WITH_PADDING_FOR_256_BITS
      in sha256_output (compress_single compress sha256_state_default block))"

definition hash_256_8 :: "compress256 \<Rightarrow> h256 \<Rightarrow> byte \<Rightarrow> h256" where
  "hash_256_8 compress a b =
     (let block = copy_from_slice 0 a BLOCK_WITH_PADDING_FOR_264_BITS;
          block = block[32 := b]
      in sha256_output (compress_single compress sha256_state_default block))"

definition hash_256_8_32 :: "compress256 \<Rightarrow> h256 \<Rightarrow> byte \<Rightarrow> nat \<Rightarrow> h256" where
  "hash_256_8_32 compress a b c =
     (let block = copy_from_slice 0 a BLOCK_WITH_PADDING_FOR_296_BITS;
          block = block[32 := b];
          block = copy_from_slice (32 + 1) (to_le_bytes 4 c) block
      in sha256_output (compress_single compress sha256_state_default block))"

definition hash_256_64 :: "compress256 \<Rightarrow> h256 \<Rightarrow> nat \<Rightarrow> h256" where
  "hash_256_64 compress a b =
     (let block = copy_from_slice 0 a BLOCK_WITH_PADDING_FOR_320_BITS;
          block = copy_from_slice 32 (to_le_bytes 8 b) block
      in sha256_output (compress_single compress sha256_state_default block))"

definition hash_32_64_256 :: "compress256 \<Rightarrow> bytes \<Rightarrow> nat \<Rightarrow> h256 \<Rightarrow> h256" where
  "hash_32_64_256 compress a b c =
     (let block = copy_from_slice 0 a BLOCK_WITH_PADDING_FOR_352_BITS;
          block = copy_from_slice 4 (to_le_bytes 8 b) block;
          block = copy_from_slice (4 + 8) c block
      in sha256_output (compress_single compress sha256_state_default block))"

definition hash_384 :: "compress256 \<Rightarrow> bytes \<Rightarrow> h256" where
  "hash_384 compress bs =
     (let block = copy_from_slice 0 bs BLOCK_WITH_PADDING_FOR_384_BITS
      in sha256_output (compress_single compress sha256_state_default block))"

definition hash_256_256 :: "compress256 \<Rightarrow> h256 \<Rightarrow> h256 \<Rightarrow> h256" where
  "hash_256_256 compress left right =
     (let block = replicate 64 0;
          block = copy_from_slice 0 left block;
          block = copy_from_slice 32 right block;
          padding_block = PADDING_BLOCK_FOR_512_BITS
      in sha256_output (compress_multiple compress sha256_state_default [block, padding_block]))"

definition hash_768 :: "compress256 \<Rightarrow> bytes \<Rightarrow> h256" where
  "hash_768 compress bs =
     (let block_1 = copy_from_slice 0 (take 64 bs) (replicate 64 0);
          block_2 = copy_from_slice 0 (drop 64 bs) BLOCK_WITH_PADDING_FOR_768_BITS
      in sha256_output (compress_multiple compress sha256_state_default [block_1, block_2]))"

subsection \<open>Roots of zero subtrees\<close>

definition ZERO_HASH_WORDS :: "32 word list list" where
  "ZERO_HASH_WORDS =
     [
      [0x00000000, 0x00000000, 0x00000000, 0x00000000,
       0x00000000, 0x00000000, 0x00000000, 0x00000000],
      [0xf5a5fd42, 0xd16a2030, 0x2798ef6e, 0xd309979b,
       0x43003d23, 0x20d9f0e8, 0xea9831a9, 0x2759fb4b],
      [0xdb56114e, 0x00fdd4c1, 0xf85c892b, 0xf35ac9a8,
       0x9289aaec, 0xb1ebd0a9, 0x6cde606a, 0x748b5d71],
      [0xc78009fd, 0xf07fc56a, 0x11f12237, 0x0658a353,
       0xaaa542ed, 0x63e44c4b, 0xc15ff4cd, 0x105ab33c],
      [0x536d9883, 0x7f2dd165, 0xa55d5eea, 0xe9148595,
       0x4472d56f, 0x246df256, 0xbf3cae19, 0x352a123c],
      [0x9efde052, 0xaa15429f, 0xae05bad4, 0xd0b1d7c6,
       0x4da64d03, 0xd7a1854a, 0x588c2cb8, 0x430c0d30],
      [0xd88ddfee, 0xd400a875, 0x5596b219, 0x42c1497e,
       0x114c302e, 0x6118290f, 0x91e67729, 0x76041fa1],
      [0x87eb0ddb, 0xa57e35f6, 0xd2866738, 0x02a4af59,
       0x75e22506, 0xc7cf4c64, 0xbb6be5ee, 0x11527f2c],
      [0x26846476, 0xfd5fc54a, 0x5d433851, 0x67c95144,
       0xf2643f53, 0x3cc85bb9, 0xd16b782f, 0x8d7db193],
      [0x506d8658, 0x2d252405, 0xb8400187, 0x92cad2bf,
       0x1259f1ef, 0x5aa5f887, 0xe13cb2f0, 0x094f51e1],
      [0xffff0ad7, 0xe659772f, 0x9534c195, 0xc815efc4,
       0x014ef1e1, 0xdaed4404, 0xc06385d1, 0x1192e92b],
      [0x6cf04127, 0xdb05441c, 0xd833107a, 0x52be8528,
       0x68890e43, 0x17e6a02a, 0xb47683aa, 0x75964220],
      [0xb7d05f87, 0x5f140027, 0xef5118a2, 0x247bbb84,
       0xce8f2f0f, 0x11236230, 0x85daf796, 0x0c329f5f],
      [0xdf6af5f5, 0xbbdb6be9, 0xef8aa618, 0xe4bf8073,
       0x96086717, 0x1e29676f, 0x8b284dea, 0x6a08a85e],
      [0xb58d900f, 0x5e182e3c, 0x50ef7496, 0x9ea16c77,
       0x26c54975, 0x7cc23523, 0xc369587d, 0xa7293784],
      [0xd49a7502, 0xffcfb034, 0x0b1d7885, 0x688500ca,
       0x308161a7, 0xf96b62df, 0x9d083b71, 0xfcc8f2bb],
      [0x8fe6b168, 0x9256c0d3, 0x85f42f5b, 0xbe2027a2,
       0x2c1996e1, 0x10ba97c1, 0x71d3e594, 0x8de92beb],
      [0x8d0d63c3, 0x9ebade85, 0x09e0ae3c, 0x9c3876fb,
       0x5fa112be, 0x18f905ec, 0xacfecb92, 0x057603ab],
      [0x95eec8b2, 0xe541cad4, 0xe91de383, 0x85f2e046,
       0x619f5449, 0x6c2382cb, 0x6cacd5b9, 0x8c26f5a4],
      [0xf893e908, 0x917775b6, 0x2bff2329, 0x4dbbe3a1,
       0xcd8e6cc1, 0xc35b4801, 0x887b646a, 0x6f81f17f],
      [0xcddba7b5, 0x92e31333, 0x93c16194, 0xfac7431a,
       0xbf2f5485, 0xed711db2, 0x82183c81, 0x9e08ebaa],
      [0x8a8d7fe3, 0xaf8caa08, 0x5a7639a8, 0x32001457,
       0xdfb9128a, 0x8061142a, 0xd0335629, 0xff23ff9c],
      [0xfeb3c337, 0xd7a51a6f, 0xbf00b9e3, 0x4c52e1c9,
       0x195c969b, 0xd4e7a0bf, 0xd51d5c5b, 0xed9c1167],
      [0xe71f0aa8, 0x3cc32edf, 0xbefa9f4d, 0x3e0174ca,
       0x85182eec, 0x9f3a09f6, 0xa6c0df63, 0x77a510d7],
      [0x31206fa8, 0x0a50bb6a, 0xbe290850, 0x58f16212,
       0x212a60ee, 0xc8f049fe, 0xcb92d8c8, 0xe0a84bc0],
      [0x21352bfe, 0xcbeddde9, 0x93839f61, 0x4c3dac0a,
       0x3ee37543, 0xf9b412b1, 0x6199dc15, 0x8e23b544],
      [0x619e3127, 0x24bb6d7c, 0x3153ed9d, 0xe791d764,
       0xa366b389, 0xaf13c58b, 0xf8a8d904, 0x81a46765],
      [0x7cdd2986, 0x26825062, 0x8d0c10e3, 0x85c58c61,
       0x91e6fbe0, 0x5191bcc0, 0x4f133f2c, 0xea72c1c4],
      [0x848930bd, 0x7ba8cac5, 0x46610721, 0x13fb2788,
       0x69e07bb8, 0x587f9139, 0x2933374d, 0x017bcbe1],
      [0x8869ff2c, 0x22b28cc1, 0x0510d985, 0x32928033,
       0x28be4fb0, 0xe80495e8, 0xbb8d271f, 0x5b889636],
      [0xb5fe28e7, 0x9f1b850f, 0x8658246c, 0xe9b6a1e7,
       0xb49fc06d, 0xb7143e8f, 0xe0b4f2b0, 0xc5523a5c],
      [0x985e929f, 0x70af28d0, 0xbdd1a90a, 0x808f977f,
       0x597c7c77, 0x8c489e98, 0xd3bd8910, 0xd31ac0f7],
      [0xc6f67e02, 0xe6e4e1bd, 0xefb994c6, 0x098953f3,
       0x4636ba2b, 0x6ca20a47, 0x21d2b26a, 0x886722ff],
      [0x1c9a7e5f, 0xf1cf48b4, 0xad1582d3, 0xf4e4a100,
       0x4f3b20d8, 0xc5a2b713, 0x87a4254a, 0xd933ebc5],
      [0x2f075ae2, 0x29646b6f, 0x6aed19a5, 0xe372cf29,
       0x5081401e, 0xb893ff59, 0x9b3f9acc, 0x0c0d3e7d],
      [0x328921de, 0xb5961207, 0x6801e8cd, 0x61592107,
       0xb5c67c79, 0xb846595c, 0xc6320c39, 0x5b46362c],
      [0xbfb909fd, 0xb236ad24, 0x11b4e488, 0x3810a074,
       0xb8404646, 0x89986c3f, 0x8a809182, 0x7e17c327],
      [0x55d8fb36, 0x87ba3ba4, 0x9f342c77, 0xf5a1f89b,
       0xec83d811, 0x446e1a46, 0x7139213d, 0x640b6a74],
      [0xf7210d4f, 0x8e7e1039, 0x790e7bf4, 0xefa20755,
       0x5a10a6db, 0x1dd4b95d, 0xa313aaa8, 0x8b88fe76],
      [0xad21b516, 0xcbc645ff, 0xe34ab5de, 0x1c8aef8c,
       0xd4e7f8d2, 0xb51e8e14, 0x56adc756, 0x3cda206f],
      [0x6bfe8d2b, 0xcc4237b7, 0x4a504705, 0x8ef45533,
       0x9ecd7360, 0xcb63bfbb, 0x8ee5448e, 0x6430ba04]]"

definition ZERO_HASHES :: "h256 list" where
  "ZERO_HASHES = map hex_block ZERO_HASH_WORDS"

text \<open>
  The unit test of the crate checks that every entry is the hash of the entry before it with
  itself.
\<close>

definition zero_hash_chain :: "compress256 \<Rightarrow> bool" where
  "zero_hash_chain compress \<longleftrightarrow>
     (\<forall>i < 40. hash_256_256 compress (ZERO_HASHES ! i) (ZERO_HASHES ! i) = ZERO_HASHES ! Suc i)"

subsection \<open>Reference definition\<close>

definition sha256_pad :: "bytes \<Rightarrow> bytes" where
  "sha256_pad msg =
     msg @ [0x80] @ replicate ((119 - length msg mod 64) mod 64) 0 @ to_be_bytes 8 (8 * length msg)"

fun blocks_of :: "bytes \<Rightarrow> bytes list" where
  "blocks_of bs = (if length bs < 64 then [] else take 64 bs # blocks_of (drop 64 bs))"

declare blocks_of.simps [simp del]

definition sha256 :: "compress256 \<Rightarrow> bytes \<Rightarrow> h256" where
  "sha256 compress msg =
     sha256_output (compress sha256_state_default (blocks_of (sha256_pad msg)))"

text \<open>The bytes after the message in its last block.\<close>

definition pad_tail :: "nat \<Rightarrow> nat \<Rightarrow> bytes" where
  "pad_tail used len = 0x80 # replicate (55 - used) 0 @ to_be_bytes 8 (8 * len)"

subsection \<open>Layout of the padded blocks\<close>

lemma length_to_le_bytes [simp]: "length (to_le_bytes w n) = w"
  by (simp add: to_le_bytes_def)

lemma length_to_be_bytes [simp]: "length (to_be_bytes w n) = w"
  by (simp add: to_be_bytes_def)

lemma copy_from_slice_0: "copy_from_slice 0 src block = src @ drop (length src) block"
  by (simp add: copy_from_slice_def)

lemma copy_from_slice_append:
  "start = length pre \<Longrightarrow>
     copy_from_slice start src (pre @ rest) = (pre @ src) @ drop (length src) rest"
  by (simp add: copy_from_slice_def)

lemma replicate_numeral_unfold: "replicate (numeral k) x = x # replicate (pred_numeral k) x"
  by (simp add: numeral_eq_Suc)

lemmas byte_eval = to_be_bytes_def to_le_bytes_def upt_rec word_to_be_bytes_def

lemma word_bytes:
  "word_to_be_bytes 0 = [0, 0, 0, 0]"
  "word_to_be_bytes 0x80000000 = [0x80, 0, 0, 0]"
  "word_to_be_bytes 0x00800000 = [0, 0x80, 0, 0]"
  "word_to_be_bytes 0x40 = [0, 0, 0, 0x40]"
  "word_to_be_bytes 0x100 = [0, 0, 1, 0]"
  "word_to_be_bytes 0x108 = [0, 0, 1, 0x08]"
  "word_to_be_bytes 0x128 = [0, 0, 1, 0x28]"
  "word_to_be_bytes 0x140 = [0, 0, 1, 0x40]"
  "word_to_be_bytes 0x160 = [0, 0, 1, 0x60]"
  "word_to_be_bytes 0x180 = [0, 0, 1, 0x80]"
  "word_to_be_bytes 0x200 = [0, 0, 2, 0]"
  "word_to_be_bytes 0x300 = [0, 0, 3, 0]"
  by (simp_all add: byte_eval)

lemma bit_length_bytes:
  "to_be_bytes 8 64 = [0, 0, 0, 0, 0, 0, 0, 0x40]"
  "to_be_bytes 8 256 = [0, 0, 0, 0, 0, 0, 1, 0]"
  "to_be_bytes 8 264 = [0, 0, 0, 0, 0, 0, 1, 0x08]"
  "to_be_bytes 8 296 = [0, 0, 0, 0, 0, 0, 1, 0x28]"
  "to_be_bytes 8 320 = [0, 0, 0, 0, 0, 0, 1, 0x40]"
  "to_be_bytes 8 352 = [0, 0, 0, 0, 0, 0, 1, 0x60]"
  "to_be_bytes 8 384 = [0, 0, 0, 0, 0, 0, 1, 0x80]"
  "to_be_bytes 8 512 = [0, 0, 0, 0, 0, 0, 2, 0]"
  "to_be_bytes 8 768 = [0, 0, 0, 0, 0, 0, 3, 0]"
  by (simp_all add: byte_eval)

lemmas block_eval = hex_block_def word_bytes bit_length_bytes pad_tail_def replicate_numeral_unfold

lemma padding_tails:
  "drop 8 BLOCK_WITH_PADDING_FOR_64_BITS = pad_tail 8 8"
  "drop 32 BLOCK_WITH_PADDING_FOR_256_BITS = pad_tail 32 32"
  "drop 33 BLOCK_WITH_PADDING_FOR_264_BITS = pad_tail 33 33"
  "drop 37 BLOCK_WITH_PADDING_FOR_296_BITS = pad_tail 37 37"
  "drop 40 BLOCK_WITH_PADDING_FOR_320_BITS = pad_tail 40 40"
  "drop 44 BLOCK_WITH_PADDING_FOR_352_BITS = pad_tail 44 44"
  "drop 48 BLOCK_WITH_PADDING_FOR_384_BITS = pad_tail 48 48"
  "PADDING_BLOCK_FOR_512_BITS = pad_tail 0 64"
  "drop 32 BLOCK_WITH_PADDING_FOR_768_BITS = pad_tail 32 96"
  by (simp_all add: block_eval
        BLOCK_WITH_PADDING_FOR_64_BITS_def BLOCK_WITH_PADDING_FOR_256_BITS_def
        BLOCK_WITH_PADDING_FOR_264_BITS_def BLOCK_WITH_PADDING_FOR_296_BITS_def
        BLOCK_WITH_PADDING_FOR_320_BITS_def BLOCK_WITH_PADDING_FOR_352_BITS_def
        BLOCK_WITH_PADDING_FOR_384_BITS_def PADDING_BLOCK_FOR_512_BITS_def
        BLOCK_WITH_PADDING_FOR_768_BITS_def)

lemma length_pad_tail: "used \<le> 55 \<Longrightarrow> length (pad_tail used len) = 64 - used"
  by (simp add: pad_tail_def)

lemma blocks_of_single: "length b = 64 \<Longrightarrow> blocks_of b = [b]"
  by (simp add: blocks_of.simps [of b] blocks_of.simps [of "[]"])

lemma blocks_of_two: "length a = 64 \<Longrightarrow> length b = 64 \<Longrightarrow> blocks_of (a @ b) = [a, b]"
  by (simp add: blocks_of.simps [of "a @ b"] blocks_of_single)

lemma sha256_one_block:
  assumes "length msg \<le> 55"
  shows "sha256 compress msg =
    sha256_output (compress sha256_state_default [msg @ pad_tail (length msg) (length msg)])"
proof -
  have "(119 - length msg mod 64) mod 64 = 55 - length msg"
    using assms by (simp add: mod_if)
  then have "sha256_pad msg = msg @ pad_tail (length msg) (length msg)"
    by (simp add: sha256_pad_def pad_tail_def)
  then show ?thesis
    using assms by (simp add: sha256_def blocks_of_single length_pad_tail)
qed

lemma sha256_two_blocks:
  assumes "length a = 64" "length b \<le> 55"
  shows "sha256 compress (a @ b) =
    sha256_output (compress sha256_state_default [a, b @ pad_tail (length b) (64 + length b)])"
proof -
  have "(119 - (64 + length b) mod 64) mod 64 = 55 - length b"
    using assms by (simp add: mod_if)
  then have "sha256_pad (a @ b) = a @ (b @ pad_tail (length b) (64 + length b))"
    using assms by (simp add: sha256_pad_def pad_tail_def)
  then show ?thesis
    using assms by (simp add: sha256_def blocks_of_two length_pad_tail)
qed

subsection \<open>The specialised functions compute SHA-256\<close>

lemmas hash_eval = compress_single_def compress_multiple_def Let_def copy_from_slice_0
  copy_from_slice_append padding_tails

lemma hash_64_sha256: "hash_64 compress v = sha256 compress (to_le_bytes 8 v)"
  by (simp add: hash_64_def sha256_one_block hash_eval)

lemma hash_256_sha256: "length a = 32 \<Longrightarrow> hash_256 compress a = sha256 compress a"
  by (simp add: hash_256_def sha256_one_block hash_eval)

lemma hash_256_8_sha256:
  assumes "length a = 32"
  shows "hash_256_8 compress a b = sha256 compress (a @ [b])"
proof -
  let ?P = BLOCK_WITH_PADDING_FOR_264_BITS
  have len: "length ?P = 64"
    by (simp add: BLOCK_WITH_PADDING_FOR_264_BITS_def block_eval)
  then have "drop 32 ?P = ?P ! 32 # drop 33 ?P"
    by (subst Cons_nth_drop_Suc [symmetric]) simp_all
  then have "(a @ drop 32 ?P)[32 := b] = a @ b # drop 33 ?P"
    using assms by (simp add: list_update_append)
  then show ?thesis
    using assms by (simp add: hash_256_8_def sha256_one_block hash_eval)
qed

lemma hash_256_8_32_sha256:
  assumes "length a = 32"
  shows "hash_256_8_32 compress a b c = sha256 compress (a @ [b] @ to_le_bytes 4 c)"
proof -
  let ?P = BLOCK_WITH_PADDING_FOR_296_BITS
  have len: "length ?P = 64"
    by (simp add: BLOCK_WITH_PADDING_FOR_296_BITS_def block_eval)
  then have "drop 32 ?P = ?P ! 32 # drop 33 ?P"
    by (subst Cons_nth_drop_Suc [symmetric]) simp_all
  then have "(a @ drop 32 ?P)[32 := b] = (a @ [b]) @ drop 33 ?P"
    using assms by (simp add: list_update_append)
  then have "copy_from_slice 33 (to_le_bytes 4 c) ((a @ drop 32 ?P)[32 := b])
      = a @ b # to_le_bytes 4 c @ pad_tail 37 37"
    using assms by (simp add: hash_eval del: append_assoc)
  then show ?thesis
    using assms by (simp add: hash_256_8_32_def sha256_one_block copy_from_slice_0
        compress_single_def compress_multiple_def)
qed

lemma hash_256_64_sha256:
  "length a = 32 \<Longrightarrow> hash_256_64 compress a b = sha256 compress (a @ to_le_bytes 8 b)"
  by (simp add: hash_256_64_def sha256_one_block hash_eval)

lemma hash_32_64_256_sha256:
  assumes "length a = 4" "length c = 32"
  shows "hash_32_64_256 compress a b c = sha256 compress (a @ to_le_bytes 8 b @ c)"
proof -
  have "copy_from_slice 12 c ((a @ to_le_bytes 8 b) @ drop 12 BLOCK_WITH_PADDING_FOR_352_BITS)
      = a @ to_le_bytes 8 b @ c @ pad_tail 44 44"
    using assms by (subst copy_from_slice_append) (simp_all add: hash_eval)
  then show ?thesis
    using assms by (simp add: hash_32_64_256_def sha256_one_block hash_eval)
qed

lemma hash_384_sha256: "length a = 48 \<Longrightarrow> hash_384 compress a = sha256 compress a"
  by (simp add: hash_384_def sha256_one_block hash_eval)

lemma hash_256_256_sha256:
  "length a = 32 \<Longrightarrow> length b = 32 \<Longrightarrow> hash_256_256 compress a b = sha256 compress (a @ b)"
  using sha256_two_blocks [of "a @ b" "[]" compress]
  by (simp add: hash_256_256_def hash_eval)

lemma hash_768_sha256:
  assumes "length a = 96"
  shows "hash_768 compress a = sha256 compress a"
  using sha256_two_blocks [of "take 64 a" "drop 64 a" compress] assms
  by (simp add: hash_768_def hash_eval)

text \<open>
  C26. Each of the nine specialised functions, which write their message into a block with
  precomputed padding, returns the SHA-256 hash of the message its name describes.  The
  hypotheses are the lengths that the Rust types fix.
\<close>

theorem hash_functions_are_sha256:
  assumes "length a = 32" "length b = 32" "length domain = 4" "length pubkey = 48"
    and "length sig = 96"
  shows "hash_64 compress v = sha256 compress (to_le_bytes 8 v)
    \<and> hash_256 compress a = sha256 compress a
    \<and> hash_256_8 compress a x = sha256 compress (a @ [x])
    \<and> hash_256_8_32 compress a x c = sha256 compress (a @ [x] @ to_le_bytes 4 c)
    \<and> hash_256_64 compress a v = sha256 compress (a @ to_le_bytes 8 v)
    \<and> hash_32_64_256 compress domain v a = sha256 compress (domain @ to_le_bytes 8 v @ a)
    \<and> hash_384 compress pubkey = sha256 compress pubkey
    \<and> hash_256_256 compress a b = sha256 compress (a @ b)
    \<and> hash_768 compress sig = sha256 compress sig"
  using assms
  by (simp add: hash_64_sha256 hash_256_sha256 hash_256_8_sha256 hash_256_8_32_sha256
      hash_256_64_sha256 hash_32_64_256_sha256 hash_384_sha256 hash_256_256_sha256
      hash_768_sha256)

theorem hash_functions_are_sha256_witness:
  "hash_256_8 (\<lambda>s bs. map (\<lambda>w. w + of_nat (length bs)) s) (replicate 32 7) 9
     = sha256 (\<lambda>s bs. map (\<lambda>w. w + of_nat (length bs)) s) (replicate 32 7 @ [9])"
  using hash_functions_are_sha256 [of "replicate 32 7" "replicate 32 1" "replicate 4 2"
      "replicate 48 3" "replicate 96 4" "\<lambda>s bs. map (\<lambda>w. w + of_nat (length bs)) s" 0 9 0]
  by simp

end
