(* ===== verification/Merkle.thy ===== *)
theory Merkle
  imports Hashing
begin

text \<open>
  Incremental Merkleization (\<open>ssz/src/merkle_tree.rs\<close>).  A \<open>MerkleTree\<close> of depth \<open>D\<close> keeps one
  hash per level, the left siblings of the path to the chunk that comes next; pushing a chunk
  folds it into the completed subtrees, and the root is computed from the siblings and the table
  of zero hashes.  The reference is the direct recursion over a list padded with zero chunks.

  \<open>get_bit\<close> on \<open>usize\<close> comes from the crate \<open>bit_field\<close> and is a parameter \<open>gb\<close> here; the
  theorems assume that \<open>gb n i\<close> reads bit \<open>i\<close> of \<open>n\<close>.
\<close>

type_synonym bit_reader = "nat \<Rightarrow> nat \<Rightarrow> bool"

definition reads_bits :: "bit_reader \<Rightarrow> bool" where
  "reads_bits gb \<longleftrightarrow> (\<forall>n i. i < 64 \<longrightarrow> gb n i = odd (n div 2 ^ i))"

subsection \<open>\<open>MerkleTree\<close>\<close>

definition merkle_tree_default :: "nat \<Rightarrow> h256 list" where
  "merkle_tree_default D = replicate D (replicate 32 0)"

definition binary_carry_sequence :: "nat \<Rightarrow> nat" where
  "binary_carry_sequence index = trailing_zeros (saturating_add index 1)"

definition merkle_push ::
  "compress256 \<Rightarrow> nat \<Rightarrow> h256 list \<Rightarrow> nat \<Rightarrow> h256 \<Rightarrow> (h256 list \<times> nat \<times> h256) res" where
  "merkle_push compress D sibling_hashes index chunk =
     and_then (assert_rs (D < 64 \<and> index < 2 ^ D)) (\<lambda>_.
       let sibling_to_update = binary_carry_sequence index in
       and_then
         (try_fold (\<lambda>height hash.
            and_then (nth_rs sibling_hashes height) (\<lambda>sibling.
              Ok (hash_256_256 compress sibling hash))) [0..<sibling_to_update] chunk) (\<lambda>hash.
       let sibling_hashes =
             (if sibling_to_update < D then sibling_hashes[sibling_to_update := hash]
              else sibling_hashes)
       in Ok (sibling_hashes, sibling_to_update, hash)))"

definition zero_hash_at :: "nat \<Rightarrow> h256 res" where
  "zero_hash_at height = nth_rs ZERO_HASHES height"

definition push_and_compute_root ::
  "compress256 \<Rightarrow> bit_reader \<Rightarrow> nat \<Rightarrow> h256 list \<Rightarrow> nat \<Rightarrow> h256 \<Rightarrow> (h256 list \<times> h256) res" where
  "push_and_compute_root compress gb D sibling_hashes index chunk =
     and_then (merkle_push compress D sibling_hashes index chunk)
       (\<lambda>(sibling_hashes, updated_sibling, hash).
         map_ok (\<lambda>hash. (sibling_hashes, hash)) (try_fold (\<lambda>height hash.
           if gb index height
           then and_then (nth_rs sibling_hashes height) (\<lambda>sibling.
                  Ok (hash_256_256 compress sibling hash))
           else and_then (zero_hash_at height) (\<lambda>zero.
                  Ok (hash_256_256 compress hash zero))) [updated_sibling..<D] hash))"

definition merkleize_chunks ::
  "compress256 \<Rightarrow> bit_reader \<Rightarrow> nat \<Rightarrow> h256 list \<Rightarrow> h256 res" where
  "merkleize_chunks compress gb D chunks =
     (if chunks = [] then zero_hash_at D
      else
        let last_chunk = last chunks;
            chunks = butlast chunks;
            last_index = length chunks
        in and_then
             (try_fold (\<lambda>(index, chunk) tree.
                map_ok fst (merkle_push compress D tree index chunk))
              (enumerate 0 chunks) (merkle_tree_default D)) (\<lambda>tree.
           map_ok snd (push_and_compute_root compress gb D tree last_index last_chunk)))"

text \<open>\<open>merkleize_bytes\<close> pads the last chunk of 32 bytes with zeros.\<close>

fun chunks_of :: "nat \<Rightarrow> 'a list \<Rightarrow> 'a list list" where
  "chunks_of n xs = (if n = 0 \<or> xs = [] then [] else take n xs # chunks_of n (drop n xs))"

declare chunks_of.simps [simp del]

definition merkleize_bytes :: "compress256 \<Rightarrow> bit_reader \<Rightarrow> nat \<Rightarrow> bytes \<Rightarrow> h256 res" where
  "merkleize_bytes compress gb D bs =
     merkleize_chunks compress gb D
       (map (\<lambda>partial_chunk. copy_from_slice 0 partial_chunk (replicate 32 0)) (chunks_of 32 bs))"

definition hash_of_length :: "nat \<Rightarrow> h256" where
  "hash_of_length len = copy_from_slice 0 (to_le_bytes 8 len) (replicate 32 0)"

definition mix_in_length :: "compress256 \<Rightarrow> h256 \<Rightarrow> nat \<Rightarrow> h256" where
  "mix_in_length compress root len = hash_256_256 compress root (hash_of_length len)"

definition mix_in_active_fields :: "compress256 \<Rightarrow> h256 \<Rightarrow> h256 \<Rightarrow> h256" where
  "mix_in_active_fields compress root active_fields_root =
     hash_256_256 compress root active_fields_root"

subsection \<open>Reference\<close>

text \<open>The root of the tree of depth \<open>d\<close> over the given chunks, padded with zero chunks.\<close>

fun merkle_root :: "compress256 \<Rightarrow> nat \<Rightarrow> h256 list \<Rightarrow> h256" where
  "merkle_root compress 0 xs = (case xs of [] \<Rightarrow> replicate 32 0 | x # _ \<Rightarrow> x)"
| "merkle_root compress (Suc d) xs =
     hash_256_256 compress (merkle_root compress d (take (2 ^ d) xs))
       (merkle_root compress d (drop (2 ^ d) xs))"

subsection \<open>Zero subtrees\<close>

lemma length_ZERO_HASHES [simp]: "length ZERO_HASHES = 41"
  by (simp add: ZERO_HASHES_def ZERO_HASH_WORDS_def)

lemma ZERO_HASHES_0: "ZERO_HASHES ! 0 = replicate 32 0"
  by (simp add: ZERO_HASHES_def ZERO_HASH_WORDS_def hex_block_def word_bytes replicate_numeral_unfold)

lemma merkle_root_Nil:
  "zero_hash_chain compress \<Longrightarrow> d \<le> 40 \<Longrightarrow> merkle_root compress d [] = ZERO_HASHES ! d"
  by (induction d) (simp_all add: ZERO_HASHES_0 zero_hash_chain_def)

text \<open>Moving a list that fits in a subtree one level up.\<close>

lemma merkle_root_lift:
  assumes "zero_hash_chain compress" "d \<le> 40" "length xs \<le> 2 ^ d"
  shows "merkle_root compress (Suc d) xs = hash_256_256 compress (merkle_root compress d xs) (ZERO_HASHES ! d)"
  using assms merkle_root_Nil [OF assms(1,2)] by simp

lemma fold_zero_hashes:
  assumes "zero_hash_chain compress" "h \<le> d" "d \<le> 40" "length xs \<le> 2 ^ h"
  shows "fold (\<lambda>k hash. hash_256_256 compress hash (ZERO_HASHES ! k)) [h..<d] (merkle_root compress h xs)
    = merkle_root compress d xs"
  using assms(2,3)
proof (induction d)
  case (Suc d)
  show ?case
  proof (cases "h = Suc d")
    case False
    have "length xs \<le> 2 ^ d"
      using assms(4) Suc.prems False by (meson le_SucE le_trans one_le_numeral power_increasing)
    then show ?thesis
      using Suc False merkle_root_lift [OF assms(1), of d xs] by simp
  qed simp
qed simp

subsection \<open>Pushing chunks\<close>

lemma trailing_zeros_split: "n \<noteq> 0 \<Longrightarrow> \<exists>q. n = 2 ^ trailing_zeros n * (2 * q + 1)"
proof (induction n rule: trailing_zeros.induct)
  case (1 n)
  show ?case
  proof (cases "n mod 2 = 1")
    case True
    then have "n = 2 * (n div 2) + 1" by presburger
    then show ?thesis using True by (subst trailing_zeros.simps) auto
  next
    case False
    then have "n div 2 \<noteq> 0" using 1(2) by presburger
    then obtain q where "n div 2 = 2 ^ trailing_zeros (n div 2) * (2 * q + 1)"
      using 1(1) [OF 1(2) False] by auto
    moreover have "n = 2 * (n div 2)" using False by presburger
    ultimately have "n = 2 ^ Suc (trailing_zeros (n div 2)) * (2 * q + 1)"
      by (metis mult.assoc power_Suc)
    then show ?thesis using False 1(2) by (subst trailing_zeros.simps) auto
  qed
qed

definition sib_ok :: "compress256 \<Rightarrow> nat \<Rightarrow> h256 list \<Rightarrow> h256 list \<Rightarrow> bool" where
  "sib_ok compress D sib xs \<longleftrightarrow> length sib = D \<and>
     (\<forall>h < D. odd (length xs div 2 ^ h) \<longrightarrow>
        sib ! h = merkle_root compress h
          (take (2 ^ h) (drop (length xs div 2 ^ Suc h * 2 ^ Suc h) xs)))"

lemma quot_pred:
  fixes a m :: nat
  assumes "0 < m"
  shows "(a * m + (m - 1)) div m = a"
proof -
  obtain n where "m = Suc n" using assms by (cases m) auto
  then show ?thesis by (simp only: diff_Suc_1 div_mult_self3) simp
qed

lemma carry_below:
  fixes i h m :: nat
  assumes "Suc i = 2 ^ Suc h * m"
  shows "odd (i div 2 ^ h)" "i div 2 ^ Suc h * 2 ^ Suc h = Suc i - 2 ^ Suc h" "2 ^ Suc h \<le> Suc i"
proof -
  obtain p where m: "m = Suc p" using assms by (cases m) auto
  have i: "i = p * 2 ^ Suc h + (2 ^ Suc h - 1)" "i = (2 * p + 1) * 2 ^ h + (2 ^ h - 1)"
    using assms m by (simp_all add: algebra_simps)
  have "i div 2 ^ Suc h = p"
    using quot_pred [of "2 ^ Suc h" p] i(1) by (simp del: power_Suc)
  moreover have "i div 2 ^ h = 2 * p + 1"
    using quot_pred [of "2 ^ h" "2 * p + 1"] i(2) by simp
  ultimately show "odd (i div 2 ^ h)" "i div 2 ^ Suc h * 2 ^ Suc h = Suc i - 2 ^ Suc h" "2 ^ Suc h \<le> Suc i"
    using assms m by (simp_all add: algebra_simps)
qed

lemma carry_above:
  fixes i k q h :: nat
  assumes "Suc i = 2 ^ k * (2 * q + 1)"
  shows "k < h \<Longrightarrow> Suc i div 2 ^ h = i div 2 ^ h"
    and "Suc i div 2 ^ Suc k * 2 ^ Suc k = Suc i - 2 ^ k"
    and "i div 2 ^ k = 2 * q" "i div 2 ^ k * 2 ^ k = Suc i - 2 ^ k"
    and "h < k \<Longrightarrow> even (Suc i div 2 ^ h)"
proof -
  have i: "i = 2 * q * 2 ^ k + (2 ^ k - 1)" using assms by (simp add: algebra_simps)
  show ik: "i div 2 ^ k = 2 * q" using quot_pred [of "2 ^ k" "2 * q"] i by simp
  then show "i div 2 ^ k * 2 ^ k = Suc i - 2 ^ k" using assms by (simp add: algebra_simps)
  have k: "Suc i div 2 ^ k = 2 * q + 1" using assms by simp
  have d: "n div 2 ^ (k + j) = n div 2 ^ k div 2 ^ j" for n j :: nat
    by (simp add: power_add div_mult2_eq)
  have q: "Suc i div 2 ^ Suc k = q" using d [of "Suc i" 1] k by simp
  then show "Suc i div 2 ^ Suc k * 2 ^ Suc k = Suc i - 2 ^ k" using assms by (simp add: algebra_simps)
  show "Suc i div 2 ^ h = i div 2 ^ h" if kh: "k < h"
  proof -
    obtain j where j: "h = k + Suc j" using less_imp_Suc_add [OF kh] by auto
    have "(2 * q + 1) div 2 ^ Suc j = 2 * q div 2 ^ Suc j" by (simp add: div_mult2_eq)
    then show ?thesis unfolding j d k ik .
  qed
  show "even (Suc i div 2 ^ h)" if hk: "h < k"
  proof -
    obtain j where j: "k = h + Suc j" using less_imp_Suc_add [OF hk] by auto
    have "Suc i = 2 ^ h * (2 * (2 ^ j * (2 * q + 1)))" using assms j by (simp add: power_add ac_simps)
    then have "Suc i div 2 ^ h = 2 * (2 ^ j * (2 * q + 1))"
      by (metis nonzero_mult_div_cancel_left power_not_zero zero_neq_numeral)
    then show ?thesis by simp
  qed
qed

lemma merkle_push_hash:
  assumes sib: "sib_ok compress D sib xs" and h: "h \<le> k" "k \<le> D"
    and k: "Suc (length xs) = 2 ^ k * (2 * q + 1)"
  shows "try_fold (\<lambda>height hash. and_then (nth_rs sib height) (\<lambda>s. Ok (hash_256_256 compress s hash)))
      [0..<h] chunk = Ok (merkle_root compress h (drop (Suc (length xs) - 2 ^ h) (xs @ [chunk])))"
  using h(1)
proof (induction h)
  case 0
  then show ?case by simp
next
  case (Suc h)
  let ?i = "length xs"
  obtain j where j: "k = Suc h + j" using Suc.prems le_iff_add by blast
  have split: "Suc ?i = 2 ^ Suc h * (2 ^ j * (2 * q + 1))" using k j by (simp add: power_add algebra_simps)
  note below = carry_below [OF split]
  let ?s = "Suc ?i - 2 ^ Suc h"
  have hD: "h < D" using Suc.prems h(2) by simp
  have s: "sib ! h = merkle_root compress h (take (2 ^ h) (drop ?s xs))"
    using sib hD below by (simp add: sib_ok_def)
  have "(1::nat) \<le> 2 ^ h" by simp
  then have fit: "?s + 2 ^ h \<le> ?i" using below(3) unfolding power_Suc by linarith
  have "take (2 ^ h) (drop ?s (xs @ [chunk])) = take (2 ^ h) (drop ?s xs)"
    using fit by simp
  moreover have "?s + 2 ^ h = Suc ?i - 2 ^ h" using below(3) by simp
  then have "drop (2 ^ h) (drop ?s (xs @ [chunk])) = drop (Suc ?i - 2 ^ h) (xs @ [chunk])"
    by (simp only: drop_drop add.commute)
  moreover have "h < length sib" using sib hD by (simp add: sib_ok_def)
  ultimately show ?case
    using Suc s by (simp add: try_fold_append)
qed

lemma merkle_push_ok:
  assumes sib: "sib_ok compress D sib xs" and D: "D < 64" "length xs < 2 ^ D"
  shows "\<exists>sib' k hash. merkle_push compress D sib (length xs) chunk = Ok (sib', k, hash)
    \<and> sib_ok compress D sib' (xs @ [chunk]) \<and> k \<le> D
    \<and> (\<exists>q. Suc (length xs) = 2 ^ k * (2 * q + 1))
    \<and> hash = merkle_root compress k (drop (Suc (length xs) - 2 ^ k) (xs @ [chunk]))
    \<and> (\<forall>h. k < h \<longrightarrow> sib' ! h = sib ! h)"
proof -
  let ?i = "length xs" and ?xs = "xs @ [chunk]"
  define k where "k = binary_carry_sequence ?i"
  have "(2::nat) ^ D < 2 ^ 64" using D(1) by (simp only: power_strict_increasing_iff)
  then have "saturating_add ?i 1 = Suc ?i"
    using D(2) by (simp add: saturating_add_exact u64_bound_power)
  then have kz: "k = trailing_zeros (Suc ?i)" by (simp add: k_def binary_carry_sequence_def)
  obtain q where q: "Suc ?i = 2 ^ k * (2 * q + 1)"
    using trailing_zeros_split [of "Suc ?i"] kz by auto
  have "2 ^ k \<le> Suc ?i" using q by simp
  then have "(2::nat) ^ k \<le> 2 ^ D" using D(2) by linarith
  then have kD: "k \<le> D" by (simp add: power_le_imp_le_exp)
  let ?hash = "merkle_root compress k (drop (Suc ?i - 2 ^ k) ?xs)"
  let ?sib = "if k < D then sib[k := ?hash] else sib"
  have push: "merkle_push compress D sib ?i chunk = Ok (?sib, k, ?hash)"
    using D by (simp add: merkle_push_def assert_rs_def Let_def merkle_push_hash [OF sib order_refl kD q]
        flip: k_def)
  note above = carry_above [OF q]
  have "sib_ok compress D ?sib ?xs"
    unfolding sib_ok_def
  proof (intro conjI allI impI)
    show "length ?sib = D" using sib by (simp add: sib_ok_def)
    fix h assume h: "h < D" "odd (length ?xs div 2 ^ h)"
    then consider "h = k" | "k < h" using above(5) by (metis length_append_singleton linorder_neqE_nat)
    then show "?sib ! h = merkle_root compress h (take (2 ^ h) (drop (length ?xs div 2 ^ Suc h * 2 ^ Suc h) ?xs))"
    proof cases
      case 1
      then show ?thesis using h(1) sib above(2) \<open>2 ^ k \<le> Suc ?i\<close> by (simp add: sib_ok_def)
    next
      case 2
      have same: "Suc ?i div 2 ^ h = ?i div 2 ^ h" "Suc ?i div 2 ^ Suc h = ?i div 2 ^ Suc h"
        using above(1) 2 by (auto simp del: power_Suc)
      let ?s = "?i div 2 ^ Suc h * 2 ^ Suc h"
      have odd: "odd (?i div 2 ^ h)" using h(2) same by simp
      have "?i div 2 ^ h = 2 * (?i div 2 ^ Suc h) + 1"
        using odd_two_times_div_two_succ [OF odd] by (metis div_mult2_eq power_Suc2)
      then have "?s + 2 ^ h = ?i div 2 ^ h * 2 ^ h" by (simp add: algebra_simps)
      also have "\<dots> \<le> ?i" by simp
      finally have "take (2 ^ h) (drop ?s ?xs) = take (2 ^ h) (drop ?s xs)" by simp
      then show ?thesis
        using sib h(1) odd 2 same by (simp add: sib_ok_def del: power_Suc)
    qed
  qed
  then show ?thesis using push kD q by auto
qed

subsection \<open>Computing the root\<close>

lemma merkle_root_step:
  assumes chain: "zero_hash_chain compress" and h: "h \<le> 40" and i: "i < length xs" "length xs = Suc i"
  defines "seg \<equiv> \<lambda>h. drop (i div 2 ^ h * 2 ^ h) xs"
  shows "odd (i div 2 ^ h) \<Longrightarrow> merkle_root compress (Suc h) (seg (Suc h)) =
      hash_256_256 compress
        (merkle_root compress h (take (2 ^ h) (drop (i div 2 ^ Suc h * 2 ^ Suc h) xs)))
        (merkle_root compress h (seg h))"
    and "even (i div 2 ^ h) \<Longrightarrow> merkle_root compress (Suc h) (seg (Suc h)) =
      hash_256_256 compress (merkle_root compress h (seg h)) (ZERO_HASHES ! h)"
proof -
  have d: "i div 2 ^ Suc h = i div 2 ^ h div 2" by (metis div_mult2_eq power_Suc2)
  {
    assume "odd (i div 2 ^ h)"
    then have "i div 2 ^ h = 2 * (i div 2 ^ Suc h) + 1"
      unfolding d using odd_two_times_div_two_succ by simp
    then have s: "i div 2 ^ h * 2 ^ h = i div 2 ^ Suc h * 2 ^ Suc h + 2 ^ h" by (simp add: algebra_simps)
    have "drop (2 ^ h) (drop (i div 2 ^ Suc h * 2 ^ Suc h) xs) = seg h"
      unfolding seg_def s by (simp only: drop_drop add.commute)
    then show "merkle_root compress (Suc h) (seg (Suc h)) =
      hash_256_256 compress
        (merkle_root compress h (take (2 ^ h) (drop (i div 2 ^ Suc h * 2 ^ Suc h) xs)))
        (merkle_root compress h (seg h))"
      by (simp only: merkle_root.simps seg_def)
  }
  {
    assume "even (i div 2 ^ h)"
    then have "i div 2 ^ h = 2 * (i div 2 ^ Suc h)" unfolding d by simp
    then have s: "i div 2 ^ Suc h * 2 ^ Suc h = i div 2 ^ h * 2 ^ h" by (simp add: algebra_simps)
    have "i < (i div 2 ^ h + 1) * 2 ^ h" using dividend_less_div_times [of "2 ^ h" i] by simp
    then have "length (seg h) \<le> 2 ^ h" using i by (simp add: seg_def algebra_simps)
    moreover have "seg (Suc h) = seg h" by (simp only: seg_def s)
    ultimately show "merkle_root compress (Suc h) (seg (Suc h)) =
      hash_256_256 compress (merkle_root compress h (seg h)) (ZERO_HASHES ! h)"
      using merkle_root_lift [OF chain h] by simp
  }
qed

lemma push_and_compute_root_ok:
  assumes chain: "zero_hash_chain compress" and gb: "reads_bits gb"
    and sib: "sib_ok compress D sib xs" and D: "D \<le> 40" "length xs < 2 ^ D"
  shows "\<exists>sib'. push_and_compute_root compress gb D sib (length xs) chunk
      = Ok (sib', merkle_root compress D (xs @ [chunk])) \<and> sib_ok compress D sib' (xs @ [chunk])"
proof -
  let ?i = "length xs" and ?xs = "xs @ [chunk]"
  obtain sib' k hash q where push: "merkle_push compress D sib ?i chunk = Ok (sib', k, hash)"
    "sib_ok compress D sib' ?xs" "k \<le> D" "Suc ?i = 2 ^ k * (2 * q + 1)"
    "hash = merkle_root compress k (drop (Suc ?i - 2 ^ k) ?xs)" "\<forall>h. k < h \<longrightarrow> sib' ! h = sib ! h"
    using merkle_push_ok [OF sib _ D(2), of chunk] D(1) by fastforce
  have sibD: "length sib' = D" using push(2) by (simp add: sib_ok_def)
  let ?step = "\<lambda>height hash.
           if gb ?i height
           then and_then (nth_rs sib' height) (\<lambda>sibling.
                  Ok (hash_256_256 compress sibling hash))
           else and_then (zero_hash_at height) (\<lambda>zero.
                  Ok (hash_256_256 compress hash zero))"
  have "try_fold ?step [k..<h] hash = Ok (merkle_root compress h (drop (?i div 2 ^ h * 2 ^ h) ?xs))"
    if "k \<le> h" "h \<le> D" for h
    using that
  proof (induction h)
    case 0
    then show ?case using push(5) by simp
  next
    case (Suc h)
    show ?case
    proof (cases "k = Suc h")
      case True
      then show ?thesis using push(5) carry_above(4) [OF push(4)] by (simp del: power_Suc)
    next
      case False
      then have hk: "k \<le> h" "h < D" using Suc.prems by auto
      then have bit: "gb ?i h = odd (?i div 2 ^ h)" using gb D by (simp add: reads_bits_def)
      have h40: "h \<le> 40" using hk D by simp
      note step = merkle_root_step [OF chain h40, of ?i ?xs]
      have IH: "try_fold ?step [k..<h] hash = Ok (merkle_root compress h (drop (?i div 2 ^ h * 2 ^ h) ?xs))"
        using Suc hk by simp
      have sib_h: "sib' ! h = merkle_root compress h (take (2 ^ h) (drop (?i div 2 ^ Suc h * 2 ^ Suc h) ?xs))"
        if odd: "odd (?i div 2 ^ h)"
      proof -
        have "h \<noteq> k" using odd carry_above(3) [OF push(4)] by auto
        then have "k < h" using hk by simp
        then have "Suc ?i div 2 ^ h = ?i div 2 ^ h" "Suc ?i div 2 ^ Suc h = ?i div 2 ^ Suc h"
          using carry_above(1) [OF push(4)] by (auto simp del: power_Suc)
        then show ?thesis
          using push(2) hk odd by (simp add: sib_ok_def del: power_Suc)
      qed
      show ?thesis
      proof (cases "odd (?i div 2 ^ h)")
        case True
        then show ?thesis
          using step(1) IH bit sib_h sibD hk by (simp add: try_fold_append del: power_Suc)
      next
        case False
        then show ?thesis
          using step(2) IH bit hk h40 by (simp add: try_fold_append zero_hash_at_def del: power_Suc)
      qed
    qed
  qed
  from this [of D] show ?thesis
    using push(1,2,3) D(2) by (simp add: push_and_compute_root_def)
qed

lemma sib_ok_default: "sib_ok compress D (merkle_tree_default D) []"
  by (simp add: sib_ok_def merkle_tree_default_def)

lemma merkle_push_all:
  assumes D: "D < 64" "length xs \<le> 2 ^ D"
  shows "\<exists>tree. try_fold (\<lambda>(index, chunk) tree. map_ok fst (merkle_push compress D tree index chunk))
      (enumerate 0 xs) (merkle_tree_default D) = Ok tree \<and> sib_ok compress D tree xs"
  using D(2)
proof (induction xs rule: rev_induct)
  case Nil
  then show ?case by (simp add: sib_ok_default)
next
  case (snoc x xs)
  then obtain tree where tree: "try_fold (\<lambda>(index, chunk) tree. map_ok fst (merkle_push compress D tree index chunk))
      (enumerate 0 xs) (merkle_tree_default D) = Ok tree" "sib_ok compress D tree xs"
    by auto
  obtain tree' k hash where "merkle_push compress D tree (length xs) x = Ok (tree', k, hash)" "sib_ok compress D tree' (xs @ [x])"
    using merkle_push_ok [OF tree(2) D(1), of x] snoc.prems by auto
  then show ?case using tree by (simp add: enumerate_append_eq try_fold_append)
qed

text \<open>
  C14. Incremental Merkleization computes the Merkle root: for every depth up to 40 and every
  list of chunks that fits in the tree, \<open>merkleize_chunks\<close> returns without panicking the root of
  the tree of that depth over the chunks padded with zero chunks, and \<open>push\<close> and
  \<open>push_and_compute_root\<close> reach it while storing one hash per level.
\<close>

theorem merkleize_chunks_correct:
  assumes "zero_hash_chain compress" "reads_bits gb" "D \<le> 40" "length chunks \<le> 2 ^ D"
  shows "merkleize_chunks compress gb D chunks = Ok (merkle_root compress D chunks)"
proof (cases "chunks = []")
  case True
  then show ?thesis
    using merkle_root_Nil [OF assms(1,3)] assms(3) by (simp add: merkleize_chunks_def zero_hash_at_def)
next
  case False
  then have split: "chunks = butlast chunks @ [last chunks]" by simp
  then have len: "length (butlast chunks) < 2 ^ D" using assms(4) by (metis Suc_le_eq length_append_singleton)
  then obtain tree where "try_fold (\<lambda>(index, chunk) tree. map_ok fst (merkle_push compress D tree index chunk))
      (enumerate 0 (butlast chunks)) (merkle_tree_default D) = Ok tree" "sib_ok compress D tree (butlast chunks)"
    using merkle_push_all [of D "butlast chunks" compress] assms(3) by auto
  then show ?thesis
    using False push_and_compute_root_ok [OF assms(1,2) _ assms(3) len, of tree "last chunks"]
    by (auto simp: merkleize_chunks_def Let_def)
qed

subsection \<open>An instance of the chain\<close>

text \<open>
  A compression function that answers the queries of the table: for two equal chunks that are
  entry \<open>i\<close> of the table it returns the words of entry \<open>i + 1\<close>.
\<close>

definition compress_table :: compress256 where
  "compress_table s blocks =
     (case find (\<lambda>(ws, next). hd blocks = hex_block ws @ hex_block ws)
        (zip ZERO_HASH_WORDS (tl ZERO_HASH_WORDS)) of
        None \<Rightarrow> s | Some (ws, next) \<Rightarrow> next)"

lemma word_to_be_bytes_inj: "word_to_be_bytes v = word_to_be_bytes w \<longleftrightarrow> v = w"
proof
  assume eq: "word_to_be_bytes v = word_to_be_bytes w"
  have byte: "(of_nat a :: byte) = of_nat b \<longleftrightarrow> a mod 256 = b mod 256" for a b
    by (simp add: of_nat_eq_iff take_bit_eq_mod word_of_nat_eq_iff)
  have d: "unat x div 16777216 < 256" for x :: "32 word"
    using unsigned_less [of x, where ?'a = nat] by (simp add: less_mult_imp_div_less)
  have low: "(ucast v :: byte) = ucast w \<longleftrightarrow> unat v mod 256 = unat w mod 256"
    using byte [of "unat v" "unat w"] by simp
  have bytes: "unat v mod 256 = unat w mod 256" "unat v div 256 mod 256 = unat w div 256 mod 256"
    "unat v div 256 div 256 mod 256 = unat w div 256 div 256 mod 256"
    "unat v div 256 div 256 div 256 = unat w div 256 div 256 div 256"
    using eq d [of v] d [of w]
    by (simp_all add: word_to_be_bytes_def to_be_bytes_def to_le_bytes_def upt_rec byte low flip: div_mult2_eq)
  have "m = n" if "m div 256 = n div 256" "m mod 256 = n mod 256" for m n :: nat
    using that by (metis div_mult_mod_eq)
  then have "unat v = unat w" using bytes by blast
  then show "v = w" by (rule unsigned_word_eqI)
qed simp

lemma hd_hex_block: "ws \<noteq> [] \<Longrightarrow> take 4 (hex_block ws) = word_to_be_bytes (hd ws)"
  by (cases ws) (simp_all add: hex_block_def word_to_be_bytes_def)

lemma sha256_output_words: "length ws = 8 \<Longrightarrow> sha256_output ws = hex_block ws"
proof -
  assume len: "length ws = 8"
  have "map (\<lambda>(o4, s). word_to_be_bytes s) (zip (replicate 8 (replicate 4 (0::byte))) ws)
      = map word_to_be_bytes (map snd (zip (replicate 8 (replicate 4 (0::byte))) ws))"
    by (simp add: case_prod_beta comp_def)
  then show ?thesis using len by (simp add: sha256_output_def hex_block_def)
qed

lemma ZERO_HASH_WORDS_shape:
  "length ZERO_HASH_WORDS = 41" "list_all (\<lambda>ws. length ws = 8) ZERO_HASH_WORDS"
  "distinct (map hd ZERO_HASH_WORDS)"
  by (simp_all add: ZERO_HASH_WORDS_def)

lemma zero_hash_chain_compress_table: "zero_hash_chain compress_table"
  unfolding zero_hash_chain_def
proof (intro allI impI)
  fix i :: nat assume i: "i < 40"
  let ?W = ZERO_HASH_WORDS
  have len8: "length (?W ! k) = 8" if "k < 41" for k
    using ZERO_HASH_WORDS_shape(1,2) that by (simp add: list_all_length)
  have len: "length (hex_block (?W ! k)) = 32" if "k < 41" for k
    using len8 [OF that] by (simp add: hex_block_def word_to_be_bytes_def length_concat comp_def sum_list_triv)
  have inj: "hex_block (?W ! i) @ hex_block (?W ! i) = hex_block (?W ! k) @ hex_block (?W ! k) \<Longrightarrow> k = i"
    if k: "k < 40" for k
  proof -
    assume "hex_block (?W ! i) @ hex_block (?W ! i) = hex_block (?W ! k) @ hex_block (?W ! k)"
    then have "hex_block (?W ! i) = hex_block (?W ! k)" using len i k by simp
    then have "word_to_be_bytes (hd (?W ! i)) = word_to_be_bytes (hd (?W ! k))"
      using hd_hex_block [of "?W ! i"] hd_hex_block [of "?W ! k"] len8 [of i] len8 [of k] i k by fastforce
    then show "k = i"
      using ZERO_HASH_WORDS_shape(1) nth_eq_iff_index_eq [OF ZERO_HASH_WORDS_shape(3), of k i] i k
      by (simp add: word_to_be_bytes_inj)
  qed
  have find: "find (\<lambda>(ws, next). hex_block (?W ! i) @ hex_block (?W ! i) = hex_block ws @ hex_block ws)
        (zip ?W (tl ?W)) = Some (?W ! i, ?W ! Suc i)"
    unfolding find_Some_iff
  proof (intro exI [of _ i] conjI allI impI)
    fix k assume k: "k < i"
    then show "\<not> (case zip ?W (tl ?W) ! k of (ws, next) \<Rightarrow>
        hex_block (?W ! i) @ hex_block (?W ! i) = hex_block ws @ hex_block ws)"
      using i inj [of k] ZERO_HASH_WORDS_shape(1) by (simp add: nth_tl) blast
  qed (use i ZERO_HASH_WORDS_shape(1) in \<open>simp_all add: nth_tl\<close>)
  have "hash_256_256 compress_table (hex_block (?W ! i)) (hex_block (?W ! i)) = sha256_output (?W ! Suc i)"
    using len [of i] i find
    by (simp add: hash_256_256_def Let_def copy_from_slice_def compress_multiple_def compress_table_def)
  also have "\<dots> = hex_block (?W ! Suc i)"
    using len8 [of "Suc i"] i
    by (simp add: sha256_output_words)
  finally show "hash_256_256 compress_table (ZERO_HASHES ! i) (ZERO_HASHES ! i) = ZERO_HASHES ! Suc i"
    using i ZERO_HASH_WORDS_shape(1) by (simp add: ZERO_HASHES_def)
qed

definition get_bit_std :: bit_reader where
  "get_bit_std n i = odd (n div 2 ^ i)"

lemma reads_bits_std: "reads_bits get_bit_std"
  by (simp add: reads_bits_def get_bit_std_def)

lemma merkle_root_depth_2:
  "merkle_root compress 2 [a, b, c] = hash_256_256 compress (hash_256_256 compress a b)
     (hash_256_256 compress c (replicate 32 0))"
proof -
  have "merkle_root compress (Suc (Suc 0)) [a, b, c] = hash_256_256 compress (hash_256_256 compress a b)
     (hash_256_256 compress c (replicate 32 0))"
    by simp
  then show ?thesis by (simp only: numeral_2_eq_2)
qed

theorem merkleize_chunks_correct_witness:
  "zero_hash_chain compress_table \<and> reads_bits get_bit_std
    \<and> merkleize_chunks compress_table get_bit_std 2 [replicate 32 1, replicate 32 2, replicate 32 3]
      = Ok (hash_256_256 compress_table
          (hash_256_256 compress_table (replicate 32 1) (replicate 32 2))
          (hash_256_256 compress_table (replicate 32 3) (replicate 32 0)))"
  using merkleize_chunks_correct [OF zero_hash_chain_compress_table reads_bits_std,
      of 2 "[replicate 32 1, replicate 32 2, replicate 32 3]"]
    zero_hash_chain_compress_table reads_bits_std
  by (simp add: merkle_root_depth_2)

end
