(* ===== verification/Ssz_List.thy ===== *)
theory Ssz_List
  imports Arithmetic
begin

text \<open>
  The list interface of \<open>ssz/src/list.rs\<close> (\<open>SszList\<close>, \<open>SszListMut\<close>) and the indexing rules of
  \<open>ssz/src/shared.rs\<close>.  The state holds its collections behind this interface; the model of the
  state transition works on plain lists with the operations defined here, and
  \<open>Persistent_List\<close> shows that the tree the source stores behaves the same way.

  A method that returns a mutable reference into the collection is modelled by the function that
  the caller applies through the reference.  A \<open>u64\<close> index always fits in a 64-bit \<open>usize\<close>, so
  the conversion at the start of \<open>validate_index\<close> has no failing case.
\<close>

definition saturating_usize :: "nat \<Rightarrow> nat" where
  "saturating_usize N = (if N > u64_max then u64_max else N)"

definition validate_index :: "nat \<Rightarrow> nat \<Rightarrow> nat res" where
  "validate_index len index =
     (if len \<le> index then Err (Index (OutOfBounds len index)) else Ok index)"

subsection \<open>Lists\<close>

definition list_get :: "'a list \<Rightarrow> nat \<Rightarrow> 'a res" where
  "list_get xs index = and_then (validate_index (length xs) index) (\<lambda>i. Ok (xs ! i))"

definition list_modify :: "'a list \<Rightarrow> nat \<Rightarrow> ('a \<Rightarrow> 'a) \<Rightarrow> 'a list res" where
  "list_modify xs index f =
     and_then (validate_index (length xs) index) (\<lambda>i. Ok (xs[i := f (xs ! i)]))"

definition list_push :: "nat \<Rightarrow> 'a list \<Rightarrow> 'a \<Rightarrow> 'a list res" where
  "list_push N xs x =
     (if length xs < N then Ok (xs @ [x])
      else if length xs = N then Err (Push ListFull)
      else Panic)"

definition list_try_from_iter :: "nat \<Rightarrow> 'a list \<Rightarrow> 'a list res" where
  "list_try_from_iter N xs =
     (if length xs > saturating_usize N
      then Err (Read (ListTooLong (saturating_usize N) (length xs)))
      else Ok xs)"

subsection \<open>Vectors\<close>

text \<open>
  A \<open>PersistentVector\<close> holds exactly \<open>N\<close> elements; \<open>mod_index\<close> and \<open>mod_index_mut\<close> reduce the
  index modulo \<open>N\<close> and panic only if the vector does not have its size.
\<close>

definition mod_index :: "nat \<Rightarrow> 'a list \<Rightarrow> nat \<Rightarrow> 'a res" where
  "mod_index N xs index =
     (case list_get xs (index mod N) of Ok x \<Rightarrow> Ok x | _ \<Rightarrow> Panic)"

definition mod_index_mut :: "nat \<Rightarrow> 'a list \<Rightarrow> nat \<Rightarrow> ('a \<Rightarrow> 'a) \<Rightarrow> 'a list res" where
  "mod_index_mut N xs index f =
     (case list_modify xs (index mod N) f of Ok ys \<Rightarrow> Ok ys | _ \<Rightarrow> Panic)"

subsection \<open>Facts\<close>

lemma validate_index_Ok [res_simps]: "validate_index n i = Ok j \<longleftrightarrow> j = i \<and> i < n"
  by (auto simp: validate_index_def)

lemma list_get_Ok [res_simps]: "list_get xs i = Ok x \<longleftrightarrow> i < length xs \<and> x = xs ! i"
  by (auto simp: list_get_def res_simps)

lemma list_get_ok: "i < length xs \<Longrightarrow> list_get xs i = Ok (xs ! i)"
  by (simp add: res_simps)

lemma list_get_err: "length xs \<le> i \<Longrightarrow> list_get xs i = Err (Index (OutOfBounds (length xs) i))"
  by (simp add: list_get_def validate_index_def)

lemma list_modify_Ok [res_simps]:
  "list_modify xs i f = Ok ys \<longleftrightarrow> i < length xs \<and> ys = xs[i := f (xs ! i)]"
  by (auto simp: list_modify_def res_simps)

lemma list_modify_ok: "i < length xs \<Longrightarrow> list_modify xs i f = Ok (xs[i := f (xs ! i)])"
  by (simp add: res_simps)

lemma list_push_Ok [res_simps]: "list_push N xs x = Ok ys \<longleftrightarrow> length xs < N \<and> ys = xs @ [x]"
  by (auto simp: list_push_def)

lemma list_try_from_iter_Ok [res_simps]:
  "list_try_from_iter N xs = Ok ys \<longleftrightarrow> ys = xs \<and> length xs \<le> saturating_usize N"
  by (auto simp: list_try_from_iter_def)

lemma mod_index_Ok [res_simps]:
  "mod_index N xs i = Ok x \<longleftrightarrow> i mod N < length xs \<and> x = xs ! (i mod N)"
  by (auto simp: mod_index_def list_get_def validate_index_def)

lemma mod_index_mut_Ok [res_simps]:
  "mod_index_mut N xs i f = Ok ys \<longleftrightarrow>
     i mod N < length xs \<and> ys = xs[i mod N := f (xs ! (i mod N))]"
  by (auto simp: mod_index_mut_def list_modify_def validate_index_def)

subsection \<open>The interface\<close>

text \<open>The mutations a client of \<open>SszListMut\<close> can perform.\<close>

datatype 'a list_op = Modify nat "'a \<Rightarrow> 'a" | PushBack 'a | Update "'a \<Rightarrow> 'a"

fun list_apply :: "nat \<Rightarrow> 'a list_op \<Rightarrow> 'a list \<Rightarrow> 'a list res" where
  "list_apply N (Modify i f) xs = list_modify xs i f"
| "list_apply N (PushBack x) xs = list_push N xs x"
| "list_apply N (Update f) xs = Ok (map f xs)"

text \<open>
  An implementation of the interface: \<open>abs\<close> gives the list it stands for, \<open>inv\<close> is its
  representation invariant, and every operation agrees with the one on lists, error values
  included.
\<close>

locale ssz_list =
  fixes N :: nat
    and abs :: "'l \<Rightarrow> 'a list"
    and inv :: "'l \<Rightarrow> bool"
    and len :: "'l \<Rightarrow> nat"
    and get :: "'l \<Rightarrow> nat \<Rightarrow> 'a res"
    and modify :: "'l \<Rightarrow> nat \<Rightarrow> ('a \<Rightarrow> 'a) \<Rightarrow> 'l res"
    and push :: "'l \<Rightarrow> 'a \<Rightarrow> 'l res"
    and update :: "'l \<Rightarrow> ('a \<Rightarrow> 'a) \<Rightarrow> 'l res"
  assumes len_abs: "inv l \<Longrightarrow> len l = length (abs l)"
    and get_abs: "inv l \<Longrightarrow> get l i = list_get (abs l) i"
    and modify_abs: "inv l \<Longrightarrow> map_ok abs (modify l i f) = list_modify (abs l) i f"
    and modify_inv: "inv l \<Longrightarrow> modify l i f = Ok l' \<Longrightarrow> inv l'"
    and push_abs: "inv l \<Longrightarrow> map_ok abs (push l x) = list_push N (abs l) x"
    and push_inv: "inv l \<Longrightarrow> push l x = Ok l' \<Longrightarrow> inv l'"
    and update_abs: "inv l \<Longrightarrow> map_ok abs (update l f) = Ok (map f (abs l))"
    and update_inv: "inv l \<Longrightarrow> update l f = Ok l' \<Longrightarrow> inv l'"
begin

fun apply_op :: "'a list_op \<Rightarrow> 'l \<Rightarrow> 'l res" where
  "apply_op (Modify i f) l = modify l i f"
| "apply_op (PushBack x) l = push l x"
| "apply_op (Update f) l = update l f"

lemma apply_op_abs: "inv l \<Longrightarrow> map_ok abs (apply_op p l) = list_apply N p (abs l)"
  by (cases p) (simp_all add: modify_abs push_abs update_abs)

lemma apply_op_inv: "inv l \<Longrightarrow> apply_op p l = Ok l' \<Longrightarrow> inv l'"
  by (cases p) (auto intro: modify_inv push_inv update_inv)

lemma run_abs:
  "inv l \<Longrightarrow> map_ok abs (try_fold apply_op ps l) = try_fold (list_apply N) ps (abs l)"
proof (induction ps arbitrary: l)
  case Nil
  then show ?case by simp
next
  case (Cons p ps)
  have "list_apply N p (abs l) = map_ok abs (apply_op p l)"
    using Cons.prems by (simp add: apply_op_abs)
  then show ?case
    using Cons apply_op_inv [OF Cons.prems] by (cases "apply_op p l") auto
qed

lemma run_inv: "inv l \<Longrightarrow> try_fold apply_op ps l = Ok l' \<Longrightarrow> inv l'"
  by (induction ps arbitrary: l) (auto simp: res_simps intro: apply_op_inv)

end

interpretation plain_list: ssz_list N "\<lambda>xs. xs" "\<lambda>_. True" length list_get list_modify
  "list_push N" "\<lambda>xs f. Ok (map f xs)" for N
  by unfold_locales (auto simp: map_ok_id)

end
