(* ===== verification/Persistent_List.thy ===== *)
theory Persistent_List
  imports Ssz_List
begin

text \<open>
  \<open>PersistentList\<close> (\<open>ssz/src/persistent_list.rs\<close>) and the bundle arithmetic of
  \<open>ssz/src/bundle_size.rs\<close>.  A list is a binary tree whose leaves hold bundles of up to
  \<open>2 ^ b\<close> elements; every left subtree is full, and each internal node stores the heights of its
  children.  Reference counting and copy on write do not affect values and are not modelled; the
  cached hash of a node (\<open>Hc\<close>) is left out.

  \<open>bf\<close> stands for the crate \<open>bit_field\<close>, which the code uses to take indices apart.
  \<open>bit_field_spec\<close> states its documented behaviour.  Heights are \<open>u8\<close> values and saturate at 255.
\<close>

record bit_field =
  bf_get_bit :: "nat \<Rightarrow> nat \<Rightarrow> bool"
  bf_get_bits :: "nat \<Rightarrow> nat \<Rightarrow> nat \<Rightarrow> nat"

definition bit_field_spec :: "bit_field \<Rightarrow> bool" where
  "bit_field_spec bf \<longleftrightarrow>
     (\<forall>n i. i < 64 \<longrightarrow> bf_get_bit bf n i = odd (n div 2 ^ i)) \<and>
     (\<forall>n lo hi. lo < hi \<longrightarrow> hi \<le> 64 \<longrightarrow> bf_get_bits bf n lo hi = n div 2 ^ lo mod 2 ^ (hi - lo))"

definition bit_field_std :: bit_field where
  "bit_field_std =
     \<lparr> bf_get_bit = (\<lambda>n i. odd (n div 2 ^ i)),
       bf_get_bits = (\<lambda>n lo hi. n div 2 ^ lo mod 2 ^ (hi - lo)) \<rparr>"

definition is_power_of_two :: "nat \<Rightarrow> bool" where
  "is_power_of_two n = (n \<noteq> 0 \<and> next_power_of_two n = n)"

definition height_add :: "nat \<Rightarrow> nat \<Rightarrow> nat" where
  "height_add h k = min (h + k) 255"

subsection \<open>Bundles\<close>

definition depth_of_length :: "nat \<Rightarrow> nat \<Rightarrow> nat res" where
  "depth_of_length b len = map_ok (\<lambda>l. saturating_sub l b) (usize_ilog2_ceil len)"

definition index_of_bundle :: "bit_field \<Rightarrow> nat \<Rightarrow> nat \<Rightarrow> nat" where
  "index_of_bundle bf b index = bf_get_bits bf index b 64"

definition index_in_bundle :: "bit_field \<Rightarrow> nat \<Rightarrow> nat \<Rightarrow> nat" where
  "index_in_bundle bf b index = (if b = 0 then 0 else bf_get_bits bf index 0 b)"

subsection \<open>Nodes\<close>

text \<open>\<open>Internal left right left_height right_height\<close> and \<open>Leaf bundle\<close>.\<close>

datatype 'a node =
    Internal "'a node" "'a node" nat nat
  | Leaf "'a list"

definition node_leaf :: "nat \<Rightarrow> 'a list \<Rightarrow> 'a node res" where
  "node_leaf b bs = and_then (assert_rs (length bs \<le> 2 ^ b)) (\<lambda>_. Ok (Leaf bs))"

definition arc_single :: "nat \<Rightarrow> 'a \<Rightarrow> 'a node res" where
  "arc_single b x = node_leaf b [x]"

fun node_height :: "'a node \<Rightarrow> nat" where
  "node_height (Internal l r lh rh) = height_add lh 1"
| "node_height (Leaf bs) = 0"

text \<open>The first loop of \<open>Node::build\<close>: one leaf per bundle taken from the iterator.\<close>

function build_leaves :: "nat \<Rightarrow> nat \<Rightarrow> nat \<Rightarrow> 'a list \<Rightarrow> (('a node \<times> nat) list \<times> nat) res" where
  "build_leaves b capacity count elements =
     (if count < capacity then
        let bs = take (2 ^ b) elements in
        if bs = [] then Ok ([], count)
        else
          let exhausted = length bs < 2 ^ b;
              count = saturating_add count (length bs)
          in and_then (node_leaf b bs) (\<lambda>leaf.
             if exhausted then Ok ([(leaf, 0)], count)
             else and_then (build_leaves b capacity count (drop (2 ^ b) elements)) (\<lambda>(nodes, count).
                  Ok ((leaf, 0) # nodes, count)))
      else Ok ([], count))"
  by pat_completeness auto
termination
  by (relation "measure (\<lambda>(b, capacity, count, elements). length elements)") auto

declare build_leaves.simps [simp del]

text \<open>One pass of the second loop pairs neighbours; an odd node at the end moves up unchanged.\<close>

fun build_level :: "('a node \<times> nat) list \<Rightarrow> ('a node \<times> nat) list" where
  "build_level ((l, lh) # (r, rh) # rest) = (Internal l r lh rh, height_add lh 1) # build_level rest"
| "build_level [n] = [n]"
| "build_level [] = []"

lemma length_build_level: "length (build_level ns) = (length ns + 1) div 2"
  by (induction ns rule: build_level.induct) auto

function build_levels :: "('a node \<times> nat) list \<Rightarrow> ('a node \<times> nat) list" where
  "build_levels ns = (if length ns > 1 then build_levels (build_level ns) else ns)"
  by pat_completeness auto
termination
  by (relation "measure length") (auto simp: length_build_level)

declare build_levels.simps [simp del]

definition node_build :: "nat \<Rightarrow> 'a list \<Rightarrow> nat \<Rightarrow> ('a node \<times> nat) option res" where
  "node_build b elements capacity =
     and_then (build_leaves b capacity 0 elements) (\<lambda>(ns, count).
       let ns = build_levels ns
       in Ok (if ns = [] then None else Some (fst (last ns), count)))"

fun node_get_from :: "bit_field \<Rightarrow> nat \<Rightarrow> nat \<Rightarrow> 'a node \<Rightarrow> nat \<Rightarrow> 'a res" where
  "node_get_from bf b height (Internal l r lh rh) index =
     and_then (assert_rs (height = height_add lh 1)) (\<lambda>_.
       if bf_get_bit bf index (saturating_sub (height_add height b) 1)
       then node_get_from bf b rh r index
       else node_get_from bf b lh l index)"
| "node_get_from bf b height (Leaf bs) index =
     and_then (assert_rs (height = 0)) (\<lambda>_.
       let i = index_in_bundle bf b index
       in if i < length bs then Ok (bs ! i) else Panic)"

definition node_get :: "bit_field \<Rightarrow> nat \<Rightarrow> 'a node \<Rightarrow> nat \<Rightarrow> 'a res" where
  "node_get bf b node index = node_get_from bf b (node_height node) node index"

fun node_modify_from ::
  "bit_field \<Rightarrow> nat \<Rightarrow> nat \<Rightarrow> 'a node \<Rightarrow> nat \<Rightarrow> ('a \<Rightarrow> 'a) \<Rightarrow> 'a node res" where
  "node_modify_from bf b height (Internal l r lh rh) index f =
     and_then (assert_rs (height = height_add lh 1)) (\<lambda>_.
       if bf_get_bit bf index (saturating_sub (height_add height b) 1)
       then map_ok (\<lambda>r. Internal l r lh rh) (node_modify_from bf b rh r index f)
       else map_ok (\<lambda>l. Internal l r lh rh) (node_modify_from bf b lh l index f))"
| "node_modify_from bf b height (Leaf bs) index f =
     and_then (assert_rs (height = 0)) (\<lambda>_.
       let i = index_in_bundle bf b index
       in if i < length bs then Ok (Leaf (bs[i := f (bs ! i)])) else Panic)"

definition node_get_mut :: "bit_field \<Rightarrow> nat \<Rightarrow> 'a node \<Rightarrow> nat \<Rightarrow> ('a \<Rightarrow> 'a) \<Rightarrow> 'a node res" where
  "node_get_mut bf b node index f = node_modify_from bf b (node_height node) node index f"

fun node_prune :: "nat \<Rightarrow> 'a node \<Rightarrow> nat \<Rightarrow> 'a node res" where
  "node_prune b (Internal l r lh rh) len =
     and_then (depth_of_length b len) (\<lambda>depth.
       if depth \<le> lh then node_prune b l len
       else
         let left_length = next_power_of_two len div 2;
             right_length = saturating_sub len left_length
         in and_then (assert_rs (0 < right_length)) (\<lambda>_.
            if left_length = right_length then Ok (Internal l r lh rh)
            else and_then (depth_of_length b right_length) (\<lambda>rh'.
                 map_ok (\<lambda>r. Internal l r lh rh') (node_prune b r right_length))))"
| "node_prune b (Leaf bs) len =
     and_then (assert_rs (len \<le> 2 ^ b)) (\<lambda>_. Ok (Leaf (take len bs)))"

definition pushing_increases_height :: "bit_field \<Rightarrow> nat \<Rightarrow> nat \<Rightarrow> bool" where
  "pushing_increases_height bf b index =
     (is_power_of_two (index_of_bundle bf b index) \<and> index_in_bundle bf b index = 0)"

fun node_push :: "bit_field \<Rightarrow> nat \<Rightarrow> 'a node \<Rightarrow> 'a \<Rightarrow> nat \<Rightarrow> 'a node res" where
  "node_push bf b (Internal l r lh rh) x index =
     (if pushing_increases_height bf b index then
        and_then (assert_rs (lh = rh)) (\<lambda>_.
        and_then (arc_single b x) (\<lambda>single.
          Ok (Internal (Internal l r lh rh) single (height_add lh 1) 0)))
      else
        and_then (assert_rs (lh < 64)) (\<lambda>_.
        let left_length = 2 ^ b * 2 ^ lh mod u64_bound in
        and_then (assert_rs (left_length < index)) (\<lambda>_.
        let right_length = saturating_sub index left_length in
        and_then (assert_rs (right_length < left_length)) (\<lambda>_.
        and_then (node_push bf b r x right_length) (\<lambda>r.
        let rh = (if pushing_increases_height bf b right_length then height_add rh 1 else rh) in
        and_then (assert_rs (rh \<le> lh)) (\<lambda>_.
          Ok (Internal l r lh rh)))))))"
| "node_push bf b (Leaf bs) x index =
     (if length bs = 2 ^ b then
        and_then (node_leaf b bs) (\<lambda>leaf.
        and_then (arc_single b x) (\<lambda>single.
          Ok (Internal leaf single 0 0)))
      else node_leaf b (bs @ [x]))"

text \<open>
  \<open>update\<close> rebuilds only the subtrees in which the updater changed an element; it visits the
  elements from left to right and threads the updater's own state \<open>s\<close>.
\<close>

fun update_bundle :: "('s \<Rightarrow> 'a \<Rightarrow> 's \<times> 'a) \<Rightarrow> 's \<Rightarrow> 'a list \<Rightarrow> 's \<times> 'a list" where
  "update_bundle f s [] = (s, [])"
| "update_bundle f s (x # xs) =
     (let (s, y) = f s x; (s, ys) = update_bundle f s xs in (s, y # ys))"

fun node_update :: "('s \<Rightarrow> 'a \<Rightarrow> 's \<times> 'a) \<Rightarrow> 's \<Rightarrow> 'a node \<Rightarrow> 's \<times> 'a node option" where
  "node_update f s (Internal l r lh rh) =
     (let (s, new_left) = node_update f s l;
          (s, new_right) = node_update f s r
      in case (new_left, new_right) of
           (Some l', Some r') \<Rightarrow> (s, Some (Internal l' r' lh rh))
         | (Some l', None) \<Rightarrow> (s, Some (Internal l' r lh rh))
         | (None, Some r') \<Rightarrow> (s, Some (Internal l r' lh rh))
         | (None, None) \<Rightarrow> (s, None))"
| "node_update f s (Leaf bs) =
     (let (s, bs') = update_bundle f s bs
      in (s, if bs \<noteq> bs' then Some (Leaf bs') else None))"

text \<open>
  The iterator over the bundles keeps a stack of nodes.  \<open>next\<close> pops one and walks down its left
  spine, pushing the right children.
\<close>

fun leaves_descend :: "'a node \<Rightarrow> 'a node list \<Rightarrow> 'a list \<times> 'a node list" where
  "leaves_descend (Internal l r lh rh) stack = leaves_descend l (r # stack)"
| "leaves_descend (Leaf bs) stack = (bs, stack)"

fun leaves_next :: "'a node list \<Rightarrow> ('a list \<times> 'a node list) option" where
  "leaves_next [] = None"
| "leaves_next (node # stack) = Some (leaves_descend node stack)"

lemma leaves_descend_size:
  "leaves_descend node stack = (bs, stack') \<Longrightarrow>
     sum_list (map size stack') < size node + sum_list (map size stack)"
  by (induction node stack arbitrary: bs stack' rule: leaves_descend.induct) fastforce+

function leaves_flatten :: "'a node list \<Rightarrow> 'a list" where
  "leaves_flatten stack =
     (case leaves_next stack of None \<Rightarrow> [] | Some (bs, stack') \<Rightarrow> bs @ leaves_flatten stack')"
  by pat_completeness auto
termination
  by (relation "measure (\<lambda>stack. sum_list (map size stack))")
    (auto elim!: leaves_next.elims intro: leaves_descend_size [OF sym])

declare leaves_flatten.simps [simp del]

subsection \<open>Lists\<close>

record 'a persistent_list =
  pl_root :: "'a node option"
  pl_length :: nat

definition pl_default :: "'a persistent_list" where
  "pl_default = \<lparr> pl_root = None, pl_length = 0 \<rparr>"

definition validate_length :: "nat \<Rightarrow> nat \<Rightarrow> unit res" where
  "validate_length N actual =
     (if actual > saturating_usize N then Err (Read (ListTooLong (saturating_usize N) actual))
      else Ok ())"

definition pl_try_from_iter :: "nat \<Rightarrow> nat \<Rightarrow> 'a list \<Rightarrow> 'a persistent_list res" where
  "pl_try_from_iter b N elements =
     and_then (node_build b elements u64_max) (\<lambda>built.
       case built of
         None \<Rightarrow> Ok pl_default
       | Some (node, len) \<Rightarrow>
           and_then (validate_length N len) (\<lambda>_.
           and_then (depth_of_length b len) (\<lambda>depth.
           and_then (assert_rs (node_height node = depth)) (\<lambda>_.
             Ok \<lparr> pl_root = Some node, pl_length = len \<rparr>))))"

fun perfect_tree :: "'a node \<Rightarrow> nat \<Rightarrow> 'a node" where
  "perfect_tree leaf 0 = leaf"
| "perfect_tree leaf (Suc h) = Internal (perfect_tree leaf h) (perfect_tree leaf h) h h"

definition pl_repeat_zero :: "nat \<Rightarrow> nat \<Rightarrow> 'a \<Rightarrow> nat \<Rightarrow> 'a persistent_list res" where
  "pl_repeat_zero b N zero len =
     and_then (validate_length N len) (\<lambda>_.
       if len = 0 then Ok pl_default
       else
         and_then (node_leaf b (replicate (2 ^ b) zero)) (\<lambda>leaf.
         and_then (depth_of_length b len) (\<lambda>depth.
         and_then (assert_rs (0 < len)) (\<lambda>_.
         and_then (node_prune b (perfect_tree leaf depth) len) (\<lambda>node.
           Ok \<lparr> pl_root = Some node, pl_length = len \<rparr>)))))"

definition pl_len :: "'a persistent_list \<Rightarrow> nat" where
  "pl_len l = pl_length l"

definition pl_get :: "bit_field \<Rightarrow> nat \<Rightarrow> 'a persistent_list \<Rightarrow> nat \<Rightarrow> 'a res" where
  "pl_get bf b l index =
     and_then (validate_index (pl_length l) index) (\<lambda>index.
     and_then (expect (pl_root l)) (\<lambda>node.
       node_get bf b node index))"

definition pl_get_mut ::
  "bit_field \<Rightarrow> nat \<Rightarrow> 'a persistent_list \<Rightarrow> nat \<Rightarrow> ('a \<Rightarrow> 'a) \<Rightarrow> 'a persistent_list res" where
  "pl_get_mut bf b l index f =
     and_then (validate_index (pl_length l) index) (\<lambda>index.
     and_then (expect (pl_root l)) (\<lambda>node.
     and_then (node_get_mut bf b node index f) (\<lambda>node.
       Ok (l\<lparr>pl_root := Some node\<rparr>))))"

definition pl_push ::
  "bit_field \<Rightarrow> nat \<Rightarrow> nat \<Rightarrow> 'a persistent_list \<Rightarrow> 'a \<Rightarrow> 'a persistent_list res" where
  "pl_push bf b N l x =
     (if pl_length l < N then
        and_then
          (case pl_root l of
             Some node \<Rightarrow> node_push bf b node x (pl_length l)
           | None \<Rightarrow> arc_single b x) (\<lambda>node.
          Ok \<lparr> pl_root = Some node, pl_length = saturating_add (pl_length l) 1 \<rparr>)
      else if pl_length l = N then Err (Push ListFull)
      else Panic)"

definition pl_update ::
  "('s \<Rightarrow> 'a \<Rightarrow> 's \<times> 'a) \<Rightarrow> 's \<Rightarrow> 'a persistent_list \<Rightarrow> 's \<times> 'a persistent_list" where
  "pl_update f s l =
     (case pl_root l of
        None \<Rightarrow> (s, l)
      | Some node \<Rightarrow>
          (case node_update f s node of
             (s, None) \<Rightarrow> (s, l)
           | (s, Some node) \<Rightarrow> (s, l\<lparr>pl_root := Some node\<rparr>)))"

definition pl_into_iter :: "'a persistent_list \<Rightarrow> 'a list" where
  "pl_into_iter l =
     leaves_flatten (case pl_root l of None \<Rightarrow> [] | Some node \<Rightarrow> [node])"

subsection \<open>Well-formed trees\<close>

text \<open>The elements from left to right, and the shape every operation keeps.\<close>

fun elems :: "'a node \<Rightarrow> 'a list" where
  "elems (Internal l r lh rh) = elems l @ elems r"
| "elems (Leaf bs) = bs"

fun node_wf :: "nat \<Rightarrow> 'a node \<Rightarrow> bool" where
  "node_wf b (Internal l r lh rh) \<longleftrightarrow>
     node_wf b l \<and> node_wf b r \<and> lh = node_height l \<and> rh = node_height r \<and> rh \<le> lh
     \<and> length (elems l) = 2 ^ (b + lh) \<and> b + lh < 64"
| "node_wf b (Leaf bs) \<longleftrightarrow> bs \<noteq> [] \<and> length bs \<le> 2 ^ b"

lemma height_add_exact: "h + k \<le> 255 \<Longrightarrow> height_add h k = h + k"
  by (simp add: height_add_def)

lemma node_wf_height: "b < 64 \<Longrightarrow> node_wf b n \<Longrightarrow> b + node_height n \<le> 64"
  by (cases n) (auto simp: height_add_exact)

lemma node_height_Internal: "b + lh < 64 \<Longrightarrow> node_height (Internal l r lh rh) = Suc lh"
  by (simp add: height_add_exact)

lemma node_wf_bounds:
  "node_wf b n \<Longrightarrow> elems n \<noteq> [] \<and> length (elems n) \<le> 2 ^ (b + node_height n)
    \<and> (0 < node_height n \<longrightarrow> 2 ^ (b + node_height n - 1) < length (elems n))"
proof (induction b n rule: node_wf.induct)
  case (1 b l r lh rh)
  have "length (elems r) \<le> 2 ^ (b + rh)" using 1 by simp
  also have "(2::nat) ^ (b + rh) \<le> 2 ^ (b + lh)" using 1 by (intro power_increasing) simp_all
  finally have "length (elems r) \<le> 2 ^ (b + lh)" .
  moreover have "elems r \<noteq> []" using 1 by simp
  ultimately show ?case using 1 by (simp add: height_add_exact)
qed simp

lemmas node_wf_ne = node_wf_bounds [THEN conjunct1]
lemmas node_wf_le = node_wf_bounds [THEN conjunct2, THEN conjunct1]

lemma leaves_descend_elems:
  "leaves_descend node stack = (bs, stack') \<Longrightarrow>
     bs @ concat (map elems stack') = elems node @ concat (map elems stack)"
  by (induction node stack arbitrary: bs stack' rule: leaves_descend.induct) fastforce+

lemma leaves_flatten_elems: "leaves_flatten stack = concat (map elems stack)"
proof (induction stack rule: leaves_flatten.induct)
  case (1 stack)
  show ?case
  proof (cases stack)
    case Nil
    then show ?thesis by (simp add: leaves_flatten.simps)
  next
    case (Cons node rest)
    obtain bs stack' where d: "leaves_descend node rest = (bs, stack')" by force
    then have "leaves_flatten stack' = concat (map elems stack')" using 1 Cons by auto
    then show ?thesis
      using leaves_descend_elems [OF d] d Cons by (subst leaves_flatten.simps) simp
  qed
qed

subsection \<open>Lookup and modification\<close>

lemma mod_power_le: "m \<le> n \<Longrightarrow> j mod 2 ^ n mod 2 ^ m = (j mod 2 ^ m :: nat)"
  by (simp add: le_imp_power_dvd mod_mod_cancel)

lemma mod_power_Suc:
  fixes j :: nat
  shows "j mod 2 ^ Suc n = (if odd (j div 2 ^ n) then 2 ^ n else 0) + j mod 2 ^ n"
  using mod_mult2_eq [of j "2 ^ n" 2] by (auto simp: mult.commute odd_iff_mod_2_eq_one)

lemma index_in_bundle_eq:
  "bit_field_spec bf \<Longrightarrow> b < 64 \<Longrightarrow> index_in_bundle bf b i = i mod 2 ^ b"
  by (auto simp: index_in_bundle_def bit_field_spec_def)

lemma index_of_bundle_eq:
  assumes "bit_field_spec bf" "b < 64" "i < u64_bound"
  shows "index_of_bundle bf b i = i div 2 ^ b"
proof -
  have "(2::nat) ^ 64 = 2 ^ b * 2 ^ (64 - b)" using assms(2) by (simp flip: power_add)
  then have "i div 2 ^ b < 2 ^ (64 - b)"
    using assms(3) by (simp add: u64_bound_power less_mult_imp_div_less mult.commute)
  then show ?thesis using assms by (simp add: index_of_bundle_def bit_field_spec_def)
qed

text \<open>Which child an index falls into, and where.\<close>

lemma child_index:
  assumes "node_wf b (Internal l r lh rh)" "j mod 2 ^ (b + Suc lh) < length (elems l @ elems r)"
  shows "odd (j div 2 ^ (b + lh)) \<Longrightarrow> j mod 2 ^ (b + rh) < length (elems r)
      \<and> j mod 2 ^ (b + Suc lh) = 2 ^ (b + lh) + j mod 2 ^ (b + rh)"
    and "even (j div 2 ^ (b + lh)) \<Longrightarrow> j mod 2 ^ (b + lh) < length (elems l)
      \<and> j mod 2 ^ (b + Suc lh) = j mod 2 ^ (b + lh)"
proof -
  have split: "j mod 2 ^ (b + Suc lh) = (if odd (j div 2 ^ (b + lh)) then 2 ^ (b + lh) else 0) + j mod 2 ^ (b + lh)"
    using mod_power_Suc [of j "b + lh"] by simp
  have len: "length (elems l) = 2 ^ (b + lh)" using assms by simp
  show "odd (j div 2 ^ (b + lh)) \<Longrightarrow> j mod 2 ^ (b + rh) < length (elems r)
      \<and> j mod 2 ^ (b + Suc lh) = 2 ^ (b + lh) + j mod 2 ^ (b + rh)"
  proof -
    assume "odd (j div 2 ^ (b + lh))"
    then have lt: "j mod 2 ^ (b + lh) < length (elems r)" using split assms(2) len by simp
    moreover have "length (elems r) \<le> 2 ^ (b + rh)" using node_wf_le [of b r] assms(1) by simp
    ultimately have "j mod 2 ^ (b + lh) mod 2 ^ (b + rh) = j mod 2 ^ (b + lh)" by simp
    moreover have "j mod 2 ^ (b + lh) mod 2 ^ (b + rh) = j mod 2 ^ (b + rh)"
      using assms(1) by (intro mod_power_le) simp
    ultimately show ?thesis using lt split \<open>odd _\<close> by simp
  qed
  show "even (j div 2 ^ (b + lh)) \<Longrightarrow> j mod 2 ^ (b + lh) < length (elems l)
      \<and> j mod 2 ^ (b + Suc lh) = j mod 2 ^ (b + lh)"
    using split len by simp
qed

lemma get_bit_child:
  assumes "bit_field_spec bf" "b + lh < 64"
  shows "bf_get_bit bf j (saturating_sub (height_add (Suc lh) b) 1) = odd (j div 2 ^ (b + lh))"
  using assms by (simp add: bit_field_spec_def height_add_exact saturating_sub_def add.commute)

lemma node_get_from_elems:
  assumes "bit_field_spec bf" "b < 64" "node_wf b n" "j mod 2 ^ (b + node_height n) < length (elems n)"
  shows "node_get_from bf b (node_height n) n j = Ok (elems n ! (j mod 2 ^ (b + node_height n)))"
  using assms(3,4)
proof (induction n)
  case (Internal l r lh rh)
  have lt: "b + lh < 64" using Internal.prems by simp
  then have h: "node_height (Internal l r lh rh) = Suc lh" by (rule node_height_Internal)
  note child = child_index [OF Internal.prems(1), of j]
  have idx: "j mod 2 ^ (b + Suc lh) < length (elems l @ elems r)"
    using Internal.prems h by simp
  show ?case
  proof (cases "odd (j div 2 ^ (b + lh))")
    case True
    then show ?thesis
      using child(1) [OF idx] Internal get_bit_child [OF assms(1) lt] h
      by (simp add: assert_rs_def nth_append height_add_exact)
  next
    case False
    then show ?thesis
      using child(2) [OF idx] Internal get_bit_child [OF assms(1) lt] h
      by (simp add: assert_rs_def nth_append height_add_exact)
  qed
next
  case (Leaf bs)
  then show ?case using assms(1,2) by (simp add: assert_rs_def index_in_bundle_eq)
qed

lemma node_modify_from_height:
  "node_modify_from bf b h n j f = Ok n' \<Longrightarrow> node_height n' = node_height n"
  by (cases n) (auto simp: res_simps Let_def split: if_splits)

lemma node_modify_from_elems:
  assumes "bit_field_spec bf" "b < 64" "node_wf b n" "j mod 2 ^ (b + node_height n) < length (elems n)"
  shows "\<exists>n'. node_modify_from bf b (node_height n) n j f = Ok n' \<and> node_wf b n'
    \<and> elems n' = (elems n)[j mod 2 ^ (b + node_height n) := f (elems n ! (j mod 2 ^ (b + node_height n)))]"
  using assms(3,4)
proof (induction n)
  case (Internal l r lh rh)
  have lt: "b + lh < 64" using Internal.prems by simp
  then have h: "node_height (Internal l r lh rh) = Suc lh" by (rule node_height_Internal)
  have ch: "lh = node_height l" "rh = node_height r" using Internal.prems by auto
  have idx: "j mod 2 ^ (b + Suc lh) < length (elems l @ elems r)"
    using Internal.prems h by simp
  have wf: "node_wf b l" "node_wf b r" using Internal.prems by auto
  have ha: "height_add lh 1 = Suc lh" using h by simp
  show ?case
  proof (cases "odd (j div 2 ^ (b + lh))")
    case True
    note child = child_index(1) [OF Internal.prems(1) idx True]
    then obtain r' where r': "node_modify_from bf b rh r j f = Ok r'" "node_wf b r'"
      "elems r' = (elems r)[j mod 2 ^ (b + rh) := f (elems r ! (j mod 2 ^ (b + rh)))]"
      using Internal.IH(2) wf ch by blast
    have "node_height r' = rh" using node_modify_from_height [OF r'(1)] ch by simp
    then show ?thesis
      using True child Internal.prems r' h ha get_bit_child [OF assms(1) lt]
      by (simp add: assert_rs_def list_update_append nth_append)
  next
    case False
    note child = child_index(2) [OF Internal.prems(1) idx] False
    then obtain l' where l': "node_modify_from bf b lh l j f = Ok l'" "node_wf b l'"
      "elems l' = (elems l)[j mod 2 ^ (b + lh) := f (elems l ! (j mod 2 ^ (b + lh)))]"
      using Internal.IH(1) wf ch by blast
    have "node_height l' = lh" using node_modify_from_height [OF l'(1)] ch by simp
    then show ?thesis
      using False child Internal.prems l' h ha get_bit_child [OF assms(1) lt]
      by (simp add: assert_rs_def list_update_append nth_append)
  qed
next
  case (Leaf bs)
  then show ?case using assms(1,2) by (simp add: assert_rs_def index_in_bundle_eq Let_def)
qed

subsection \<open>Appending\<close>

lemma is_power_of_two_iff: "is_power_of_two n \<longleftrightarrow> (\<exists>k. n = 2 ^ k)"
proof
  assume "is_power_of_two n"
  then show "\<exists>k. n = 2 ^ k" using next_power_of_two_eq [of n] by (auto simp: is_power_of_two_def)
next
  assume "\<exists>k. n = 2 ^ k"
  then obtain k where k: "n = 2 ^ k" ..
  then have "next_power_of_two n \<le> n" by (simp add: next_power_of_two_least)
  then show "is_power_of_two n"
    using next_power_of_two_ge [of n] k by (simp add: is_power_of_two_def)
qed

lemma pushing_increases_height_iff:
  assumes "bit_field_spec bf" "b < 64" "i < u64_bound"
  shows "pushing_increases_height bf b i \<longleftrightarrow> (\<exists>k. i = 2 ^ (b + k))"
proof
  assume "pushing_increases_height bf b i"
  then obtain k where "i div 2 ^ b = 2 ^ k" "i mod 2 ^ b = 0"
    using assms by (auto simp: pushing_increases_height_def index_of_bundle_eq index_in_bundle_eq
        is_power_of_two_iff)
  then show "\<exists>k. i = 2 ^ (b + k)"
    by (metis add.right_neutral mult_div_mod_eq power_add)
next
  assume "\<exists>k. i = 2 ^ (b + k)"
  then show "pushing_increases_height bf b i"
    using assms by (auto simp: pushing_increases_height_def index_of_bundle_eq index_in_bundle_eq
        is_power_of_two_iff power_add)
qed

lemma power_between:
  assumes "(2::nat) ^ m < 2 ^ k" "(2::nat) ^ k \<le> 2 ^ Suc m"
  shows "k = Suc m"
proof -
  have "m < k" using assms(1) by (simp add: power_strict_increasing_iff)
  moreover have "k \<le> Suc m" using assms(2) by (metis one_less_numeral_iff power_increasing_iff semiring_norm(76))
  ultimately show ?thesis by simp
qed

lemma node_push_elems:
  assumes "bit_field_spec bf" "b < 64" "node_wf b n" "length (elems n) < u64_bound"
  shows "\<exists>n'. node_push bf b n x (length (elems n)) = Ok n' \<and> node_wf b n' \<and> elems n' = elems n @ [x]
    \<and> node_height n' = (if \<exists>k. length (elems n) = 2 ^ (b + k) then Suc (node_height n) else node_height n)"
  using assms(3,4)
proof (induction n)
  case (Internal l r lh rh)
  let ?n = "length (elems (Internal l r lh rh))" and ?m = "length (elems r)"
  have lt: "b + lh < 64" and wf: "node_wf b l" "node_wf b r"
    and ch: "lh = node_height l" "rh = node_height r" "rh \<le> lh" and len: "length (elems l) = 2 ^ (b + lh)"
    using Internal.prems by auto
  have h: "node_height (Internal l r lh rh) = Suc lh" using lt by (rule node_height_Internal)
  have n: "?n = 2 ^ (b + lh) + ?m" using len by simp
  have m: "0 < ?m" "?m \<le> 2 ^ (b + lh)"
    using node_wf_bounds [OF Internal.prems(1)] h node_wf_ne [OF wf(2)] n by auto
  have inc: "pushing_increases_height bf b ?n \<longleftrightarrow> (\<exists>k. ?n = 2 ^ (b + k))"
    using pushing_increases_height_iff [OF assms(1,2) Internal.prems(2)] .
  have full: "(\<exists>k. ?n = 2 ^ (b + k)) \<longleftrightarrow> ?m = 2 ^ (b + lh)"
  proof
    assume "\<exists>k. ?n = 2 ^ (b + k)"
    then obtain k where k: "?n = 2 ^ (b + k)" ..
    then have "b + k = Suc (b + lh)" using n m by (intro power_between) auto
    then show "?m = 2 ^ (b + lh)" using k n by simp
  next
    assume "?m = 2 ^ (b + lh)"
    then have "?n = 2 ^ (b + Suc lh)" using n by simp
    then show "\<exists>k. ?n = 2 ^ (b + k)" by blast
  qed
  show ?case
  proof (cases "?m = 2 ^ (b + lh)")
    case True
    then have "(2::nat) ^ (b + lh) \<le> 2 ^ (b + rh)" using node_wf_le [OF wf(2)] ch by simp
    then have "lh = rh" using ch(3) by (simp add: power_increasing_iff)
    moreover have "(2::nat) ^ (Suc (b + lh)) < 2 ^ 64"
      using Internal.prems(2) n True by (simp add: u64_bound_power)
    then have "Suc (b + lh) < 64" by (simp only: power_strict_increasing_iff)
    ultimately show ?thesis
      using True inc full wf ch len h
      by (simp add: assert_rs_def arc_single_def node_leaf_def height_add_exact)
  next
    case False
    have "(2::nat) ^ (b + lh) < 2 ^ 64" using lt by (simp only: power_strict_increasing_iff)
    then have left: "2 ^ b * 2 ^ lh mod u64_bound = (2 ^ (b + lh) :: nat)"
      by (simp add: u64_bound_def flip: power_add)
    obtain r' where r': "node_push bf b r x ?m = Ok r'" "node_wf b r'" "elems r' = elems r @ [x]"
      "node_height r' = (if \<exists>k. ?m = 2 ^ (b + k) then Suc rh else rh)"
      using Internal.IH(2) wf Internal.prems(2) n ch by auto
    have inc_r: "pushing_increases_height bf b ?m \<longleftrightarrow> (\<exists>k. ?m = 2 ^ (b + k))"
      using pushing_increases_height_iff [OF assms(1,2)] Internal.prems(2) n by simp
    have "node_height r' \<le> lh"
    proof (cases "node_height r'")
      case (Suc k)
      then have "2 ^ (b + k) < Suc ?m" using node_wf_bounds [OF r'(2)] r'(3) by simp
      also have "Suc ?m \<le> 2 ^ (b + lh)" using m False by simp
      finally show ?thesis using Suc by (simp add: power_strict_increasing_iff)
    qed simp
    then show ?thesis
      using False inc full inc_r r' m n lt wf ch len h left
      by (cases "\<exists>k. ?m = 2 ^ (b + k)")
        (simp_all add: assert_rs_def saturating_sub_def Let_def height_add_exact)
  qed
next
  case (Leaf bs)
  show ?case
  proof (cases "length bs = 2 ^ b")
    case True
    then have "\<exists>k. length (elems (Leaf bs)) = 2 ^ (b + k)" by (metis add.right_neutral elems.simps(2))
    then show ?thesis
      using True Leaf assms(2) by (simp add: assert_rs_def arc_single_def node_leaf_def height_add_exact)
  next
    case False
    have "\<not> (\<exists>k. length bs = 2 ^ (b + k))"
    proof
      assume "\<exists>k. length bs = 2 ^ (b + k)"
      then obtain k where "length bs = 2 ^ (b + k)" ..
      moreover have "(2::nat) ^ b \<le> 2 ^ (b + k)" by simp
      ultimately show False using False Leaf.prems by simp
    qed
    then show ?thesis
      using False Leaf by (simp add: assert_rs_def node_leaf_def)
  qed
qed

subsection \<open>Height and length\<close>

lemma node_wf_depth:
  assumes "b < 64" "node_wf b n" "length (elems n) < u64_bound"
  shows "depth_of_length b (length (elems n)) = Ok (node_height n)"
proof -
  let ?n = "length (elems n)"
  have max: "?n \<le> u64_max" using assms(3) by (simp add: u64_bound_def)
  note bounds = node_wf_bounds [OF assms(2)]
  show ?thesis
  proof (cases "node_height n")
    case 0
    obtain k where k: "(next_power_of_two ?n) = 2 ^ k" using next_power_of_two_eq by blast
    have "next_power_of_two ?n \<le> 2 ^ b" using bounds 0 by (simp add: next_power_of_two_least)
    then have "k \<le> b" using k by (simp add: power_le_imp_le_exp)
    then show ?thesis
      using 0 ilog2_ceil_power [OF max k]
      by (simp add: depth_of_length_def usize_ilog2_ceil_eq saturating_sub_def)
  next
    case (Suc k)
    have "Suc (b + k) \<le> j" if "?n \<le> 2 ^ j" for j
    proof -
      have "(2::nat) ^ (b + k) < ?n" using bounds Suc by simp
      then have "(2::nat) ^ (b + k) < 2 ^ j" using that by (rule less_le_trans)
      then show ?thesis by (simp add: power_strict_increasing_iff Suc_leI)
    qed
    then have "ilog2_ceil ?n = Ok (Suc (b + k))"
      using bounds Suc by (intro ilog2_ceil_unique [OF max]) auto
    then show ?thesis
      using Suc by (simp add: depth_of_length_def usize_ilog2_ceil_eq saturating_sub_def)
  qed
qed

subsection \<open>Bulk update\<close>

lemma update_bundle_length: "update_bundle f s xs = (s', ys) \<Longrightarrow> length ys = length xs"
  by (induction f s xs arbitrary: s' ys rule: update_bundle.induct) (auto split: prod.splits)

lemma update_bundle_append:
  "update_bundle f s (xs @ ys) =
     (let (s, xs') = update_bundle f s xs; (s, ys') = update_bundle f s ys in (s, xs' @ ys'))"
  by (induction f s xs rule: update_bundle.induct) (auto split: prod.splits)

lemma node_update_elems:
  assumes "node_update f s n = (s', n')" "node_wf b n"
  shows "update_bundle f s (elems n) = (s', elems (case n' of None \<Rightarrow> n | Some m \<Rightarrow> m))
    \<and> node_wf b (case n' of None \<Rightarrow> n | Some m \<Rightarrow> m)
    \<and> node_height (case n' of None \<Rightarrow> n | Some m \<Rightarrow> m) = node_height n"
  using assms
proof (induction f s n arbitrary: s' n' rule: node_update.induct)
  case (1 f s l r lh rh)
  obtain s1 l' where l': "node_update f s l = (s1, l')" by force
  obtain s2 r' where r': "node_update f s1 r = (s2, r')" by force
  let ?l = "case l' of None \<Rightarrow> l | Some m \<Rightarrow> m" and ?r = "case r' of None \<Rightarrow> r | Some m \<Rightarrow> m"
  have L: "update_bundle f s (elems l) = (s1, elems ?l)" "node_wf b ?l" "node_height ?l = node_height l"
    using "1.IH"(1) [OF l'] 1(4) by auto
  have R: "update_bundle f s1 (elems r) = (s2, elems ?r)" "node_wf b ?r" "node_height ?r = node_height r"
    using "1.IH"(2) [OF l'[symmetric] refl r'] 1(4) by auto
  have res: "s' = s2" "(case n' of None \<Rightarrow> Internal l r lh rh | Some m \<Rightarrow> m) = Internal ?l ?r lh rh"
    using 1(3) l' r' by (auto split: option.splits)
  have "length (elems ?l) = length (elems l)" using update_bundle_length [OF L(1)] .
  then show ?case
    unfolding res using L R 1(4) by (simp add: update_bundle_append)
next
  case (2 f s bs)
  obtain s1 bs' where "update_bundle f s bs = (s1, bs')" by force
  then show ?case
    using 2 update_bundle_length [of f s bs s1 bs'] by (auto split: if_splits)
qed

lemma update_bundle_map: "update_bundle (\<lambda>s x. ((), g x)) () xs = ((), map g xs)"
  by (induction xs) auto

subsection \<open>Construction\<close>

fun level_ok :: "nat \<Rightarrow> nat \<Rightarrow> ('a node \<times> nat) list \<Rightarrow> bool" where
  "level_ok b h [] = True"
| "level_ok b h [(n, k)] = (node_wf b n \<and> k = node_height n \<and> k \<le> h)"
| "level_ok b h ((n, k) # ns) =
     (node_wf b n \<and> k = node_height n \<and> k = h \<and> length (elems n) = 2 ^ (b + h) \<and> level_ok b h ns)"

abbreviation level_elems :: "('a node \<times> nat) list \<Rightarrow> 'a list" where
  "level_elems ns \<equiv> concat (map (\<lambda>a. elems (fst a)) ns)"

lemma level_ok_Cons:
  "level_ok b h ((n, k) # ns) \<longleftrightarrow> node_wf b n \<and> k = node_height n \<and> k \<le> h
     \<and> (ns \<noteq> [] \<longrightarrow> k = h \<and> length (elems n) = 2 ^ (b + h) \<and> level_ok b h ns)"
  by (cases ns) auto

lemma build_level_ok:
  "level_ok b h ns \<Longrightarrow> length (level_elems ns) < u64_bound \<Longrightarrow>
     level_ok b (Suc h) (build_level ns) \<and> level_elems (build_level ns) = level_elems ns"
proof (induction ns rule: build_level.induct)
  case (1 l lh r rh rest)
  have l: "node_wf b l" "lh = h" "node_height l = h" "length (elems l) = 2 ^ (b + h)"
    and r: "node_wf b r" "rh = node_height r" "rh \<le> h"
    and rest: "rest \<noteq> [] \<Longrightarrow> rh = h \<and> length (elems r) = 2 ^ (b + h) \<and> level_ok b h rest"
    using 1(2) by (auto simp: level_ok_Cons)
  have "(2::nat) ^ (b + h) < 2 ^ 64" using 1(3) l(4) by (simp add: u64_bound_power)
  then have lt: "b + h < 64" by (simp only: power_strict_increasing_iff)
  have wf: "node_wf b (Internal l r lh rh)" using l r lt by simp
  have h: "node_height (Internal l r lh rh) = Suc h" using l lt by (simp add: height_add_exact)
  have "level_ok b (Suc h) (build_level rest) \<and> level_elems (build_level rest) = level_elems rest"
    using 1(1,3) rest by (cases "rest = []") auto
  moreover have "build_level rest \<noteq> [] \<Longrightarrow> rest \<noteq> []" by auto
  ultimately show ?case
    using wf h l rest lt by (auto simp: level_ok_Cons height_add_exact)
qed (auto simp: le_SucI)

lemma build_levels_ok:
  "level_ok b h ns \<Longrightarrow> length (level_elems ns) < u64_bound \<Longrightarrow>
     (if ns = [] then build_levels ns = []
      else \<exists>n k. build_levels ns = [(n, k)] \<and> node_wf b n \<and> elems n = level_elems ns)"
proof (induction ns arbitrary: h rule: build_levels.induct)
  case (1 ns)
  show ?case
  proof (cases "length ns > 1")
    case True
    then have "build_level ns \<noteq> []" using length_build_level [of ns] by auto
    then show ?thesis
      using 1 True build_level_ok [OF 1(2,3)] by (subst (1 2) build_levels.simps) fastforce
  next
    case False
    then have "ns = [] \<or> (\<exists>n k. ns = [(n, k)])"
      by (cases ns) auto
    then show ?thesis using 1(2) by (subst (1 2) build_levels.simps) auto
  qed
qed

lemma build_leaves_ok:
  "b < 64 \<Longrightarrow> count + length elements \<le> u64_max \<Longrightarrow>
     \<exists>ns. build_leaves b u64_max count elements = Ok (ns, count + length elements)
       \<and> level_ok b 0 ns \<and> level_elems ns = elements \<and> (elements = [] \<longleftrightarrow> ns = [])"
proof (induction b "u64_max" count elements rule: build_leaves.induct)
  case (1 b count elements)
  let ?bs = "take (2 ^ b) elements"
  show ?case
  proof (cases "elements = []")
    case True
    then show ?thesis by (subst build_leaves.simps) simp
  next
    case False
    then have c: "count < u64_max" "?bs \<noteq> []" using 1(3) by (cases elements; simp)+
    have sat: "saturating_add count (length ?bs) = count + length ?bs"
      using 1(3) by (intro saturating_add_exact) (auto simp: u64_bound_def)
    have leaf: "node_leaf b ?bs = Ok (Leaf ?bs)" by (simp add: node_leaf_def assert_rs_def)
    show ?thesis
    proof (cases "length ?bs < 2 ^ b")
      case True
      then show ?thesis
        using c sat leaf by (subst build_leaves.simps) (auto simp: Let_def)
    next
      case full: False
      then have len: "length ?bs = 2 ^ b" "2 ^ b \<le> length elements" by auto
      have "count + length ?bs + length (drop (2 ^ b) elements) = count + length elements" using len by simp
      then obtain ns where ns: "build_leaves b u64_max (count + length ?bs) (drop (2 ^ b) elements) = Ok (ns, count + length elements)"
        "level_ok b 0 ns" "level_elems ns = drop (2 ^ b) elements"
        using 1(1) [OF c(1) refl c(2) refl sat [symmetric] leaf] full 1(2,3) sat by fastforce
      then show ?thesis
        using c sat leaf full len by (subst build_leaves.simps) (auto simp: Let_def level_ok_Cons)
    qed
  qed
qed

lemma node_build_ok:
  assumes "b < 64" "length xs \<le> u64_max"
  shows "(if xs = [] then node_build b xs u64_max = Ok None
    else \<exists>n. node_build b xs u64_max = Ok (Some (n, length xs)) \<and> node_wf b n \<and> elems n = xs)"
proof -
  obtain ns where ns: "build_leaves b u64_max 0 xs = Ok (ns, length xs)" "level_ok b 0 ns"
    "level_elems ns = xs" "xs = [] \<longleftrightarrow> ns = []"
    using build_leaves_ok [of b 0 xs] assms by auto
  moreover have "length (level_elems ns) < u64_bound"
    using ns(3) assms(2) by (simp add: u64_bound_def)
  ultimately show ?thesis
    using build_levels_ok [OF ns(2)] by (cases "xs = []") (auto simp: node_build_def Let_def)
qed

subsection \<open>Pruning\<close>

lemma perfect_tree_wf:
  assumes "length bs = 2 ^ b" "b + h \<le> 64"
  shows "node_wf b (perfect_tree (Leaf bs) h) \<and> node_height (perfect_tree (Leaf bs) h) = h
    \<and> length (elems (perfect_tree (Leaf bs) h)) = 2 ^ (b + h)"
  using assms(2)
proof (induction h)
  case 0
  then show ?case using assms(1) by auto
next
  case (Suc h)
  then show ?case by (simp add: height_add_exact)
qed

lemma elems_perfect_replicate:
  "elems (perfect_tree (Leaf (replicate (2 ^ b) x)) h) = replicate (2 ^ (b + h)) x"
  by (induction h) (simp_all add: mult_2 replicate_add)

lemma depth_le_iff:
  assumes "len \<le> u64_max" "depth_of_length b len = Ok d"
  shows "d \<le> h \<longleftrightarrow> len \<le> 2 ^ (b + h)"
proof -
  obtain k where k: "next_power_of_two len = 2 ^ k" using next_power_of_two_eq by blast
  have d: "d = k - b"
    using assms ilog2_ceil_power [OF assms(1) k]
    by (simp add: depth_of_length_def usize_ilog2_ceil_eq saturating_sub_def)
  have "len \<le> 2 ^ (b + h) \<longleftrightarrow> k \<le> b + h"
  proof
    assume "len \<le> 2 ^ (b + h)"
    then show "k \<le> b + h"
      using next_power_of_two_least [of len "b + h"] k by (simp add: power_le_imp_le_exp)
  next
    assume "k \<le> b + h"
    then have "(2::nat) ^ k \<le> 2 ^ (b + h)" by (simp add: power_increasing)
    then show "len \<le> 2 ^ (b + h)" using next_power_of_two_ge [of len] k by (metis le_trans)
  qed
  then show ?thesis using d by auto
qed

lemma depth_of_length_total:
  assumes "len \<le> u64_max"
  shows "\<exists>d. depth_of_length b len = Ok d"
proof -
  obtain k where "next_power_of_two len = 2 ^ k" using next_power_of_two_eq by blast
  then show ?thesis
    using ilog2_ceil_power [OF assms] by (simp add: depth_of_length_def usize_ilog2_ceil_eq)
qed

lemma next_power_of_two_between:
  assumes "2 ^ k < n" "n \<le> 2 ^ Suc k"
  shows "next_power_of_two n = 2 ^ Suc k"
proof -
  obtain j where j: "next_power_of_two n = 2 ^ j" using next_power_of_two_eq by blast
  have "(2::nat) ^ k < 2 ^ j" using assms(1) next_power_of_two_ge [of n] j by (metis less_le_trans)
  moreover have "(2::nat) ^ j \<le> 2 ^ Suc k" using next_power_of_two_least [OF assms(2)] j by simp
  ultimately have "j = Suc k" by (rule power_between)
  then show ?thesis using j by simp
qed

lemma node_prune_elems:
  assumes "b < 64" "node_wf b n" "length (elems n) = 2 ^ (b + node_height n)"
    and "0 < len" "len \<le> length (elems n)" "len \<le> u64_max"
  shows "\<exists>n'. node_prune b n len = Ok n' \<and> node_wf b n' \<and> elems n' = take len (elems n)"
  using assms(2-6)
proof (induction n arbitrary: len)
  case (Internal l r lh rh)
  have lt: "b + lh < 64" and wf: "node_wf b l" "node_wf b r"
    and ch: "lh = node_height l" "rh = node_height r" "rh \<le> lh" and len_l: "length (elems l) = 2 ^ (b + lh)"
    using Internal.prems by auto
  have h: "node_height (Internal l r lh rh) = Suc lh" using lt by (rule node_height_Internal)
  have len_r: "length (elems r) = 2 ^ (b + lh)" using Internal.prems(2) h len_l by simp
  then have "(2::nat) ^ (b + lh) \<le> 2 ^ (b + rh)" using node_wf_le [OF wf(2)] ch by simp
  then have eq: "rh = lh" using ch(3) by (simp add: power_increasing_iff)
  obtain d where d: "depth_of_length b len = Ok d" using depth_of_length_total Internal.prems by blast
  show ?case
  proof (cases "d \<le> lh")
    case True
    then have le: "len \<le> 2 ^ (b + lh)" using depth_le_iff [OF _ d] Internal.prems by simp
    then have "\<exists>n'. node_prune b l len = Ok n' \<and> node_wf b n' \<and> elems n' = take len (elems l)"
      using Internal.IH(1) [of len] wf ch len_l Internal.prems by simp
    then show ?thesis using True d le len_l by simp
  next
    case False
    then have gt: "2 ^ (b + lh) < len" using depth_le_iff [OF _ d] Internal.prems by auto
    have le: "len \<le> 2 ^ Suc (b + lh)" using Internal.prems h by simp
    let ?m = "len - 2 ^ (b + lh)"
    have half: "next_power_of_two len div 2 = 2 ^ (b + lh)"
      using next_power_of_two_between [OF gt le] by simp
    have m: "0 < ?m" "?m \<le> length (elems r)" "?m \<le> u64_max"
      using gt le len_r Internal.prems by auto
    obtain r' where r': "node_prune b r ?m = Ok r'" "node_wf b r'" "elems r' = take ?m (elems r)"
      using Internal.IH(2) [of ?m] wf ch eq len_r m by auto
    have "length (elems r') = ?m" using r' m by simp
    then have dr: "depth_of_length b ?m = Ok (node_height r')"
      using node_wf_depth [OF assms(1) r'(2)] m by (simp add: u64_bound_def)
    have "node_height r' \<le> lh" using depth_le_iff [OF m(3) dr] m len_r by simp
    then show ?thesis
      using False d half m r' dr gt le len_l len_r wf ch lt eq Internal.prems(1)
      by (auto simp: assert_rs_def saturating_sub_def Let_def)
  qed
next
  case (Leaf bs)
  then show ?case by (auto simp: assert_rs_def)
qed


subsection \<open>Persistent lists behave as lists\<close>

definition pl_abs :: "'a persistent_list \<Rightarrow> 'a list" where
  "pl_abs l = (case pl_root l of None \<Rightarrow> [] | Some n \<Rightarrow> elems n)"

definition pl_inv :: "nat \<Rightarrow> nat \<Rightarrow> 'a persistent_list \<Rightarrow> bool" where
  "pl_inv b N l \<longleftrightarrow> pl_length l = length (pl_abs l) \<and> pl_length l \<le> N
     \<and> (case pl_root l of None \<Rightarrow> True | Some n \<Rightarrow> node_wf b n)"

lemma pl_default_inv [simp]: "pl_inv b N pl_default" "pl_abs pl_default = []"
  by (simp_all add: pl_inv_def pl_default_def pl_abs_def)

lemma pl_into_iter_abs: "pl_into_iter l = pl_abs l"
  by (simp add: pl_into_iter_def leaves_flatten_elems pl_abs_def split: option.splits)

lemma pl_get_abs:
  assumes "bit_field_spec bf" "b < 64" "pl_inv b N l"
  shows "pl_get bf b l i = list_get (pl_abs l) i"
proof (cases "i < pl_length l")
  case True
  then obtain n where n: "pl_root l = Some n" "node_wf b n" "pl_abs l = elems n" "i < length (elems n)"
    using assms(3) by (cases "pl_root l") (auto simp: pl_inv_def pl_abs_def)
  then have "i mod 2 ^ (b + node_height n) = i" using node_wf_le [OF n(2)] by simp
  then have "node_get bf b n i = Ok (elems n ! i)"
    using node_get_from_elems [OF assms(1,2) n(2), of i] n(4) by (simp add: node_get_def)
  then show ?thesis
    using True n by (simp add: pl_get_def validate_index_def expect_def list_get_def)
next
  case False
  then show ?thesis
    using assms(3) by (simp add: pl_get_def list_get_def validate_index_def pl_inv_def)
qed

lemma pl_get_mut_abs:
  assumes "bit_field_spec bf" "b < 64" "pl_inv b N l"
  shows "map_ok pl_abs (pl_get_mut bf b l i f) = list_modify (pl_abs l) i f
    \<and> (\<forall>l'. pl_get_mut bf b l i f = Ok l' \<longrightarrow> pl_inv b N l')"
proof (cases "i < pl_length l")
  case True
  then obtain n where n: "pl_root l = Some n" "node_wf b n" "pl_abs l = elems n" "i < length (elems n)"
    using assms(3) by (cases "pl_root l") (auto simp: pl_inv_def pl_abs_def)
  then have "i mod 2 ^ (b + node_height n) = i" using node_wf_le [OF n(2)] by simp
  then obtain n' where "node_get_mut bf b n i f = Ok n'" "node_wf b n'" "elems n' = (elems n)[i := f (elems n ! i)]"
    using node_modify_from_elems [OF assms(1,2) n(2), of i f] n(4) by (auto simp: node_get_mut_def)
  then show ?thesis
    using True n assms(3)
    by (simp add: pl_get_mut_def validate_index_def expect_def list_modify_def pl_inv_def pl_abs_def)
next
  case False
  then show ?thesis
    using assms(3) by (simp add: pl_get_mut_def list_modify_def validate_index_def pl_inv_def)
qed

lemma pl_push_abs:
  assumes "bit_field_spec bf" "b < 64" "N \<le> u64_max" "pl_inv b N l"
  shows "map_ok pl_abs (pl_push bf b N l x) = list_push N (pl_abs l) x
    \<and> (\<forall>l'. pl_push bf b N l x = Ok l' \<longrightarrow> pl_inv b N l')"
proof (cases "pl_length l < N")
  case True
  have len: "pl_length l = length (pl_abs l)" using assms(4) by (simp add: pl_inv_def)
  have sat: "saturating_add (pl_length l) 1 = Suc (pl_length l)"
    using True assms(3) by (simp add: saturating_add_exact u64_bound_def)
  have "\<exists>n'. (case pl_root l of Some node \<Rightarrow> node_push bf b node x (pl_length l) | None \<Rightarrow> arc_single b x) = Ok n'
      \<and> node_wf b n' \<and> elems n' = pl_abs l @ [x]"
  proof (cases "pl_root l")
    case None
    then show ?thesis by (simp add: arc_single_def node_leaf_def assert_rs_def pl_abs_def)
  next
    case (Some n)
    then have n: "node_wf b n" "pl_abs l = elems n" "pl_length l = length (elems n)"
      using assms(4) by (auto simp: pl_inv_def pl_abs_def)
    moreover have "length (elems n) < u64_bound" using n True assms(3) by (simp add: u64_bound_def)
    ultimately show ?thesis
      using node_push_elems [OF assms(1,2) n(1)] Some by auto
  qed
  then show ?thesis
    using True len sat by (auto simp: pl_push_def list_push_def pl_inv_def pl_abs_def)
next
  case False
  then show ?thesis using assms(4) by (auto simp: pl_push_def list_push_def pl_inv_def)
qed

lemma pl_update_abs:
  assumes "pl_inv b N l" "pl_update f s l = (s', l')"
  shows "update_bundle f s (pl_abs l) = (s', pl_abs l') \<and> pl_inv b N l'"
proof (cases "pl_root l")
  case None
  then show ?thesis using assms by (simp add: pl_update_def pl_abs_def)
next
  case (Some n)
  obtain s1 n' where u: "node_update f s n = (s1, n')" by force
  have wf: "node_wf b n" using assms Some by (simp add: pl_inv_def)
  show ?thesis
    using node_update_elems [OF u wf] u Some assms update_bundle_length
    by (cases n') (fastforce simp: pl_update_def pl_abs_def pl_inv_def)+
qed

text \<open>The interface for updaters without a state of their own.\<close>

definition pl_update_pure :: "'a persistent_list \<Rightarrow> ('a \<Rightarrow> 'a) \<Rightarrow> 'a persistent_list res" where
  "pl_update_pure l f = Ok (snd (pl_update (\<lambda>s x. (s, f x)) () l))"

lemma pl_update_pure_abs:
  assumes "pl_inv b N l"
  shows "map_ok pl_abs (pl_update_pure l f) = Ok (map f (pl_abs l))"
    and "pl_update_pure l f = Ok l' \<Longrightarrow> pl_inv b N l'"
proof -
  obtain l'' where "pl_update (\<lambda>s x. (s, f x)) () l = ((), l'')"
    by (cases "pl_update (\<lambda>s x. (s, f x)) () l") auto
  then show "map_ok pl_abs (pl_update_pure l f) = Ok (map f (pl_abs l))"
    "pl_update_pure l f = Ok l' \<Longrightarrow> pl_inv b N l'"
    using pl_update_abs [OF assms, of "\<lambda>s x. (s, f x)" "()"]
    by (auto simp: pl_update_pure_def update_bundle_map)
qed

lemma pl_is_ssz_list:
  assumes "bit_field_spec bf" "b < 64" "N \<le> u64_max"
  shows "ssz_list N pl_abs (pl_inv b N) pl_len (pl_get bf b) (pl_get_mut bf b) (pl_push bf b N)
    pl_update_pure"
proof
  fix l :: "'a persistent_list" and l' i f x
  assume inv: "pl_inv b N l"
  show "pl_len l = length (pl_abs l)" using inv by (simp add: pl_len_def pl_inv_def)
  show "pl_get bf b l i = list_get (pl_abs l) i" using pl_get_abs [OF assms(1,2) inv] .
  show "map_ok pl_abs (pl_get_mut bf b l i f) = list_modify (pl_abs l) i f"
    and "pl_get_mut bf b l i f = Ok l' \<Longrightarrow> pl_inv b N l'"
    using pl_get_mut_abs [OF assms(1,2) inv] by auto
  show "map_ok pl_abs (pl_push bf b N l x) = list_push N (pl_abs l) x"
    and "pl_push bf b N l x = Ok l' \<Longrightarrow> pl_inv b N l'"
    using pl_push_abs [OF assms inv] by auto
  show "map_ok pl_abs (pl_update_pure l f) = Ok (map f (pl_abs l))"
    and "pl_update_pure l f = Ok l' \<Longrightarrow> pl_inv b N l'"
    using pl_update_pure_abs [OF inv] by auto
qed

text \<open>
  The parameters of a list type: a bundle size and a limit.  Every choice gives an
  implementation of the list interface, for instance the balances of the mainnet state.
\<close>

locale persistent_params =
  fixes bf :: bit_field and b N :: nat
  assumes bits: "bit_field_spec bf" and bundle_exponent: "b < 64" and limit: "N \<le> u64_max"

sublocale persistent_params \<subseteq> tree: ssz_list N pl_abs "pl_inv b N" pl_len "pl_get bf b"
  "pl_get_mut bf b" "pl_push bf b N" pl_update_pure
  by (rule pl_is_ssz_list [OF bits bundle_exponent limit])

lemma bit_field_std_spec: "bit_field_spec bit_field_std"
  by (simp add: bit_field_spec_def bit_field_std_def)

interpretation balances_list: persistent_params bit_field_std 2 1099511627776
  by unfold_locales (simp_all add: bit_field_std_spec)

fun pl_apply ::
  "bit_field \<Rightarrow> nat \<Rightarrow> nat \<Rightarrow> 'a list_op \<Rightarrow> 'a persistent_list \<Rightarrow> 'a persistent_list res" where
  "pl_apply bf b N (Modify i f) l = pl_get_mut bf b l i f"
| "pl_apply bf b N (PushBack x) l = pl_push bf b N l x"
| "pl_apply bf b N (Update f) l = pl_update_pure l f"

lemma pl_apply_op:
  assumes "bit_field_spec bf" "b < 64" "N \<le> u64_max"
  shows "ssz_list.apply_op (pl_get_mut bf b) (pl_push bf b N) pl_update_pure = pl_apply bf b N"
proof (rule ext)+
  fix p :: "'a list_op" and l
  show "ssz_list.apply_op (pl_get_mut bf b) (pl_push bf b N) pl_update_pure p l = pl_apply bf b N p l"
    by (cases p) (simp_all add: ssz_list.apply_op.simps [OF pl_is_ssz_list [OF assms]])
qed

text \<open>
  C8. A persistent list is indistinguishable from a plain list: for any sequence of
  modifications, appends and bulk updates starting from the empty list, the tree fails exactly
  where the list operations fail, with the same error, and otherwise holds the same elements;
  looking up any index of the result, in or out of bounds, returns what the list returns, and
  iterating over the tree with the stack of nodes yields the list.
\<close>

theorem persistent_list_refines_list:
  assumes "bit_field_spec bf" "b < 64" "N \<le> u64_max"
  shows "map_ok (\<lambda>l. (pl_into_iter l, pl_len l, pl_get bf b l))
      (try_fold (pl_apply bf b N) ps pl_default) =
    map_ok (\<lambda>xs. (xs, length xs, list_get xs)) (try_fold (list_apply N) ps [])"
proof -
  note l = pl_is_ssz_list [OF assms]
  have abs: "map_ok pl_abs (try_fold (pl_apply bf b N) ps pl_default) = try_fold (list_apply N) ps []"
    using ssz_list.run_abs [OF l, of pl_default ps] by (simp add: pl_apply_op [OF assms])
  show ?thesis
  proof (cases "try_fold (pl_apply bf b N) ps pl_default")
    case (Ok t)
    then have "pl_inv b N t"
      using ssz_list.run_inv [OF l, of pl_default ps t] by (simp add: pl_apply_op [OF assms])
    moreover have "try_fold (list_apply N) ps [] = Ok (pl_abs t)" using abs Ok by simp
    ultimately show ?thesis
      using Ok pl_get_abs [OF assms(1,2), of N t]
      by (auto simp: pl_into_iter_abs pl_len_def pl_inv_def fun_eq_iff)
  qed (simp_all flip: abs)
qed

theorem persistent_list_refines_list_witness:
  "map_ok (\<lambda>l. (pl_into_iter l, pl_len l, pl_get bit_field_std 1 l))
      (try_fold (pl_apply bit_field_std 1 100) (map PushBack [10, 20, 30 :: nat]) pl_default) =
    map_ok (\<lambda>xs. (xs, length xs, list_get xs))
      (try_fold (list_apply 100) (map PushBack [10, 20, 30]) [])"
  by (rule persistent_list_refines_list) (simp_all add: bit_field_std_spec)

text \<open>
  C23. Building a persistent list from an iterator of at most \<open>2 ^ 64 - 1\<close> elements succeeds
  exactly when the limit allows the length, and the result holds the elements in order; a list
  that is too long is reported with its length and the maximum.
\<close>

theorem persistent_list_try_from_iter:
  assumes "b < 64" "length xs \<le> u64_max" "N \<le> u64_max"
  shows "map_ok pl_into_iter (pl_try_from_iter b N xs) = list_try_from_iter N xs"
proof (cases "xs = []")
  case True
  then show ?thesis
    using node_build_ok [OF assms(1,2)]
    by (simp add: pl_try_from_iter_def pl_into_iter_abs list_try_from_iter_def)
next
  case False
  then obtain n where n: "node_build b xs u64_max = Ok (Some (n, length xs))" "node_wf b n" "elems n = xs"
    using node_build_ok [OF assms(1,2)] by auto
  then have "depth_of_length b (length xs) = Ok (node_height n)"
    using node_wf_depth [OF assms(1) n(2)] assms(2) by (simp add: u64_bound_def)
  then show ?thesis
    using n by (simp add: pl_try_from_iter_def validate_length_def list_try_from_iter_def
        assert_rs_def pl_into_iter_abs pl_abs_def)
qed

theorem persistent_list_try_from_iter_witness:
  "map_ok pl_into_iter (pl_try_from_iter 1 2 [5, 6, 7 :: nat]) = list_try_from_iter 2 [5, 6, 7]"
  by (rule persistent_list_try_from_iter) simp_all

text \<open>
  \<open>repeat_zero\<close>, which prunes a perfect tree with shared subtrees, gives the list of that
  many zeros for every length within the limit, in a tree of the shape the other operations
  need.
\<close>

lemma persistent_list_repeat_zero:
  assumes "b < 64" "len \<le> N" "N \<le> u64_max"
  shows "\<exists>l. pl_repeat_zero b N z len = Ok l \<and> pl_inv b N l \<and> pl_into_iter l = replicate len z"
proof (cases "len = 0")
  case True
  then show ?thesis
    by (simp add: pl_repeat_zero_def validate_length_def pl_into_iter_abs)
next
  case False
  let ?leaf = "Leaf (replicate (2 ^ b) z)"
  have max: "len \<le> u64_max" using assms by simp
  obtain d where d: "depth_of_length b len = Ok d" using depth_of_length_total [OF max] by blast
  have le: "len \<le> 2 ^ (b + d)" using depth_le_iff [OF max d, of d] by simp
  have d64: "b + d \<le> 64"
    using depth_le_iff [OF max d, of "64 - b"] assms(1) max by simp
  note perfect = perfect_tree_wf [of "replicate (2 ^ b) z" b d, OF _ d64]
  obtain n where n: "node_prune b (perfect_tree ?leaf d) len = Ok n" "node_wf b n"
    "elems n = take len (replicate (2 ^ (b + d)) z)"
    using node_prune_elems [OF assms(1), of "perfect_tree ?leaf d" len] perfect False le max
    by (auto simp: elems_perfect_replicate)
  then have "elems n = replicate len z" using le by (simp add: min_def)
  then show ?thesis
    using False n d assms(2,3)
    by (simp add: pl_repeat_zero_def validate_length_def saturating_usize_def node_leaf_def
        assert_rs_def pl_inv_def pl_into_iter_abs pl_abs_def)
qed

lemma persistent_list_repeat_zero_example:
  "\<exists>l. pl_repeat_zero 2 1000 (0 :: nat) 13 = Ok l \<and> pl_inv 2 1000 l \<and> pl_into_iter l = replicate 13 0"
  by (rule persistent_list_repeat_zero) simp_all

end
