(* ===== verification/Validator_List.thy ===== *)
theory Validator_List
  imports Merkle Persistent_List
begin

text \<open>
  The validator registry: \<open>PubkeyList\<close> and \<open>RawValidatorList\<close> (\<open>types/src/nonstandard.rs\<close>) and
  \<open>ValidatorList\<close> with its tree of cached hashes (\<open>types/src/phase0/validator_list.rs\<close>).

  The registry keeps public keys, effective balances and the remaining fields in three lists of
  the same length, a map from public keys to indices that may hold stale entries, and a binary
  tree that caches the roots of subtrees.  The abstraction is a plain list of validators
  (\<open>vl_abs\<close>); the lemmas show that every operation acts on it as the corresponding list
  operation, that the map answers for exactly the keys in the list, and that the root computed
  through the cache is the Merkle root of the list whatever has been cached before.

  A \<open>OnceBox\<close> is an \<open>option\<close> that \<open>get_or_init\<close> fills, so \<open>cache_hash\<close> returns the filled tree.
  The root of a single validator is produced by the derive macro for containers and is a
  parameter \<open>htr\<close>.  \<open>binary_search_by\<close> of the persistent vector is a parameter \<open>search\<close>.
  Vectors of the crate \<open>im\<close> are lists.
\<close>

datatype ordering = Less | Equal | Greater

type_synonym search_fn =
  "(public_key_bytes \<Rightarrow> ordering) \<Rightarrow> public_key_bytes list \<Rightarrow> (nat, nat) result"

text \<open>
  What the code relies on: on a list partitioned by the comparator, without an element that
  compares equal, the search fails with the partition point.
\<close>

definition finds_partition_point :: "search_fn \<Rightarrow> bool" where
  "finds_partition_point search \<longleftrightarrow>
     (\<forall>cmp xs k. k \<le> length xs \<and> (\<forall>i < k. cmp (xs ! i) = Less)
        \<and> (\<forall>i. k \<le> i \<and> i < length xs \<longrightarrow> cmp (xs ! i) = Greater) \<longrightarrow> search cmp xs = Err k)"

definition vec_slice :: "'a list \<Rightarrow> nat \<Rightarrow> nat \<Rightarrow> 'a list res" where
  "vec_slice xs start stop =
     (if start \<le> stop \<and> stop \<le> length xs then Ok (take (stop - start) (drop start xs)) else Panic)"

text \<open>A \<open>Result\<close> that is unwrapped with \<open>expect\<close>.\<close>

definition expect_ok :: "('e, 'a) result \<Rightarrow> ('f, 'a) result" where
  "expect_ok r = (case r of Ok a \<Rightarrow> Ok a | _ \<Rightarrow> Panic)"

subsection \<open>\<open>PubkeyList\<close>\<close>

record pubkey_list =
  pk_keys :: "public_key_bytes list"
  pk_index_map :: "public_key_bytes \<rightharpoonup> validator_index"

definition pubkey_zero :: public_key_bytes where
  "pubkey_zero = replicate 48 0"

definition pubkey_list_default :: pubkey_list where
  "pubkey_list_default = \<lparr> pk_keys = [], pk_index_map = Map.empty \<rparr>"

definition index_of :: "pubkey_list \<Rightarrow> public_key_bytes \<Rightarrow> validator_index option" where
  "index_of self pubkey =
     (case pk_index_map self pubkey of
        None \<Rightarrow> None
      | Some index \<Rightarrow>
          if index < length (pk_keys self) \<and> pk_keys self ! index = pubkey
          then Some index else None)"

definition pubkeys_contains :: "pubkey_list \<Rightarrow> public_key_bytes \<Rightarrow> bool" where
  "pubkeys_contains self pubkey = (index_of self pubkey \<noteq> None)"

definition pubkeys_get :: "pubkey_list \<Rightarrow> nat \<Rightarrow> public_key_bytes option" where
  "pubkeys_get self index =
     (if index < length (pk_keys self) then Some (pk_keys self ! index) else None)"

definition pubkeys_len :: "pubkey_list \<Rightarrow> nat" where
  "pubkeys_len self = length (pk_keys self)"

definition pubkeys_push :: "pubkey_list \<Rightarrow> public_key_bytes \<Rightarrow> pubkey_list" where
  "pubkeys_push self pubkey =
     (let index = length (pk_keys self)
      in \<lparr> pk_keys = pk_keys self @ [pubkey],
           pk_index_map = (pk_index_map self)(pubkey \<mapsto> index) \<rparr>)"

definition cleared_prefix_len :: "search_fn \<Rightarrow> pubkey_list \<Rightarrow> nat res" where
  "cleared_prefix_len search self =
     (case search (\<lambda>key. if key = pubkey_zero then Less else Greater) (pk_keys self) of
        Err n \<Rightarrow> Ok n | _ \<Rightarrow> Panic)"

text \<open>Entering the keys of a list under consecutive indices.\<close>

definition insert_indices ::
  "nat \<Rightarrow> public_key_bytes list \<Rightarrow> (public_key_bytes \<rightharpoonup> validator_index)
    \<Rightarrow> (public_key_bytes \<rightharpoonup> validator_index)" where
  "insert_indices start keys index_map =
     fold (\<lambda>(index, key) index_map. index_map(key \<mapsto> index)) (enumerate start keys) index_map"

definition restore_prefix :: "pubkey_list \<Rightarrow> pubkey_list \<Rightarrow> nat \<Rightarrow> pubkey_list res" where
  "restore_prefix self source count =
     (if count = 0 then Ok self
      else
        and_then (vec_slice (pk_keys self) count (length (pk_keys self))) (\<lambda>tail.
        let index_map = insert_indices count tail (pk_index_map source)
        in and_then (vec_slice (pk_keys source) 0 count) (\<lambda>keys.
           Ok \<lparr> pk_keys = keys @ tail, pk_index_map = index_map \<rparr>)))"

definition clear_prefix :: "pubkey_list \<Rightarrow> nat \<Rightarrow> pubkey_list res" where
  "clear_prefix self count =
     and_then (vec_slice (pk_keys self) count (length (pk_keys self))) (\<lambda>tail.
       Ok (self\<lparr> pk_keys := replicate count pubkey_zero @ tail \<rparr>))"

definition pubkeys_extend :: "pubkey_list \<Rightarrow> public_key_bytes list \<Rightarrow> pubkey_list" where
  "pubkeys_extend self pubkeys =
     (let start = length (pk_keys self)
      in fold (\<lambda>(index, pubkey) l.
           \<lparr> pk_keys = pk_keys l @ [pubkey],
             pk_index_map = (pk_index_map l)(pubkey \<mapsto> index) \<rparr>)
         (enumerate start pubkeys) self)"

definition pubkeys_from_iter :: "public_key_bytes list \<Rightarrow> pubkey_list" where
  "pubkeys_from_iter pubkeys =
     \<lparr> pk_keys = pubkeys,
       pk_index_map = insert_indices 0 pubkeys Map.empty \<rparr>"

subsection \<open>\<open>RawValidatorList\<close>\<close>

record raw_validator_list =
  rv_pubkeys :: pubkey_list
  rv_effective_balances :: "gwei list"
  rv_items :: "partial_validator list"

definition raw_default :: raw_validator_list where
  "raw_default =
     \<lparr> rv_pubkeys = pubkey_list_default, rv_effective_balances = [], rv_items = [] \<rparr>"

definition raw_len :: "raw_validator_list \<Rightarrow> nat" where
  "raw_len self = pubkeys_len (rv_pubkeys self)"

definition raw_validate_index :: "raw_validator_list \<Rightarrow> nat \<Rightarrow> nat res" where
  "raw_validate_index self index =
     (if raw_len self \<le> index then Err (Index (OutOfBounds (raw_len self) index)) else Ok index)"

definition make_validator ::
  "public_key_bytes \<Rightarrow> gwei \<Rightarrow> partial_validator \<Rightarrow> validator" where
  "make_validator pubkey effective_balance partial =
     \<lparr> val_pubkey = pubkey,
       val_withdrawal_credentials = pv_withdrawal_credentials partial,
       val_effective_balance = effective_balance,
       val_slashed = pv_slashed partial,
       val_activation_eligibility_epoch = pv_activation_eligibility_epoch partial,
       val_activation_epoch = pv_activation_epoch partial,
       val_exit_epoch = pv_exit_epoch partial,
       val_withdrawable_epoch = pv_withdrawable_epoch partial \<rparr>"

definition raw_get :: "raw_validator_list \<Rightarrow> nat \<Rightarrow> validator res" where
  "raw_get self index =
     and_then (raw_validate_index self index) (\<lambda>index.
     and_then (expect (pubkeys_get (rv_pubkeys self) index)) (\<lambda>pubkey.
     and_then (nth_rs (rv_effective_balances self) index) (\<lambda>effective_balance.
     and_then (nth_rs (rv_items self) index) (\<lambda>partial.
     Ok (make_validator pubkey effective_balance partial)))))"

definition raw_pubkey :: "raw_validator_list \<Rightarrow> nat \<Rightarrow> public_key_bytes res" where
  "raw_pubkey self index =
     and_then (raw_validate_index self index) (\<lambda>index. expect (pubkeys_get (rv_pubkeys self) index))"

definition raw_effective_balance :: "raw_validator_list \<Rightarrow> nat \<Rightarrow> gwei res" where
  "raw_effective_balance self index =
     and_then (raw_validate_index self index) (\<lambda>index. nth_rs (rv_effective_balances self) index)"

definition raw_effective_balance_mut ::
  "raw_validator_list \<Rightarrow> nat \<Rightarrow> (gwei \<Rightarrow> gwei) \<Rightarrow> raw_validator_list res" where
  "raw_effective_balance_mut self index f =
     and_then (raw_validate_index self index) (\<lambda>index.
     and_then (nth_rs (rv_effective_balances self) index) (\<lambda>effective_balance.
     Ok (self\<lparr> rv_effective_balances :=
                (rv_effective_balances self)[index := f effective_balance] \<rparr>)))"

definition raw_partial_validator :: "raw_validator_list \<Rightarrow> nat \<Rightarrow> partial_validator res" where
  "raw_partial_validator self index =
     and_then (raw_validate_index self index) (\<lambda>index. nth_rs (rv_items self) index)"

definition raw_partial_validator_mut ::
  "raw_validator_list \<Rightarrow> nat \<Rightarrow> (partial_validator \<Rightarrow> partial_validator)
    \<Rightarrow> raw_validator_list res" where
  "raw_partial_validator_mut self index f =
     and_then (raw_validate_index self index) (\<lambda>index.
     and_then (nth_rs (rv_items self) index) (\<lambda>partial.
     Ok (self\<lparr> rv_items := (rv_items self)[index := f partial] \<rparr>)))"

text \<open>
  The closure \<open>updater\<close> may carry a state \<open>'s\<close>, and \<open>invalidate\<close> acts on a state \<open>'c\<close>.
\<close>

fun update_balances_loop ::
  "('s \<Rightarrow> partial_validator \<Rightarrow> gwei \<Rightarrow> ('s \<times> gwei) res) \<Rightarrow> (nat \<Rightarrow> nat \<Rightarrow> 'c \<Rightarrow> 'c res)
    \<Rightarrow> nat \<Rightarrow> nat \<Rightarrow> partial_validator list \<Rightarrow> gwei list \<Rightarrow> 's \<Rightarrow> 'c \<Rightarrow> (gwei list \<times> 's \<times> 'c) res"
where
  "update_balances_loop updater invalidate len index (p # ps) (old # olds) s c =
     and_then (updater s p old) (\<lambda>(s, new).
     and_then (if new = old then Ok c else invalidate index len c) (\<lambda>c.
     and_then (update_balances_loop updater invalidate len (Suc index) ps olds s c) (\<lambda>(news, r).
     Ok (new # news, r))))"
| "update_balances_loop updater invalidate len index _ olds s c = Ok (olds, s, c)"

definition raw_update_effective_balances ::
  "raw_validator_list \<Rightarrow> ('s \<Rightarrow> partial_validator \<Rightarrow> gwei \<Rightarrow> ('s \<times> gwei) res)
    \<Rightarrow> (nat \<Rightarrow> nat \<Rightarrow> 'c \<Rightarrow> 'c res) \<Rightarrow> 's \<Rightarrow> 'c \<Rightarrow> (raw_validator_list \<times> 's \<times> 'c) res" where
  "raw_update_effective_balances self updater invalidate s c =
     and_then
       (update_balances_loop updater invalidate (raw_len self) 0 (rv_items self)
          (rv_effective_balances self) s c) (\<lambda>(balances, s, c).
     Ok (self\<lparr> rv_effective_balances := balances \<rparr>, s, c))"

definition raw_restore_pubkeys ::
  "search_fn \<Rightarrow> raw_validator_list \<Rightarrow> pubkey_list \<Rightarrow> raw_validator_list res" where
  "raw_restore_pubkeys search self pubkeys =
     and_then (cleared_prefix_len search (rv_pubkeys self)) (\<lambda>cleared.
     and_then (ensure (cleared \<le> pubkeys_len pubkeys)
        (Message ''pubkey list is shorter than the cleared prefix'')) (\<lambda>_.
     and_then (restore_prefix (rv_pubkeys self) pubkeys cleared) (\<lambda>restored.
     Ok (self\<lparr> rv_pubkeys := restored \<rparr>))))"

definition raw_clear_pubkeys :: "raw_validator_list \<Rightarrow> nat \<Rightarrow> raw_validator_list res" where
  "raw_clear_pubkeys self count =
     (let count = min count (raw_len self)
      in if count = 0 then Ok self
         else and_then (clear_prefix (rv_pubkeys self) count) (\<lambda>pubkeys.
              Ok (self\<lparr> rv_pubkeys := pubkeys \<rparr>)))"

definition raw_push :: "raw_validator_list \<Rightarrow> validator \<Rightarrow> raw_validator_list" where
  "raw_push self validator =
     \<lparr> rv_pubkeys = pubkeys_push (rv_pubkeys self) (val_pubkey validator),
       rv_effective_balances = rv_effective_balances self @ [val_effective_balance validator],
       rv_items = rv_items self @ [to_partial_validator validator] \<rparr>"

definition raw_from_iter :: "validator list \<Rightarrow> raw_validator_list" where
  "raw_from_iter validators =
     \<lparr> rv_pubkeys = pubkeys_from_iter (map val_pubkey validators),
       rv_effective_balances = map val_effective_balance validators,
       rv_items = map to_partial_validator validators \<rparr>"

text \<open>\<open>ValidatorListIter\<close>\<close>

definition raw_into_iter :: "raw_validator_list \<Rightarrow> validator list" where
  "raw_into_iter self =
     map (\<lambda>(pubkey, effective_balance, partial). make_validator pubkey effective_balance partial)
       (zip (pk_keys (rv_pubkeys self)) (zip (rv_effective_balances self) (rv_items self)))"

subsection \<open>\<open>CacheNode\<close>\<close>

datatype cache_node =
    CacheLeaf "h256 option"
  | CacheInternal "h256 option" cache_node cache_node

definition empty_leaf :: cache_node where
  "empty_leaf = CacheLeaf None"

lemma next_power_of_two_split:
  assumes "2 \<le> n"
  shows "\<exists>k. next_power_of_two n = 2 ^ Suc k \<and> 2 ^ k < n \<and> n \<le> 2 ^ Suc k"
proof -
  obtain j where j: "next_power_of_two n = 2 ^ j" using next_power_of_two_eq by blast
  with next_power_of_two_ge [of n] have n: "n \<le> 2 ^ j" by simp
  with assms obtain k where k: "j = Suc k" by (cases j) auto
  have "2 ^ k < n"
  proof (rule ccontr)
    assume "\<not> 2 ^ k < n"
    then have "next_power_of_two n \<le> 2 ^ k" using next_power_of_two_least by simp
    then show False using j k by simp
  qed
  then show ?thesis using j k n by blast
qed

lemma half_next_power_of_two:
  assumes "2 \<le> n"
  shows "0 < next_power_of_two n div 2" "next_power_of_two n div 2 < n"
  using next_power_of_two_split [OF assms] by auto

lemma checked_next_power_of_two_Some [res_simps]:
  "checked_next_power_of_two n = Some p \<longleftrightarrow> p = next_power_of_two n \<and> p < u64_bound"
  by (auto simp: checked_next_power_of_two_def Let_def)

lemma checked_sub_Some [res_simps]: "checked_sub a b = Some c \<longleftrightarrow> b \<le> a \<and> c = a - b"
  by (auto simp: checked_sub_def)

text \<open>
  For length 0 the source recurses without end and exhausts the stack; the callers pass a positive
  length.
\<close>

function build_empty :: "nat \<Rightarrow> cache_node res" where
  "build_empty len =
     (if len = 0 then Panic
      else if len = 1 then Ok empty_leaf
      else
        and_then (expect (checked_next_power_of_two len)) (\<lambda>p.
        and_then (expect (checked_sub len (p div 2))) (\<lambda>right_length.
        and_then (build_empty (p div 2)) (\<lambda>left.
        and_then (build_empty right_length) (\<lambda>right.
        Ok (CacheInternal None left right))))))"
  by pat_completeness auto
termination
  by (relation "measure id")
    (auto simp: res_simps half_next_power_of_two intro!: diff_less)

declare build_empty.simps [simp del]

fun push_leaf :: "cache_node \<Rightarrow> nat \<Rightarrow> cache_node res" where
  "push_leaf (CacheInternal root left right) old_length =
     (if is_power_of_two old_length
      then Ok (CacheInternal None (CacheInternal root left right) empty_leaf)
      else
        and_then (expect (checked_next_power_of_two old_length)) (\<lambda>p.
        and_then (expect (checked_sub old_length (p div 2))) (\<lambda>right_length.
        and_then (push_leaf right right_length) (\<lambda>right.
        Ok (CacheInternal None left right)))))"
| "push_leaf (CacheLeaf root) old_length =
     (if is_power_of_two old_length
      then Ok (CacheInternal None (CacheLeaf root) empty_leaf)
      else Panic)"

fun cache_invalidate :: "cache_node \<Rightarrow> nat \<Rightarrow> nat \<Rightarrow> cache_node res" where
  "cache_invalidate (CacheLeaf root) index len = Ok (CacheLeaf None)"
| "cache_invalidate (CacheInternal root left right) index len =
     and_then (expect (checked_next_power_of_two len)) (\<lambda>p.
     if index < p div 2
     then and_then (cache_invalidate left index (p div 2)) (\<lambda>left.
          Ok (CacheInternal None left right))
     else
       and_then (expect (checked_sub index (p div 2))) (\<lambda>right_index.
       and_then (expect (checked_sub len (p div 2))) (\<lambda>right_length.
       and_then (cache_invalidate right right_index right_length) (\<lambda>right.
       Ok (CacheInternal None left right)))))"

fun cache_hash ::
  "compress256 \<Rightarrow> (validator \<Rightarrow> h256) \<Rightarrow> cache_node \<Rightarrow> raw_validator_list \<Rightarrow> nat \<Rightarrow> nat
    \<Rightarrow> (cache_node \<times> h256) res" where
  "cache_hash compress htr (CacheLeaf (Some root)) buf len offset = Ok (CacheLeaf (Some root), root)"
| "cache_hash compress htr (CacheLeaf None) buf len offset =
     and_then (expect_ok (raw_get buf offset)) (\<lambda>validator.
     Ok (CacheLeaf (Some (htr validator)), htr validator))"
| "cache_hash compress htr (CacheInternal (Some root) left right) buf len offset =
     Ok (CacheInternal (Some root) left right, root)"
| "cache_hash compress htr (CacheInternal None left right) buf len offset =
     and_then (expect (checked_next_power_of_two len)) (\<lambda>p.
     let left_len = p div 2 in
     and_then (expect (checked_sub len left_len)) (\<lambda>right_len.
     and_then (depth_of_length 0 left_len) (\<lambda>left_height.
     and_then (depth_of_length 0 right_len) (\<lambda>right_height.
     and_then (expect (checked_add offset left_len)) (\<lambda>right_offset.
     and_then (cache_hash compress htr left buf left_len offset) (\<lambda>(left, left_hash).
     and_then (cache_hash compress htr right buf right_len right_offset) (\<lambda>(right, right_hash).
     and_then (try_fold (\<lambda>height hash. map_ok (hash_256_256 compress hash) (zero_hash_at height))
        [right_height..<left_height] right_hash) (\<lambda>right_hash.
     let root = hash_256_256 compress left_hash right_hash
     in Ok (CacheInternal (Some root) left right, root)))))))))"

subsection \<open>\<open>ValidatorList\<close>\<close>

record validator_list =
  vl_buf :: raw_validator_list
  vl_cache :: "cache_node option"

definition vl_default :: validator_list where
  "vl_default = \<lparr> vl_buf = raw_default, vl_cache = None \<rparr>"

definition vl_len :: "validator_list \<Rightarrow> nat" where
  "vl_len self = raw_len (vl_buf self)"

definition vl_depth :: "validator_list \<Rightarrow> nat res" where
  "vl_depth self = depth_of_length 0 (vl_len self)"

definition vl_max_depth :: "nat \<Rightarrow> nat res" where
  "vl_max_depth N = map_ok (\<lambda>l. saturating_sub l 0) (ilog2_ceil N)"

definition invalidate_index :: "validator_list \<Rightarrow> nat \<Rightarrow> validator_list res" where
  "invalidate_index self index =
     (let len = vl_len self
      in if len \<le> index then Ok self
         else case vl_cache self of
           None \<Rightarrow> Ok self
         | Some cache \<Rightarrow>
             and_then (cache_invalidate cache index len) (\<lambda>cache.
             Ok (self\<lparr> vl_cache := Some cache \<rparr>)))"

definition vl_get :: "validator_list \<Rightarrow> nat \<Rightarrow> validator res" where
  "vl_get self index = raw_get (vl_buf self) index"

definition vl_pubkey :: "validator_list \<Rightarrow> nat \<Rightarrow> public_key_bytes res" where
  "vl_pubkey self index = raw_pubkey (vl_buf self) index"

definition vl_effective_balance :: "validator_list \<Rightarrow> nat \<Rightarrow> gwei res" where
  "vl_effective_balance self index = raw_effective_balance (vl_buf self) index"

definition vl_partial_validator :: "validator_list \<Rightarrow> nat \<Rightarrow> partial_validator res" where
  "vl_partial_validator self index = raw_partial_validator (vl_buf self) index"

definition vl_pubkeys :: "validator_list \<Rightarrow> pubkey_list" where
  "vl_pubkeys self = rv_pubkeys (vl_buf self)"

definition vl_partial_validators :: "validator_list \<Rightarrow> partial_validator list" where
  "vl_partial_validators self = rv_items (vl_buf self)"

definition vl_effective_balances :: "validator_list \<Rightarrow> gwei list" where
  "vl_effective_balances self = rv_effective_balances (vl_buf self)"

definition vl_into_iter :: "validator_list \<Rightarrow> validator list" where
  "vl_into_iter self = raw_into_iter (vl_buf self)"

definition vl_effective_balance_mut ::
  "validator_list \<Rightarrow> nat \<Rightarrow> (gwei \<Rightarrow> gwei) \<Rightarrow> validator_list res" where
  "vl_effective_balance_mut self index f =
     and_then (invalidate_index self index) (\<lambda>self.
     and_then (raw_effective_balance_mut (vl_buf self) index f) (\<lambda>buf.
     Ok (self\<lparr> vl_buf := buf \<rparr>)))"

definition vl_partial_validator_mut ::
  "validator_list \<Rightarrow> nat \<Rightarrow> (partial_validator \<Rightarrow> partial_validator) \<Rightarrow> validator_list res" where
  "vl_partial_validator_mut self index f =
     and_then (invalidate_index self index) (\<lambda>self.
     and_then (raw_partial_validator_mut (vl_buf self) index f) (\<lambda>buf.
     Ok (self\<lparr> vl_buf := buf \<rparr>)))"

definition vl_update_effective_balances ::
  "validator_list \<Rightarrow> ('s \<Rightarrow> partial_validator \<Rightarrow> gwei \<Rightarrow> ('s \<times> gwei) res) \<Rightarrow> 's
    \<Rightarrow> (validator_list \<times> 's) res" where
  "vl_update_effective_balances self updater s =
     and_then
       (raw_update_effective_balances (vl_buf self) updater
          (\<lambda>index len cache.
             case cache of
               None \<Rightarrow> Ok None
             | Some node \<Rightarrow> map_ok Some (cache_invalidate node index len))
          s (vl_cache self)) (\<lambda>(buf, s, cache).
     Ok (\<lparr> vl_buf = buf, vl_cache = cache \<rparr>, s))"

definition rebuilt_cache :: "raw_validator_list \<Rightarrow> cache_node option res" where
  "rebuilt_cache buf = (if 0 < raw_len buf then map_ok Some (build_empty (raw_len buf)) else Ok None)"

definition vl_restore_pubkeys ::
  "search_fn \<Rightarrow> validator_list \<Rightarrow> pubkey_list \<Rightarrow> validator_list res" where
  "vl_restore_pubkeys search self pubkeys =
     and_then (raw_restore_pubkeys search (vl_buf self) pubkeys) (\<lambda>buf.
     and_then (rebuilt_cache buf) (\<lambda>cache.
     Ok \<lparr> vl_buf = buf, vl_cache = cache \<rparr>))"

definition vl_clear_pubkeys :: "validator_list \<Rightarrow> nat \<Rightarrow> validator_list res" where
  "vl_clear_pubkeys self count =
     and_then (raw_clear_pubkeys (vl_buf self) count) (\<lambda>buf.
     and_then (rebuilt_cache buf) (\<lambda>cache.
     Ok \<lparr> vl_buf = buf, vl_cache = cache \<rparr>))"

definition vl_push :: "nat \<Rightarrow> validator_list \<Rightarrow> validator \<Rightarrow> validator_list res" where
  "vl_push N self validator =
     (let old_length = vl_len self
      in if saturating_usize N \<le> saturating_add old_length 1 then Err (Push ListFull)
         else
           let buf = raw_push (vl_buf self) validator
           in case vl_cache self of
                Some cache \<Rightarrow>
                  and_then (push_leaf cache old_length) (\<lambda>cache.
                  Ok \<lparr> vl_buf = buf, vl_cache = Some cache \<rparr>)
              | None \<Rightarrow> Ok \<lparr> vl_buf = buf, vl_cache = Some empty_leaf \<rparr>)"

definition vl_try_from_iter :: "nat \<Rightarrow> validator list \<Rightarrow> validator_list res" where
  "vl_try_from_iter N items =
     (let buf = raw_from_iter items
      in if saturating_usize N < raw_len buf
         then Err (Read (ListTooLong (saturating_usize N) (raw_len buf)))
         else and_then (rebuilt_cache buf) (\<lambda>cache. Ok \<lparr> vl_buf = buf, vl_cache = cache \<rparr>))"

text \<open>The root, with the list whose cache the computation has filled.\<close>

definition vl_hash_tree_root ::
  "compress256 \<Rightarrow> (validator \<Rightarrow> h256) \<Rightarrow> nat \<Rightarrow> validator_list \<Rightarrow> (validator_list \<times> h256) res" where
  "vl_hash_tree_root compress htr N self =
     and_then (vl_max_depth N) (\<lambda>max_depth.
     and_then
       (if vl_len self = 0 then map_ok (\<lambda>root. (self, root)) (zero_hash_at max_depth)
        else
          and_then (vl_depth self) (\<lambda>depth.
          and_then (expect (vl_cache self)) (\<lambda>cache.
          and_then (cache_hash compress htr cache (vl_buf self) (vl_len self) 0) (\<lambda>(cache, hash).
          map_ok (\<lambda>root. (self\<lparr> vl_cache := Some cache \<rparr>, root))
            (try_fold (\<lambda>height hash. map_ok (hash_256_256 compress hash) (zero_hash_at height))
               [depth..<max_depth] hash))))) (\<lambda>(self, root).
     Ok (self, mix_in_length compress root (vl_len self))))"

subsection \<open>Height of a tree\<close>

definition tree_height :: "nat \<Rightarrow> nat" where
  "tree_height n = trailing_zeros (next_power_of_two n)"

lemma next_power_of_two_height: "next_power_of_two n = 2 ^ tree_height n"
  using next_power_of_two_eq [of n] by (auto simp: tree_height_def trailing_zeros_power)

lemma height_fits: "n \<le> 2 ^ tree_height n"
  using next_power_of_two_ge [of n] next_power_of_two_height by simp

lemma height_least: "n \<le> 2 ^ k \<Longrightarrow> tree_height n \<le> k"
  using next_power_of_two_least [of n k] next_power_of_two_height [of n]
  by (metis one_less_numeral_iff power_increasing_iff semiring_norm(76))

lemma height_split:
  assumes "2 \<le> n"
  obtains k where "tree_height n = Suc k" "next_power_of_two n div 2 = 2 ^ k" "2 ^ k < n" "n \<le> 2 ^ Suc k"
    "tree_height (2 ^ k) = k" "tree_height (n - 2 ^ k) \<le> k"
proof -
  obtain k where k: "next_power_of_two n = 2 ^ Suc k" "2 ^ k < n" "n \<le> 2 ^ Suc k"
    using next_power_of_two_split [OF assms] by blast
  have "2 ^ tree_height n = (2::nat) ^ Suc k" using k(1) next_power_of_two_height by simp
  then have "tree_height n = Suc k" by (metis numeral_eq_one_iff power_inject_exp one_less_numeral_iff semiring_norm(76))
  moreover have "tree_height (2 ^ k) = k"
  proof (rule antisym)
    show "tree_height (2 ^ k) \<le> k" by (rule height_least) simp
    have "(2::nat) ^ k \<le> 2 ^ tree_height (2 ^ k)" by (rule height_fits)
    then show "k \<le> tree_height (2 ^ k)" by simp
  qed
  moreover have "tree_height (n - 2 ^ k) \<le> k" using k(3) by (intro height_least) simp
  ultimately show ?thesis using that k by simp
qed

lemma power_bracket_unique:
  fixes n :: nat
  assumes "2 ^ a < n" "n \<le> 2 ^ Suc a" "2 ^ b < n" "n \<le> 2 ^ Suc b"
  shows "a = b"
proof -
  have "(2::nat) ^ a < 2 ^ Suc b" "(2::nat) ^ b < 2 ^ Suc a" using assms by linarith+
  then have "a < Suc b" "b < Suc a" by (simp_all only: power_strict_increasing_iff one_less_numeral_iff semiring_norm)
  then show ?thesis by simp
qed

lemma height_one: "tree_height 1 = 0"
  using height_least [of 1 0] by simp

lemma depth_of_length_height: "n \<le> u64_max \<Longrightarrow> depth_of_length 0 n = Ok (tree_height n)"
  using ilog2_ceil_power [OF _ next_power_of_two_height]
  by (simp add: depth_of_length_def usize_ilog2_ceil_eq saturating_sub_def)

lemma checked_next_power_of_two_ok:
  assumes "n \<le> 2 ^ 40"
  shows "checked_next_power_of_two n = Some (next_power_of_two n)"
  using next_power_of_two_least [OF assms] by (simp add: res_simps u64_bound_power)

subsection \<open>Coherence of the cache\<close>

text \<open>
  A node over the validators \<open>vs\<close> has the shape of the tree over that many leaves, and every
  hash it stores is the root of its subtree.
\<close>

fun cache_ok :: "compress256 \<Rightarrow> (validator \<Rightarrow> h256) \<Rightarrow> cache_node \<Rightarrow> validator list \<Rightarrow> bool" where
  "cache_ok compress htr (CacheLeaf root) vs \<longleftrightarrow>
     (\<exists>v. vs = [v] \<and> (root = None \<or> root = Some (htr v)))"
| "cache_ok compress htr (CacheInternal root left right) vs \<longleftrightarrow>
     2 \<le> length vs
     \<and> cache_ok compress htr left (take (next_power_of_two (length vs) div 2) vs)
     \<and> cache_ok compress htr right (drop (next_power_of_two (length vs) div 2) vs)
     \<and> (root = None
        \<or> root = Some (merkle_root compress (tree_height (length vs)) (map htr vs)))"

lemma cache_ok_nonempty: "cache_ok compress htr node vs \<Longrightarrow> vs \<noteq> []"
  by (cases node) auto

lemma build_empty_ok:
  "length vs \<le> 2 ^ 40 \<Longrightarrow> vs \<noteq> [] \<Longrightarrow> \<exists>node. build_empty (length vs) = Ok node \<and> cache_ok compress htr node vs"
proof (induction "length vs" arbitrary: vs rule: less_induct)
  case less
  let ?n = "length vs" and ?m = "next_power_of_two (length vs) div 2"
  show ?case
  proof (cases "?n = 1")
    case True
    then obtain v where "vs = [v]" by (auto simp: length_Suc_conv)
    then show ?thesis by (simp add: build_empty.simps [of "Suc 0"] empty_leaf_def)
  next
    case False
    then have n: "2 \<le> ?n" using less.prems by (cases vs) (auto simp: Suc_le_eq)
    define m where "m = ?m"
    have half: "0 < m" "m < ?n" using half_next_power_of_two [OF n] by (simp_all only: m_def)
    obtain l where l: "build_empty (length (take m vs)) = Ok l" "cache_ok compress htr l (take m vs)"
      using less(1) [of "take m vs"] less.prems half by auto
    have "length (drop m vs) < length vs" "length (drop m vs) \<le> 2 ^ 40" "drop m vs \<noteq> []"
      using half less.prems(1) by simp_all
    then obtain r where r: "build_empty (length (drop m vs)) = Ok r" "cache_ok compress htr r (drop m vs)"
      using less(1) by blast
    show ?thesis
      using l r n half checked_next_power_of_two_ok [OF less.prems(1)]
      by (subst build_empty.simps) (auto simp: expect_def checked_sub_def simp flip: m_def)
  qed
qed

lemma push_leaf_ok:
  assumes "cache_ok compress htr node vs" "length vs < 2 ^ 40"
  shows "\<exists>node'. push_leaf node (length vs) = Ok node' \<and> cache_ok compress htr node' (vs @ [v])"
  using assms
proof (induction node arbitrary: vs)
  case (CacheLeaf root)
  then obtain u where u: "vs = [u]" by auto
  have "next_power_of_two (Suc (Suc 0)) div 2 = 1" "is_power_of_two 1"
    by (simp_all add: next_power_of_two.simps is_power_of_two_def)
  then show ?case using CacheLeaf u by (auto simp: empty_leaf_def)
next
  case (CacheInternal root l r)
  let ?n = "length vs" and ?m = "next_power_of_two (length vs) div 2"
  have n: "2 \<le> ?n" using CacheInternal.prems by simp
  obtain k where k: "tree_height ?n = Suc k" "?m = 2 ^ k" "2 ^ k < ?n" "?n \<le> 2 ^ Suc k"
    by (rule height_split [OF n])
  have n1: "2 \<le> Suc ?n" using n by simp
  obtain j where j: "next_power_of_two (Suc ?n) div 2 = 2 ^ j" "2 ^ j < Suc ?n" "Suc ?n \<le> 2 ^ Suc j"
    by (rule height_split [OF n1])
  show ?case
  proof (cases "is_power_of_two ?n")
    case True
    then obtain i where i: "?n = 2 ^ i" using is_power_of_two_iff by blast
    have "1 < (2::nat) ^ i" using n i by simp
    then have "2 ^ i < Suc ?n" "Suc ?n \<le> 2 ^ Suc i" using i by simp_all
    then have "?n = 2 ^ j" using power_bracket_unique [OF j(2,3), of i] i by simp
    then show ?thesis using CacheInternal.prems True j(1) n by (auto simp: empty_leaf_def)
  next
    case False
    have "?n \<noteq> 2 ^ Suc k" using False is_power_of_two_iff by metis
    then have "Suc ?n \<le> 2 ^ Suc k" "2 ^ k < Suc ?n" using k by auto
    then have "j = k" using power_bracket_unique [OF j(2,3), of k] by simp
    then have half: "next_power_of_two (Suc ?n) div 2 = ?m" using j k by simp
    obtain r' where "push_leaf r (length (drop ?m vs)) = Ok r'" "cache_ok compress htr r' (drop ?m vs @ [v])"
      using CacheInternal.IH(2) [of "drop ?m vs"] CacheInternal.prems(1)
        le_less_trans [OF diff_le_self CacheInternal.prems(2), of ?m] by auto
    then show ?thesis
      using CacheInternal.prems False n half k checked_next_power_of_two_ok [of ?n]
      by (simp add: expect_def checked_sub_def)
  qed
qed


lemma cache_invalidate_ok:
  assumes "cache_ok compress htr node vs" "length vs \<le> 2 ^ 40" "index < length vs"
  shows "\<exists>node'. cache_invalidate node index (length vs) = Ok node'
    \<and> cache_ok compress htr node' (vs[index := v])"
  using assms
proof (induction node arbitrary: vs index)
  case (CacheLeaf root)
  then show ?case by auto
next
  case (CacheInternal root l r)
  define m where "m = next_power_of_two (length vs) div 2"
  have n: "2 \<le> length vs" using CacheInternal.prems by simp
  then have m: "0 < m" "m < length vs" using half_next_power_of_two by (simp_all add: m_def)
  have l: "cache_ok compress htr l (take m vs)" and r: "cache_ok compress htr r (drop m vs)"
    using CacheInternal.prems by (simp_all add: m_def)
  note p = checked_next_power_of_two_ok [OF CacheInternal.prems(2)]
  show ?case
  proof (cases "index < m")
    case True
    have "length (take m vs) \<le> 2 ^ 40" using CacheInternal.prems(2) by simp
    then obtain l' where "cache_invalidate l index m = Ok l'" "cache_ok compress htr l' ((take m vs)[index := v])"
      using CacheInternal.IH(1) [OF l _, of index] True m by auto
    then show ?thesis
      using n m r True p by (simp add: expect_def flip: m_def) (simp add: m_def [symmetric] take_update_swap)
  next
    case False
    have "length (drop m vs) \<le> 2 ^ 40" using CacheInternal.prems(2) by simp
    then obtain r' where "cache_invalidate r (index - m) (length vs - m) = Ok r'"
        "cache_ok compress htr r' ((drop m vs)[index - m := v])"
      using CacheInternal.IH(2) [OF r _, of "index - m"] False CacheInternal.prems(3)
        diff_less_mono [OF CacheInternal.prems(3), of m] by auto
    then show ?thesis
      using n m l False p
      by (simp add: expect_def checked_sub_def drop_update_swap flip: m_def)
  qed
qed

text \<open>The validators of a list, and the part of it that a node is over.\<close>

definition raw_wf :: "raw_validator_list \<Rightarrow> bool" where
  "raw_wf buf \<longleftrightarrow>
     length (rv_effective_balances buf) = raw_len buf \<and> length (rv_items buf) = raw_len buf"

lemma length_raw_into_iter: "raw_wf buf \<Longrightarrow> length (raw_into_iter buf) = raw_len buf"
  by (simp add: raw_wf_def raw_into_iter_def raw_len_def pubkeys_len_def)

lemma raw_get_abs: "raw_wf buf \<Longrightarrow> raw_get buf i = list_get (raw_into_iter buf) i"
  using length_raw_into_iter [of buf]
  by (auto simp: raw_get_def raw_validate_index_def list_get_def validate_index_def raw_wf_def
      raw_into_iter_def raw_len_def pubkeys_len_def pubkeys_get_def expect_def)

lemma fold_zero_hash_at:
  assumes "d \<le> 40"
  shows "try_fold (\<lambda>height hash. map_ok (hash_256_256 compress hash) (zero_hash_at height)) [h..<d] x
    = Ok (fold (\<lambda>k hash. hash_256_256 compress hash (ZERO_HASHES ! k)) [h..<d] x)"
proof -
  have "set ks \<subseteq> {..<41} \<Longrightarrow>
    try_fold (\<lambda>height hash. map_ok (hash_256_256 compress hash) (zero_hash_at height)) ks x
    = Ok (fold (\<lambda>k hash. hash_256_256 compress hash (ZERO_HASHES ! k)) ks x)" for ks x
    by (induction ks arbitrary: x) (auto simp: zero_hash_at_def)
  from this [of "[h..<d]" x] show ?thesis using assms by (simp add: subset_eq)
qed

lemma cache_hash_ok:
  assumes "zero_hash_chain compress" "raw_wf buf" "cache_ok compress htr node vs" "length vs \<le> 2 ^ 40"
    and "offset + length vs \<le> raw_len buf" "raw_len buf \<le> u64_max"
    and "\<forall>i < length vs. raw_into_iter buf ! (offset + i) = vs ! i"
  shows "\<exists>node'. cache_hash compress htr node buf (length vs) offset
      = Ok (node', merkle_root compress (tree_height (length vs)) (map htr vs))
    \<and> cache_ok compress htr node' vs"
  using assms(3-)
proof (induction node arbitrary: vs offset)
  case (CacheLeaf root)
  then obtain v where v: "vs = [v]" by auto
  show ?case
  proof (cases root)
    case None
    have "raw_into_iter buf ! offset = v"
      using CacheLeaf.prems(5) v by simp
    moreover have "raw_get buf offset = Ok (raw_into_iter buf ! offset)"
      using CacheLeaf.prems(3) v by (simp add: raw_get_abs [OF assms(2)] length_raw_into_iter [OF assms(2)] res_simps)
    ultimately show ?thesis using None v by (simp add: height_one [simplified] expect_ok_def)
  next
    case (Some h)
    then show ?thesis using CacheLeaf.prems(1) v by (auto simp: height_one [simplified])
  qed
next
  case (CacheInternal root l r)
  let ?n = "length vs" and ?abs = "raw_into_iter buf"
  have n: "2 \<le> ?n" using CacheInternal.prems by simp
  obtain k where k: "tree_height ?n = Suc k" "next_power_of_two ?n div 2 = 2 ^ k" "2 ^ k < ?n" "?n \<le> 2 ^ Suc k"
    "tree_height (2 ^ k) = k" "tree_height (?n - 2 ^ k) \<le> k"
    by (rule height_split [OF n])
  show ?case
  proof (cases root)
    case (Some h)
    then show ?thesis using CacheInternal.prems by auto
  next
    case None
    have "(2::nat) ^ k < 2 ^ 40" using k(3) CacheInternal.prems(2) by linarith
    then have k40: "k < 40" by (simp only: power_strict_increasing_iff one_less_numeral_iff semiring_norm)
    have lok: "cache_ok compress htr l (take (2 ^ k) vs)" and rok: "cache_ok compress htr r (drop (2 ^ k) vs)"
      using CacheInternal.prems(1) k(2) by auto
    obtain l' where l': "cache_hash compress htr l buf (2 ^ k) offset
        = Ok (l', merkle_root compress k (map htr (take (2 ^ k) vs)))" "cache_ok compress htr l' (take (2 ^ k) vs)"
      using CacheInternal.IH(1) [OF lok, of offset] CacheInternal.prems(2-5) k(3,5) by (auto simp: min_def)
    obtain r' where r': "cache_hash compress htr r buf (?n - 2 ^ k) (offset + 2 ^ k)
        = Ok (r', merkle_root compress (tree_height (?n - 2 ^ k)) (map htr (drop (2 ^ k) vs)))"
        "cache_ok compress htr r' (drop (2 ^ k) vs)"
      using CacheInternal.IH(2) [OF rok, of "offset + 2 ^ k"] CacheInternal.prems(3-5) k(3)
        le_trans [OF diff_le_self CacheInternal.prems(2), of "2 ^ k"] by (auto simp: add.assoc)
    have lift: "fold (\<lambda>k hash. hash_256_256 compress hash (ZERO_HASHES ! k)) [tree_height (?n - 2 ^ k)..<k]
        (merkle_root compress (tree_height (?n - 2 ^ k)) (map htr (drop (2 ^ k) vs)))
      = merkle_root compress k (map htr (drop (2 ^ k) vs))"
      using fold_zero_hashes [OF assms(1) k(6), of "map htr (drop (2 ^ k) vs)"] k40
        height_fits [of "?n - 2 ^ k"] by simp
    have "2 ^ k \<le> u64_max" "?n - 2 ^ k \<le> u64_max" "offset + 2 ^ k < u64_bound"
      using CacheInternal.prems(3,4) k(3) by (simp_all add: u64_bound_power)
    then show ?thesis
      using None n k l' r' lift k40 checked_next_power_of_two_ok [OF CacheInternal.prems(2)]
        fold_zero_hash_at [of k compress]
      by (simp add: expect_def checked_sub_def checked_add_def depth_of_length_height take_map drop_map Let_def)
  qed
qed

subsection \<open>The registry as a list of validators\<close>

definition vl_inv :: "compress256 \<Rightarrow> (validator \<Rightarrow> h256) \<Rightarrow> validator_list \<Rightarrow> bool" where
  "vl_inv compress htr self \<longleftrightarrow>
     raw_wf (vl_buf self) \<and> vl_len self \<le> 2 ^ 40
     \<and> (case vl_cache self of
          None \<Rightarrow> vl_len self = 0
        | Some node \<Rightarrow> cache_ok compress htr node (vl_into_iter self))"

definition set_partial :: "partial_validator \<Rightarrow> validator \<Rightarrow> validator" where
  "set_partial p v = make_validator (val_pubkey v) (val_effective_balance v) p"

lemma length_vl_into_iter: "vl_inv compress htr l \<Longrightarrow> length (vl_into_iter l) = vl_len l"
  by (simp add: vl_inv_def vl_into_iter_def vl_len_def length_raw_into_iter)

lemma make_validator_inverse:
  "make_validator (val_pubkey v) (val_effective_balance v) (to_partial_validator v) = v"
  by (simp add: make_validator_def to_partial_validator_def)

lemma make_validator_fields [simp]:
  "val_pubkey (make_validator k b p) = k" "val_effective_balance (make_validator k b p) = b"
  "to_partial_validator (make_validator k b p) = p"
  by (simp_all add: make_validator_def to_partial_validator_def)

lemma vl_into_iter_nth:
  assumes "raw_wf (vl_buf l)" "i < vl_len l"
  shows "vl_into_iter l ! i = make_validator (pk_keys (vl_pubkeys l) ! i)
    (vl_effective_balances l ! i) (vl_partial_validators l ! i)"
  using assms
  by (simp add: vl_into_iter_def raw_into_iter_def vl_len_def raw_wf_def raw_len_def pubkeys_len_def
      vl_pubkeys_def vl_effective_balances_def vl_partial_validators_def)

text \<open>Reading through the registry reads the list.\<close>

lemma vl_get_abs: "vl_inv compress htr l \<Longrightarrow> vl_get l i = list_get (vl_into_iter l) i"
  by (simp add: vl_inv_def vl_get_def vl_into_iter_def raw_get_abs)

lemma vl_pubkey_abs: "vl_inv compress htr l \<Longrightarrow> vl_pubkey l i = map_ok val_pubkey (list_get (vl_into_iter l) i)"
  using vl_into_iter_nth [of l i] length_vl_into_iter [of compress htr l]
  by (auto simp: vl_inv_def vl_pubkey_def raw_pubkey_def raw_validate_index_def list_get_def validate_index_def
      vl_len_def pubkeys_get_def expect_def raw_len_def pubkeys_len_def vl_pubkeys_def)

lemma vl_effective_balance_abs:
  "vl_inv compress htr l \<Longrightarrow>
     vl_effective_balance l i = map_ok val_effective_balance (list_get (vl_into_iter l) i)"
  using vl_into_iter_nth [of l i] length_vl_into_iter [of compress htr l]
  by (auto simp: vl_inv_def vl_effective_balance_def raw_effective_balance_def raw_validate_index_def list_get_def validate_index_def
      vl_len_def raw_wf_def vl_effective_balances_def)

lemma vl_partial_validator_abs:
  "vl_inv compress htr l \<Longrightarrow>
     vl_partial_validator l i = map_ok to_partial_validator (list_get (vl_into_iter l) i)"
  using vl_into_iter_nth [of l i] length_vl_into_iter [of compress htr l]
  by (auto simp: vl_inv_def vl_partial_validator_def raw_partial_validator_def raw_validate_index_def list_get_def validate_index_def
      vl_len_def raw_wf_def vl_partial_validators_def)

lemma raw_into_iter_modify_balance:
  assumes "raw_wf buf" "i < raw_len buf"
  shows "raw_into_iter (buf\<lparr> rv_effective_balances := (rv_effective_balances buf)[i := b] \<rparr>)
    = (raw_into_iter buf)[i := (raw_into_iter buf ! i)\<lparr> val_effective_balance := b \<rparr>]"
  using assms
  by (intro nth_equalityI)
    (auto simp: raw_into_iter_def raw_wf_def raw_len_def pubkeys_len_def nth_list_update make_validator_def)

lemma raw_into_iter_modify_item:
  assumes "raw_wf buf" "i < raw_len buf"
  shows "raw_into_iter (buf\<lparr> rv_items := (rv_items buf)[i := p] \<rparr>)
    = (raw_into_iter buf)[i := set_partial p (raw_into_iter buf ! i)]"
  using assms
  by (intro nth_equalityI)
    (auto simp: raw_into_iter_def raw_wf_def raw_len_def pubkeys_len_def nth_list_update set_partial_def)

lemma raw_into_iter_push:
  assumes "raw_wf buf"
  shows "raw_into_iter (raw_push buf v) = raw_into_iter buf @ [v]" "raw_wf (raw_push buf v)"
  using assms
  by (simp_all add: raw_into_iter_def raw_wf_def raw_len_def pubkeys_len_def raw_push_def pubkeys_push_def
      make_validator_inverse Let_def)

lemma raw_from_iter_abs:
  "raw_into_iter (raw_from_iter vs) = vs" "raw_wf (raw_from_iter vs)" "raw_len (raw_from_iter vs) = length vs"
  by (simp_all add: raw_into_iter_def raw_from_iter_def raw_wf_def raw_len_def pubkeys_len_def
      pubkeys_from_iter_def make_validator_inverse zip_map_map zip_same_conv_map comp_def)

lemma rebuilt_cache_ok:
  assumes "raw_wf buf" "raw_len buf \<le> 2 ^ 40"
  shows "\<exists>cache. rebuilt_cache buf = Ok cache \<and> vl_inv compress htr \<lparr> vl_buf = buf, vl_cache = cache \<rparr>"
proof (cases "raw_into_iter buf = []")
  case True
  then have "raw_len buf = 0" using length_raw_into_iter [OF assms(1)] by simp
  then show ?thesis using assms by (simp add: rebuilt_cache_def vl_inv_def vl_len_def)
next
  case False
  then have "0 < raw_len buf" using length_raw_into_iter [OF assms(1)] by (metis length_greater_0_conv)
  then show ?thesis
    using assms build_empty_ok [of "raw_into_iter buf" compress htr] False length_raw_into_iter [OF assms(1)]
    by (auto simp: rebuilt_cache_def vl_inv_def vl_len_def vl_into_iter_def)
qed

subsection \<open>Operations on the registry as list operations\<close>

definition cache_good :: "compress256 \<Rightarrow> (validator \<Rightarrow> h256) \<Rightarrow> cache_node option \<Rightarrow> validator list \<Rightarrow> bool" where
  "cache_good compress htr cache vs \<longleftrightarrow>
     (case cache of None \<Rightarrow> vs = [] | Some node \<Rightarrow> cache_ok compress htr node vs)"

lemma vl_inv_cache_good:
  "vl_inv compress htr l \<longleftrightarrow>
     raw_wf (vl_buf l) \<and> vl_len l \<le> 2 ^ 40 \<and> cache_good compress htr (vl_cache l) (vl_into_iter l)"
  using length_raw_into_iter [of "vl_buf l"]
  by (auto simp: vl_inv_def cache_good_def vl_len_def vl_into_iter_def split: option.splits)

lemma invalidate_index_ok:
  assumes "vl_inv compress htr l" "i < vl_len l"
  shows "\<exists>cache. invalidate_index l i = Ok (l\<lparr> vl_cache := cache \<rparr>)
    \<and> cache_good compress htr cache ((vl_into_iter l)[i := v])"
proof (cases "vl_cache l")
  case None
  then show ?thesis using assms by (simp add: vl_inv_def)
next
  case (Some node)
  then have "cache_ok compress htr node (vl_into_iter l)" using assms by (simp add: vl_inv_def)
  from cache_invalidate_ok [OF this, of i v] show ?thesis
    using assms Some length_vl_into_iter [OF assms(1)]
    by (auto simp: invalidate_index_def cache_good_def vl_inv_def)
qed

lemma vl_effective_balance_mut_ok:
  assumes inv: "vl_inv compress htr l" and i: "i < vl_len l"
  shows "\<exists>l'. vl_effective_balance_mut l i f = Ok l' \<and> vl_inv compress htr l'
    \<and> vl_into_iter l' = (vl_into_iter l)[i := (vl_into_iter l ! i)
        \<lparr> val_effective_balance := f (val_effective_balance (vl_into_iter l ! i)) \<rparr>]"
proof -
  let ?v = "vl_into_iter l ! i" and ?buf = "vl_buf l"
  let ?v' = "?v\<lparr> val_effective_balance := f (val_effective_balance ?v) \<rparr>"
  let ?buf' = "?buf\<lparr> rv_effective_balances := (rv_effective_balances ?buf)[i := f (val_effective_balance ?v)] \<rparr>"
  have wf: "raw_wf ?buf" using inv by (simp add: vl_inv_def)
  obtain cache where cache: "invalidate_index l i = Ok (l\<lparr> vl_cache := cache \<rparr>)"
      "cache_good compress htr cache ((vl_into_iter l)[i := ?v'])"
    using invalidate_index_ok [OF inv i] by blast
  have "rv_effective_balances ?buf ! i = val_effective_balance ?v"
    using vl_into_iter_nth [OF wf i] by (simp add: vl_effective_balances_def)
  then have "raw_effective_balance_mut ?buf i f = Ok ?buf'"
    using wf i by (simp add: raw_effective_balance_mut_def raw_validate_index_def raw_wf_def vl_len_def)
  then have "vl_effective_balance_mut l i f = Ok (l\<lparr> vl_cache := cache, vl_buf := ?buf' \<rparr>)"
    using cache(1) by (simp add: vl_effective_balance_mut_def)
  moreover have "raw_into_iter ?buf' = (vl_into_iter l)[i := ?v']"
    using raw_into_iter_modify_balance [OF wf] i by (simp add: vl_len_def vl_into_iter_def)
  moreover have "raw_wf ?buf'" "raw_len ?buf' = raw_len ?buf" using wf by (simp_all add: raw_wf_def raw_len_def)
  ultimately show ?thesis
    using inv cache(2) by (simp add: vl_inv_cache_good vl_len_def vl_into_iter_def)
qed

lemma vl_partial_validator_mut_ok:
  assumes inv: "vl_inv compress htr l" and i: "i < vl_len l"
  shows "\<exists>l'. vl_partial_validator_mut l i f = Ok l' \<and> vl_inv compress htr l'
    \<and> vl_into_iter l' = (vl_into_iter l)[i :=
        set_partial (f (to_partial_validator (vl_into_iter l ! i))) (vl_into_iter l ! i)]"
proof -
  let ?v = "vl_into_iter l ! i" and ?buf = "vl_buf l"
  let ?p = "f (to_partial_validator ?v)"
  let ?buf' = "?buf\<lparr> rv_items := (rv_items ?buf)[i := ?p] \<rparr>"
  have wf: "raw_wf ?buf" using inv by (simp add: vl_inv_def)
  obtain cache where cache: "invalidate_index l i = Ok (l\<lparr> vl_cache := cache \<rparr>)"
      "cache_good compress htr cache ((vl_into_iter l)[i := set_partial ?p ?v])"
    using invalidate_index_ok [OF inv i] by blast
  have "rv_items ?buf ! i = to_partial_validator ?v"
    using vl_into_iter_nth [OF wf i] by (simp add: vl_partial_validators_def)
  then have "raw_partial_validator_mut ?buf i f = Ok ?buf'"
    using wf i by (simp add: raw_partial_validator_mut_def raw_validate_index_def raw_wf_def vl_len_def)
  then have "vl_partial_validator_mut l i f = Ok (l\<lparr> vl_cache := cache, vl_buf := ?buf' \<rparr>)"
    using cache(1) by (simp add: vl_partial_validator_mut_def)
  moreover have "raw_into_iter ?buf' = (vl_into_iter l)[i := set_partial ?p ?v]"
    using raw_into_iter_modify_item [OF wf] i by (simp add: vl_len_def vl_into_iter_def)
  moreover have "raw_wf ?buf'" "raw_len ?buf' = raw_len ?buf" using wf by (simp_all add: raw_wf_def raw_len_def)
  ultimately show ?thesis
    using inv cache(2) by (simp add: vl_inv_cache_good vl_len_def vl_into_iter_def)
qed

lemma vl_push_ok:
  assumes inv: "vl_inv compress htr l" and N: "vl_len l + 1 < N" "N \<le> 2 ^ 40"
  shows "\<exists>l'. vl_push N l v = Ok l' \<and> vl_inv compress htr l' \<and> vl_into_iter l' = vl_into_iter l @ [v]"
proof -
  have wf: "raw_wf (vl_buf l)" using inv by (simp add: vl_inv_def)
  note push = raw_into_iter_push [OF wf, of v]
  have len: "raw_len (raw_push (vl_buf l) v) = Suc (vl_len l)"
    using length_raw_into_iter push length_vl_into_iter [OF inv] by (metis length_append_singleton vl_into_iter_def)
  have fits: "\<not> saturating_usize N \<le> saturating_add (vl_len l) 1"
    using N by (simp add: saturating_usize_def saturating_add_def)
  show ?thesis
  proof (cases "vl_cache l")
    case None
    then have "vl_into_iter l = []" using inv length_vl_into_iter [OF inv] by (simp add: vl_inv_def)
    then show ?thesis
      using None push len fits N
      by (simp add: vl_push_def Let_def vl_inv_def vl_len_def vl_into_iter_def empty_leaf_def)
  next
    case (Some node)
    then have "cache_ok compress htr node (vl_into_iter l)" using inv by (simp add: vl_inv_def)
    from push_leaf_ok [OF this, of v] show ?thesis
      using Some push len fits N length_vl_into_iter [OF inv]
      by (auto simp: vl_push_def Let_def vl_inv_def vl_len_def vl_into_iter_def)
  qed
qed

lemma vl_push_full: "N \<le> vl_len l + 1 \<Longrightarrow> N \<le> 2 ^ 40 \<Longrightarrow> vl_push N l v = Err (Push ListFull)"
  by (simp add: vl_push_def Let_def saturating_usize_def saturating_add_def min_def)

lemma vl_try_from_iter_ok:
  assumes "length vs \<le> N" "N \<le> 2 ^ 40"
  shows "\<exists>l. vl_try_from_iter N vs = Ok l \<and> vl_inv compress htr l \<and> vl_into_iter l = vs"
  using assms rebuilt_cache_ok [of "raw_from_iter vs" compress htr]
  by (auto simp: vl_try_from_iter_def Let_def raw_from_iter_abs saturating_usize_def vl_into_iter_def)

text \<open>The update of the effective balances with a closure that may fail and carries a state.\<close>

fun update_balances :: "('s \<Rightarrow> partial_validator \<Rightarrow> gwei \<Rightarrow> ('s \<times> gwei) res) \<Rightarrow> validator list \<Rightarrow> 's
    \<Rightarrow> (validator list \<times> 's) res" where
  "update_balances updater [] s = Ok ([], s)"
| "update_balances updater (v # vs) s =
     and_then (updater s (to_partial_validator v) (val_effective_balance v)) (\<lambda>(s, new).
     and_then (update_balances updater vs s) (\<lambda>(ws, s).
     Ok (v\<lparr> val_effective_balance := new \<rparr> # ws, s)))"

lemma update_balances_length: "update_balances updater vs s = Ok (ws, s') \<Longrightarrow> length ws = length vs"
  by (induction vs arbitrary: s ws) (auto simp: res_simps split: prod.splits)

lemma update_balances_keeps:
  "update_balances updater vs s = Ok (ws, s') \<Longrightarrow>
     map val_pubkey ws = map val_pubkey vs \<and> map to_partial_validator ws = map to_partial_validator vs"
  by (induction vs arbitrary: s ws) (auto simp: res_simps to_partial_validator_def split: prod.splits)

lemma update_balances_loop_ok:
  assumes "cache_good compress htr c (pre @ vs)" "length (pre @ vs) \<le> 2 ^ 40"
  defines "invalidate \<equiv> \<lambda>index len cache.
      case cache of None \<Rightarrow> Ok None | Some node \<Rightarrow> map_ok Some (cache_invalidate node index len)"
  shows "\<exists>c'. update_balances_loop updater invalidate (length (pre @ vs)) (length pre)
      (map to_partial_validator vs) (map val_effective_balance vs) s c
    = and_then (update_balances updater vs s) (\<lambda>(ws, s). Ok (map val_effective_balance ws, s, c'))
    \<and> (\<forall>ws s'. update_balances updater vs s = Ok (ws, s') \<longrightarrow> cache_good compress htr c' (pre @ ws))"
  using assms(1,2)
proof (induction vs arbitrary: pre s c)
  case Nil
  then show ?case by auto
next
  case (Cons v vs)
  show ?case
  proof (cases "updater s (to_partial_validator v) (val_effective_balance v)")
    case (Ok r)
    obtain t new where r: "r = (t, new)" by (cases r)
    let ?v = "v\<lparr> val_effective_balance := new \<rparr>" and ?n = "length (pre @ v # vs)"
    have "\<exists>d. (if new = val_effective_balance v then Ok c else invalidate (length pre) ?n c) = Ok d
        \<and> cache_good compress htr d ((pre @ [?v]) @ vs)"
    proof (cases "new = val_effective_balance v")
      case True
      then show ?thesis using Cons.prems by simp
    next
      case False
      obtain node where node: "c = Some node" "cache_ok compress htr node (pre @ v # vs)"
        using Cons.prems(1) by (auto simp: cache_good_def split: option.splits)
      have "(pre @ v # vs)[length pre := ?v] = (pre @ [?v]) @ vs" by simp
      then show ?thesis
        using cache_invalidate_ok [OF node(2) Cons.prems(2), of "length pre" ?v] False node(1)
        by (auto simp: invalidate_def cache_good_def)
    qed
    then obtain d where d: "(if new = val_effective_balance v then Ok c else invalidate (length pre) ?n c) = Ok d"
        "cache_good compress htr d ((pre @ [?v]) @ vs)"
      by blast
    obtain c' where c': "update_balances_loop updater invalidate (length ((pre @ [?v]) @ vs)) (length (pre @ [?v]))
          (map to_partial_validator vs) (map val_effective_balance vs) t d
        = and_then (update_balances updater vs t) (\<lambda>(ws, s). Ok (map val_effective_balance ws, s, c'))"
        "\<forall>ws s'. update_balances updater vs t = Ok (ws, s') \<longrightarrow> cache_good compress htr c' ((pre @ [?v]) @ ws)"
      using Cons.IH [OF d(2), of t] Cons.prems(2) by auto
    show ?thesis
      using Ok r d(1) c'
      by (intro exI [of _ c']) (cases "update_balances updater vs t", auto)
  next
    case (Err e)
    then show ?thesis by simp
  next
    case Panic
    then show ?thesis by simp
  qed
qed

lemma raw_lists_of_abs:
  assumes "raw_wf buf"
  shows "map to_partial_validator (raw_into_iter buf) = rv_items buf"
    "map val_effective_balance (raw_into_iter buf) = rv_effective_balances buf"
    "map val_pubkey (raw_into_iter buf) = pk_keys (rv_pubkeys buf)"
  using assms
  by (auto simp: raw_into_iter_def raw_wf_def raw_len_def pubkeys_len_def intro!: nth_equalityI)

lemma raw_into_iter_balances:
  assumes "raw_wf buf" "map val_pubkey ws = pk_keys (rv_pubkeys buf)"
    "map to_partial_validator ws = rv_items buf"
  shows "raw_into_iter (buf\<lparr> rv_effective_balances := map val_effective_balance ws \<rparr>) = ws"
  using assms
  by (auto simp: raw_into_iter_def zip_map_map zip_same_conv_map make_validator_inverse comp_def
      simp flip: assms(2,3))

lemma vl_update_effective_balances_ok:
  assumes inv: "vl_inv compress htr l"
  shows "map_ok (\<lambda>(l', s'). (vl_into_iter l', s')) (vl_update_effective_balances l updater s)
      = update_balances updater (vl_into_iter l) s"
    and "vl_update_effective_balances l updater s = Ok (l', s') \<Longrightarrow> vl_inv compress htr l'"
proof -
  let ?vs = "vl_into_iter l" and ?buf = "vl_buf l"
  let ?new = "\<lambda>ws. ?buf\<lparr> rv_effective_balances := map val_effective_balance ws \<rparr>"
  have wf: "raw_wf ?buf" and good: "cache_good compress htr (vl_cache l) ([] @ ?vs)"
    and len: "length ([] @ ?vs) \<le> 2 ^ 40"
    using inv length_vl_into_iter [OF inv] by (simp_all add: vl_inv_cache_good)
  obtain c' where c': "vl_update_effective_balances l updater s
        = and_then (update_balances updater ?vs s) (\<lambda>(ws, s). Ok (\<lparr> vl_buf = ?new ws, vl_cache = c' \<rparr>, s))"
      "\<forall>ws s'. update_balances updater ?vs s = Ok (ws, s') \<longrightarrow> cache_good compress htr c' ws"
    using update_balances_loop_ok [OF good len, of updater s] raw_lists_of_abs [OF wf] length_raw_into_iter [OF wf]
    by (cases "update_balances updater ?vs s")
      (auto simp: vl_update_effective_balances_def raw_update_effective_balances_def vl_into_iter_def)
  have ws: "raw_into_iter (?new ws) = ws \<and> raw_wf (?new ws) \<and> raw_len (?new ws) = raw_len ?buf"
    if up: "update_balances updater ?vs s = Ok (ws, t)" for ws t
  proof -
    have "length ws = raw_len ?buf"
      using update_balances_length [OF up] length_raw_into_iter [OF wf] by (simp add: vl_into_iter_def)
    then show ?thesis
      using raw_into_iter_balances [OF wf] update_balances_keeps [OF up] raw_lists_of_abs [OF wf] wf
      by (simp add: vl_into_iter_def raw_wf_def raw_len_def)
  qed
  show "map_ok (\<lambda>(l', s'). (vl_into_iter l', s')) (vl_update_effective_balances l updater s)
      = update_balances updater ?vs s"
    using c'(1) ws by (cases "update_balances updater ?vs s") (auto simp: vl_into_iter_def)
  show "vl_inv compress htr l'" if "vl_update_effective_balances l updater s = Ok (l', s')"
    using that c' ws inv
    by (cases "update_balances updater ?vs s") (auto simp: vl_inv_cache_good vl_len_def vl_into_iter_def)
qed

subsection \<open>Sequences of operations\<close>

datatype registry_op =
    ModifyPartial nat "partial_validator \<Rightarrow> partial_validator"
  | ModifyEffectiveBalance nat "gwei \<Rightarrow> gwei"
  | UpdateEffectiveBalances "partial_validator \<Rightarrow> gwei \<Rightarrow> gwei res"
  | PushValidator validator
  | HashTreeRoot

fun registry_apply ::
  "compress256 \<Rightarrow> (validator \<Rightarrow> h256) \<Rightarrow> nat \<Rightarrow> registry_op \<Rightarrow> validator_list \<Rightarrow> validator_list res" where
  "registry_apply compress htr N (ModifyPartial i f) l = vl_partial_validator_mut l i f"
| "registry_apply compress htr N (ModifyEffectiveBalance i f) l = vl_effective_balance_mut l i f"
| "registry_apply compress htr N (UpdateEffectiveBalances f) l =
     map_ok fst (vl_update_effective_balances l (\<lambda>s p b. map_ok (\<lambda>new. ((), new)) (f p b)) ())"
| "registry_apply compress htr N (PushValidator v) l = vl_push N l v"
| "registry_apply compress htr N HashTreeRoot l = map_ok fst (vl_hash_tree_root compress htr N l)"

text \<open>The same operations on a list of validators.\<close>

fun registry_spec :: "nat \<Rightarrow> registry_op \<Rightarrow> validator list \<Rightarrow> validator list res" where
  "registry_spec N (ModifyPartial i f) vs =
     list_modify vs i (\<lambda>v. set_partial (f (to_partial_validator v)) v)"
| "registry_spec N (ModifyEffectiveBalance i f) vs =
     list_modify vs i (\<lambda>v. v\<lparr> val_effective_balance := f (val_effective_balance v) \<rparr>)"
| "registry_spec N (UpdateEffectiveBalances f) vs =
     try_map (\<lambda>v. map_ok (\<lambda>new. v\<lparr> val_effective_balance := new \<rparr>)
       (f (to_partial_validator v) (val_effective_balance v))) vs"
| "registry_spec N (PushValidator v) vs =
     (if length vs + 1 < N then Ok (vs @ [v]) else Err (Push ListFull))"
| "registry_spec N HashTreeRoot vs = Ok vs"

definition validators_root :: "compress256 \<Rightarrow> (validator \<Rightarrow> h256) \<Rightarrow> nat \<Rightarrow> validator list \<Rightarrow> h256" where
  "validators_root compress htr N vs =
     mix_in_length compress (merkle_root compress (tree_height N) (map htr vs)) (length vs)"

lemma height_mono: "m \<le> n \<Longrightarrow> tree_height m \<le> tree_height n"
  by (rule height_least) (use height_fits [of n] in linarith)

lemma vl_hash_tree_root_ok:
  assumes inv: "vl_inv compress htr l" and chain: "zero_hash_chain compress"
    and N: "vl_len l \<le> N" "N \<le> 2 ^ 40"
  shows "\<exists>l'. vl_hash_tree_root compress htr N l = Ok (l', validators_root compress htr N (vl_into_iter l))
    \<and> vl_inv compress htr l' \<and> vl_into_iter l' = vl_into_iter l"
proof -
  let ?vs = "vl_into_iter l"
  have wf: "raw_wf (vl_buf l)" using inv by (simp add: vl_inv_def)
  have len: "length ?vs = vl_len l" by (rule length_vl_into_iter [OF inv])
  have d: "tree_height N \<le> 40" using height_least N(2) by blast
  have max: "vl_max_depth N = Ok (tree_height N)"
    using depth_of_length_height [of N] N(2) by (simp add: vl_max_depth_def depth_of_length_def usize_ilog2_ceil_eq)
  show ?thesis
  proof (cases "vl_len l = 0")
    case True
    then show ?thesis
      using inv max d len merkle_root_Nil [OF chain d]
      by (simp add: vl_hash_tree_root_def validators_root_def zero_hash_at_def)
  next
    case False
    then obtain node where node: "vl_cache l = Some node" "cache_ok compress htr node ?vs"
      using inv by (auto simp: vl_inv_def split: option.splits)
    obtain node' where node': "cache_hash compress htr node (vl_buf l) (vl_len l) 0
        = Ok (node', merkle_root compress (tree_height (vl_len l)) (map htr ?vs))" "cache_ok compress htr node' ?vs"
      using cache_hash_ok [OF chain wf node(2), of 0] len N by (auto simp: vl_into_iter_def vl_len_def)
    have "fold (\<lambda>k hash. hash_256_256 compress hash (ZERO_HASHES ! k)) [tree_height (vl_len l)..<tree_height N]
        (merkle_root compress (tree_height (vl_len l)) (map htr ?vs)) = merkle_root compress (tree_height N) (map htr ?vs)"
      using fold_zero_hashes [OF chain height_mono [OF N(1)] d, of "map htr ?vs"] height_fits [of "vl_len l"] len by simp
    then show ?thesis
      using False node node' max d len inv N
      by (simp add: vl_hash_tree_root_def validators_root_def vl_depth_def depth_of_length_height expect_def
          fold_zero_hash_at vl_inv_def vl_len_def vl_into_iter_def)
  qed
qed

lemma update_balances_pure:
  "map_ok fst (update_balances (\<lambda>s p b. map_ok (\<lambda>new. ((), new)) (f p b)) vs ())
     = registry_spec N (UpdateEffectiveBalances f) vs"
proof (induction vs)
  case (Cons v vs)
  show ?case
    using Cons.IH [symmetric]
    by (cases "f (to_partial_validator v) (val_effective_balance v)";
        cases "update_balances (\<lambda>s p b. map_ok (\<lambda>new. ((), new)) (f p b)) vs ()") auto
qed simp

lemma registry_apply_ok:
  assumes chain: "zero_hash_chain compress" and N: "N \<le> 2 ^ 40"
    and inv: "vl_inv compress htr l \<and> vl_len l \<le> N"
  shows "map_ok vl_into_iter (registry_apply compress htr N p l) = registry_spec N p (vl_into_iter l)"
    and "registry_apply compress htr N p l = Ok l' \<Longrightarrow> vl_inv compress htr l' \<and> vl_len l' \<le> N"
proof -
  have i: "vl_inv compress htr l" and len: "length (vl_into_iter l) = vl_len l" "vl_len l \<le> N"
    using inv length_vl_into_iter by blast+
  have "map_ok vl_into_iter (registry_apply compress htr N p l) = registry_spec N p (vl_into_iter l)
    \<and> (\<forall>l'. registry_apply compress htr N p l = Ok l' \<longrightarrow> vl_inv compress htr l' \<and> length (vl_into_iter l') \<le> N)"
  proof (cases p)
    case (ModifyPartial j f)
    show ?thesis
    proof (cases "j < vl_len l")
      case True
      then show ?thesis
        using vl_partial_validator_mut_ok [OF i True, of f] ModifyPartial len
        by (auto simp: list_modify_ok)
    next
      case False
      then show ?thesis
        using ModifyPartial len
        by (simp add: vl_partial_validator_mut_def invalidate_index_def Let_def raw_partial_validator_mut_def
            raw_validate_index_def list_modify_def validate_index_def vl_len_def)
    qed
  next
    case (ModifyEffectiveBalance j f)
    show ?thesis
    proof (cases "j < vl_len l")
      case True
      then show ?thesis
        using vl_effective_balance_mut_ok [OF i True, of f] ModifyEffectiveBalance len
        by (auto simp: list_modify_ok)
    next
      case False
      then show ?thesis
        using ModifyEffectiveBalance len
        by (simp add: vl_effective_balance_mut_def invalidate_index_def Let_def raw_effective_balance_mut_def
            raw_validate_index_def list_modify_def validate_index_def vl_len_def)
    qed
  next
    case (UpdateEffectiveBalances f)
    let ?u = "\<lambda>s p b. map_ok (\<lambda>new. ((), new)) (f p b)"
    note up = vl_update_effective_balances_ok [OF i, of ?u "()"]
    have "map_ok vl_into_iter (map_ok fst (vl_update_effective_balances l ?u ()))
        = map_ok fst (update_balances ?u (vl_into_iter l) ())"
      unfolding up(1) [symmetric]
      by (cases "vl_update_effective_balances l ?u ()") auto
    moreover have "length (vl_into_iter l') = vl_len l"
      if "vl_update_effective_balances l ?u () = Ok (l', s')" for l' s'
      using up(1) that len(1) update_balances_length [of ?u "vl_into_iter l" "()"] by simp
    ultimately show ?thesis
      using up(2) UpdateEffectiveBalances update_balances_pure [of f "vl_into_iter l" N] len
      by (auto simp: res_simps)
  next
    case (PushValidator v)
    show ?thesis
    proof (cases "vl_len l + 1 < N")
      case True
      then show ?thesis using vl_push_ok [OF i True N, of v] PushValidator len by auto
    next
      case False
      then show ?thesis using vl_push_full [of N l v] PushValidator len N by simp
    qed
  next
    case HashTreeRoot
    then show ?thesis using vl_hash_tree_root_ok [OF i chain len(2) N] len by auto
  qed
  then show "map_ok vl_into_iter (registry_apply compress htr N p l) = registry_spec N p (vl_into_iter l)"
    and "registry_apply compress htr N p l = Ok l' \<Longrightarrow> vl_inv compress htr l' \<and> vl_len l' \<le> N"
    using length_vl_into_iter by (blast, metis)
qed

definition registry_inv :: "compress256 \<Rightarrow> (validator \<Rightarrow> h256) \<Rightarrow> nat \<Rightarrow> validator_list \<Rightarrow> bool" where
  "registry_inv compress htr N l \<longleftrightarrow> vl_inv compress htr l \<and> vl_len l \<le> N"

locale registry_params =
  fixes compress :: compress256 and htr :: "validator \<Rightarrow> h256" and N :: nat
  assumes chain: "zero_hash_chain compress" and limit: "N \<le> 2 ^ 40"
begin

sublocale ops: refining "registry_inv compress htr N" "registry_apply compress htr N" vl_into_iter "registry_spec N"
  by unfold_locales (unfold registry_inv_def, fact registry_apply_ok(2) [OF chain limit],
      fact registry_apply_ok(1) [OF chain limit])

lemma run_from_iter:
  assumes "length vs \<le> N"
  shows "map_ok vl_into_iter (and_then (vl_try_from_iter N vs) (try_fold (registry_apply compress htr N) ps))
    = try_fold (registry_spec N) ps vs"
proof -
  obtain l where "vl_try_from_iter N vs = Ok l" "vl_inv compress htr l" "vl_into_iter l = vs"
    using vl_try_from_iter_ok [OF assms limit] by blast
  then show ?thesis
    using ops.fold_abs [of l ps] length_vl_into_iter [of compress htr l] assms by (simp add: registry_inv_def)
qed

lemma root_after_run:
  assumes "length vs \<le> N"
    and "and_then (vl_try_from_iter N vs) (try_fold (registry_apply compress htr N) ps) = Ok l"
  shows "map_ok snd (vl_hash_tree_root compress htr N l) = Ok (validators_root compress htr N (vl_into_iter l))"
proof -
  obtain k where "vl_try_from_iter N vs = Ok k" "vl_inv compress htr k" "vl_into_iter k = vs"
    using vl_try_from_iter_ok [OF assms(1) limit] by blast
  then have "registry_inv compress htr N l"
    using ops.fold_preserves [of k ps l] assms length_vl_into_iter [of compress htr k] by (simp add: registry_inv_def)
  then show ?thesis
    using vl_hash_tree_root_ok [OF _ chain _ limit, of htr l] by (auto simp: registry_inv_def)
qed

end

interpretation table_registry: registry_params compress_table "\<lambda>v. val_withdrawal_credentials v" "2 ^ 40"
  by unfold_locales (simp_all add: zero_hash_chain_compress_table)

text \<open>
  C3. The validator registry with its cache of subtree hashes refines a plain list of validators.
  Starting from any list of validators that fits, every sequence of writes through the mutable
  accessors, whole-registry balance updates, pushes and root computations gives the list (or the
  error) that the same sequence gives on the plain list.  Whenever it succeeds, the root computed
  from whatever the cache holds is the Merkle root of that list, mixed with its length.
\<close>

theorem validator_list_refines_list:
  assumes "zero_hash_chain compress" "N \<le> 2 ^ 40" "length vs \<le> N"
  shows "(let run = and_then (vl_try_from_iter N vs) (try_fold (registry_apply compress htr N) ps)
    in map_ok vl_into_iter run = try_fold (registry_spec N) ps vs
      \<and> (\<forall>l. run = Ok l \<longrightarrow>
           map_ok snd (vl_hash_tree_root compress htr N l)
             = Ok (validators_root compress htr N (vl_into_iter l))))"
proof -
  have params: "registry_params compress N" using assms by unfold_locales
  show ?thesis
    unfolding Let_def
    using registry_params.run_from_iter [OF params assms(3)]
      registry_params.root_after_run [OF params assms(3)] by blast
qed

definition sample_validator :: "nat \<Rightarrow> validator" where
  "sample_validator k =
     \<lparr> val_pubkey = replicate 48 (of_nat k), val_withdrawal_credentials = replicate 32 1,
       val_effective_balance = 32000000000, val_slashed = False,
       val_activation_eligibility_epoch = 0, val_activation_epoch = 0,
       val_exit_epoch = 18446744073709551615, val_withdrawable_epoch = 18446744073709551615 \<rparr>"

theorem validator_list_refines_list_witness:
  "zero_hash_chain compress_table
    \<and> map_ok vl_into_iter (and_then (vl_try_from_iter (2 ^ 40) [sample_validator 1])
        (try_fold (registry_apply compress_table val_withdrawal_credentials (2 ^ 40))
           [HashTreeRoot, PushValidator (sample_validator 2),
            ModifyEffectiveBalance 0 (\<lambda>b. b + 1)]))
      = Ok [(sample_validator 1)\<lparr> val_effective_balance := 32000000001 \<rparr>, sample_validator 2]"
  using validator_list_refines_list [unfolded Let_def, THEN conjunct1, OF zero_hash_chain_compress_table, of "2 ^ 40" "[sample_validator 1]"
      val_withdrawal_credentials
      "[HashTreeRoot, PushValidator (sample_validator 2), ModifyEffectiveBalance 0 (\<lambda>b. b + 1)]"]
    zero_hash_chain_compress_table
  by (simp add: Let_def list_modify_def validate_index_def sample_validator_def)

subsection \<open>The index of public keys\<close>

text \<open>
  Every key of the list that has not been cleared is in the map under its index.  The map may
  hold further entries.
\<close>

definition pubkeys_ok :: "pubkey_list \<Rightarrow> bool" where
  "pubkeys_ok self \<longleftrightarrow>
     (\<forall>i < length (pk_keys self). pk_keys self ! i \<noteq> pubkey_zero \<longrightarrow>
        pk_index_map self (pk_keys self ! i) = Some i)"

lemma index_of_ok:
  assumes "pubkeys_ok self" "pubkey \<noteq> pubkey_zero"
  shows "index_of self pubkey = Some i \<longleftrightarrow> i < length (pk_keys self) \<and> pk_keys self ! i = pubkey"
proof
  assume "index_of self pubkey = Some i"
  then show "i < length (pk_keys self) \<and> pk_keys self ! i = pubkey"
    by (auto simp: index_of_def split: option.splits if_splits)
next
  assume i: "i < length (pk_keys self) \<and> pk_keys self ! i = pubkey"
  then have "pk_index_map self pubkey = Some i" using assms by (auto simp: pubkeys_ok_def)
  then show "index_of self pubkey = Some i" using i by (simp add: index_of_def)
qed

lemma insert_indices_simps [simp]:
  "insert_indices n [] m = m"
  "insert_indices n (k # ks) m = insert_indices (Suc n) ks (m(k \<mapsto> n))"
  by (simp_all add: insert_indices_def)

lemma insert_indices_notin: "k \<notin> set ks \<Longrightarrow> insert_indices n ks m k = m k"
  by (induction ks arbitrary: n m) simp_all

lemma insert_indices_nth:
  "distinct ks \<Longrightarrow> j < length ks \<Longrightarrow> insert_indices n ks m (ks ! j) = Some (n + j)"
proof (induction ks arbitrary: n m j)
  case (Cons a ks)
  then show ?case by (cases j) (simp_all add: insert_indices_notin)
qed simp

lemma pubkeys_from_iter_ok: "distinct ks \<Longrightarrow> pubkeys_ok (pubkeys_from_iter ks)"
  by (simp add: pubkeys_ok_def pubkeys_from_iter_def insert_indices_nth)

lemma pubkeys_push_ok:
  assumes "pubkeys_ok self" "pubkey \<notin> set (pk_keys self) \<or> pubkey = pubkey_zero"
  shows "pubkeys_ok (pubkeys_push self pubkey)"
  using assms by (auto simp: pubkeys_ok_def pubkeys_push_def Let_def nth_append less_Suc_eq)

lemma pubkeys_extend_keys:
  "pk_keys (fold (\<lambda>(i, k) l. \<lparr> pk_keys = pk_keys l @ [k], pk_index_map = (pk_index_map l)(k \<mapsto> i) \<rparr>)
     (enumerate n ks) self) = pk_keys self @ ks"
  "pk_index_map (fold (\<lambda>(i, k) l. \<lparr> pk_keys = pk_keys l @ [k], pk_index_map = (pk_index_map l)(k \<mapsto> i) \<rparr>)
     (enumerate n ks) self) = insert_indices n ks (pk_index_map self)"
  by (induction ks arbitrary: n self) simp_all

lemma pubkeys_extend_ok:
  assumes "pubkeys_ok self" "distinct ks" "set ks \<inter> set (pk_keys self) = {}"
  shows "pubkeys_ok (pubkeys_extend self ks)"
  using assms insert_indices_nth [OF assms(2), of _ "length (pk_keys self)"]
  by (auto simp: pubkeys_ok_def pubkeys_extend_def Let_def pubkeys_extend_keys nth_append disjoint_iff)
    (metis insert_indices_notin nth_mem)

lemma pubkeys_ok_distinct:
  "pubkeys_ok self \<Longrightarrow> pubkey_zero \<notin> set (pk_keys self) \<Longrightarrow> distinct (pk_keys self)"
  by (metis distinct_conv_nth nth_mem option.inject pubkeys_ok_def)

lemma clear_prefix_ok:
  assumes "pubkeys_ok self" "count \<le> length (pk_keys self)"
  shows "\<exists>cleared. clear_prefix self count = Ok cleared
    \<and> pk_keys cleared = replicate count pubkey_zero @ drop count (pk_keys self)
    \<and> pubkeys_ok cleared"
  using assms
  by (auto simp: clear_prefix_def vec_slice_def pubkeys_ok_def nth_append)

lemma cleared_prefix_len_ok:
  assumes "finds_partition_point search" "pubkey_zero \<notin> set tail"
    and "pk_keys self = replicate count pubkey_zero @ tail"
  shows "cleared_prefix_len search self = Ok count"
proof -
  have "search (\<lambda>key. if key = pubkey_zero then Less else Greater) (pk_keys self) = Err count"
    using assms unfolding finds_partition_point_def
    by (elim allE [of _ "\<lambda>key. if key = pubkey_zero then Less else Greater"] allE [of _ "pk_keys self"]
        allE [of _ count] mp) (auto simp: nth_append, metis add.commute less_diff_conv2 nth_mem)
  then show ?thesis by (simp add: cleared_prefix_len_def)
qed

lemma restore_prefix_ok:
  assumes "pubkeys_ok source" "count \<le> length (pk_keys source)"
    and keys: "pk_keys self = replicate count pubkey_zero @ tail"
    and "distinct (take count (pk_keys source) @ tail)" "count \<noteq> 0 \<or> pubkeys_ok self"
  shows "\<exists>restored. restore_prefix self source count = Ok restored
    \<and> pk_keys restored = take count (pk_keys source) @ tail \<and> pubkeys_ok restored"
proof (cases "count = 0")
  case True
  then show ?thesis using assms by (simp add: restore_prefix_def)
next
  case False
  let ?m = "insert_indices count tail (pk_index_map source)"
  let ?r = "\<lparr> pk_keys = take count (pk_keys source) @ tail, pk_index_map = ?m \<rparr>"
  have "restore_prefix self source count = Ok ?r"
    using False keys assms(2) by (simp add: restore_prefix_def vec_slice_def)
  moreover have "pubkeys_ok ?r"
    unfolding pubkeys_ok_def
  proof (intro allI impI)
    fix i assume i: "i < length (pk_keys ?r)" "pk_keys ?r ! i \<noteq> pubkey_zero"
    show "pk_index_map ?r (pk_keys ?r ! i) = Some i"
    proof (cases "i < count")
      case True
      then have "pk_keys source ! i \<notin> set tail"
        using assms(2,4) by (metis disjoint_iff distinct_append in_set_conv_nth length_take min.absorb2 nth_take)
      then show ?thesis
        using True i assms(1,2) by (simp add: nth_append insert_indices_notin pubkeys_ok_def)
    next
      case False
      then show ?thesis
        using i assms(2,4) insert_indices_nth [of tail "i - count" count] by (simp add: nth_append min.absorb2)
    qed
  qed
  ultimately show ?thesis by simp
qed

definition registry_pubkeys_ok :: "validator_list \<Rightarrow> bool" where
  "registry_pubkeys_ok l \<longleftrightarrow> pubkeys_ok (vl_pubkeys l) \<and> pubkey_zero \<notin> set (pk_keys (vl_pubkeys l))"

lemma index_of_absent: "pubkey \<notin> set (pk_keys self) \<Longrightarrow> index_of self pubkey = None"
  by (auto simp: index_of_def split: option.splits)

lemma vl_clear_pubkeys_ok:
  assumes inv: "vl_inv compress htr l" and ok: "pubkeys_ok (vl_pubkeys l)" and count: "count \<le> vl_len l"
  shows "\<exists>cleared pk. vl_clear_pubkeys l count = Ok cleared \<and> vl_inv compress htr cleared
    \<and> vl_buf cleared = (vl_buf l)\<lparr> rv_pubkeys := pk \<rparr>
    \<and> pk_keys pk = replicate count pubkey_zero @ drop count (pk_keys (vl_pubkeys l)) \<and> pubkeys_ok pk"
proof -
  have wf: "raw_wf (vl_buf l)" and len: "raw_len (vl_buf l) \<le> 2 ^ 40" using inv by (simp_all add: vl_inv_def vl_len_def)
  have keys: "count \<le> length (pk_keys (vl_pubkeys l))"
    using count by (simp add: vl_len_def raw_len_def pubkeys_len_def vl_pubkeys_def)
  obtain pk where pk: "raw_clear_pubkeys (vl_buf l) count = Ok ((vl_buf l)\<lparr> rv_pubkeys := pk \<rparr>)"
      "pk_keys pk = replicate count pubkey_zero @ drop count (pk_keys (vl_pubkeys l))" "pubkeys_ok pk"
  proof (cases "count = 0")
    case True
    then show ?thesis using that [of "rv_pubkeys (vl_buf l)"] ok by (simp add: raw_clear_pubkeys_def vl_pubkeys_def)
  next
    case False
    then show ?thesis
      using that clear_prefix_ok [OF ok keys] count
      by (auto simp: raw_clear_pubkeys_def vl_pubkeys_def vl_len_def min_def)
  qed
  let ?buf = "(vl_buf l)\<lparr> rv_pubkeys := pk \<rparr>"
  have "raw_wf ?buf" "raw_len ?buf \<le> 2 ^ 40"
    using wf len pk(2) keys by (simp_all add: raw_wf_def raw_len_def pubkeys_len_def vl_pubkeys_def)
  from rebuilt_cache_ok [OF this, of compress htr] obtain cache where
    "rebuilt_cache ?buf = Ok cache" "vl_inv compress htr \<lparr> vl_buf = ?buf, vl_cache = cache \<rparr>" by blast
  then show ?thesis using pk by (auto simp: vl_clear_pubkeys_def)
qed

lemma vl_restore_pubkeys_ok:
  assumes inv: "vl_inv compress htr l" and len: "cleared_prefix_len search (vl_pubkeys l) = Ok count"
    and restore: "restore_prefix (vl_pubkeys l) source count = Ok pk" "count \<le> pubkeys_len source"
    and keys: "length (pk_keys pk) = length (pk_keys (vl_pubkeys l))"
  shows "\<exists>restored. vl_restore_pubkeys search l source = Ok restored \<and> vl_inv compress htr restored
    \<and> vl_buf restored = (vl_buf l)\<lparr> rv_pubkeys := pk \<rparr>"
proof -
  let ?buf = "(vl_buf l)\<lparr> rv_pubkeys := pk \<rparr>"
  have raw: "raw_restore_pubkeys search (vl_buf l) source = Ok ?buf"
    using len restore by (simp add: raw_restore_pubkeys_def vl_pubkeys_def)
  have "raw_wf ?buf" "raw_len ?buf \<le> 2 ^ 40"
    using inv keys by (simp_all add: vl_inv_def vl_len_def raw_wf_def raw_len_def pubkeys_len_def vl_pubkeys_def)
  from rebuilt_cache_ok [OF this, of compress htr] obtain cache where
    "rebuilt_cache ?buf = Ok cache" "vl_inv compress htr \<lparr> vl_buf = ?buf, vl_cache = cache \<rparr>" by blast
  then show ?thesis using raw by (auto simp: vl_restore_pubkeys_def)
qed

text \<open>
  C22. Dropping the public keys of a prefix of the registry and restoring them from another
  registry that starts with the same keys is a round trip.  While they are dropped, no dropped
  key is found by \<open>index_of\<close> although the map still holds its entry; after the restore, the list
  of validators is the original one and every key is found at its index.
\<close>

theorem clear_restore_pubkeys_roundtrip:
  assumes "finds_partition_point search" "vl_inv compress htr l" "registry_pubkeys_ok l"
    and "pubkeys_ok source" "count \<le> vl_len l" "count \<le> pubkeys_len source"
    and "take count (pk_keys source) = take count (pk_keys (vl_pubkeys l))"
  shows "\<exists>cleared restored. vl_clear_pubkeys l count = Ok cleared
    \<and> (\<forall>i < count. index_of (vl_pubkeys cleared) (pk_keys (vl_pubkeys l) ! i) = None)
    \<and> vl_restore_pubkeys search cleared source = Ok restored
    \<and> vl_into_iter restored = vl_into_iter l
    \<and> (\<forall>i < vl_len l. index_of (vl_pubkeys restored) (pk_keys (vl_pubkeys l) ! i) = Some i)"
proof -
  let ?keys = "pk_keys (vl_pubkeys l)"
  have ok: "pubkeys_ok (vl_pubkeys l)" and nz: "pubkey_zero \<notin> set ?keys"
    using assms(3) by (simp_all add: registry_pubkeys_ok_def)
  have dist: "distinct ?keys" by (rule pubkeys_ok_distinct [OF ok nz])
  have count: "count \<le> length ?keys"
    using assms(5) by (simp add: vl_len_def raw_len_def pubkeys_len_def vl_pubkeys_def)
  obtain l1 pk1 where l1: "vl_clear_pubkeys l count = Ok l1" "vl_inv compress htr l1"
      "vl_buf l1 = (vl_buf l)\<lparr> rv_pubkeys := pk1 \<rparr>"
      "pk_keys pk1 = replicate count pubkey_zero @ drop count ?keys" "pubkeys_ok pk1"
    using vl_clear_pubkeys_ok [OF assms(2) ok assms(5)] by blast
  have pk1: "vl_pubkeys l1 = pk1" using l1(3) by (simp add: vl_pubkeys_def)
  have none: "index_of pk1 (?keys ! i) = None" if i: "i < count" for i
  proof (rule index_of_absent)
    have "?keys ! i \<in> set (take count ?keys)" using i count by (auto simp: in_set_conv_nth)
    moreover have "set (take count ?keys) \<inter> set (drop count ?keys) = {}"
      using dist by (simp add: set_take_disj_set_drop_if_distinct)
    ultimately show "?keys ! i \<notin> set (pk_keys pk1)"
      using nz l1(4) by (auto dest: in_set_takeD)
  qed
  have keys: "take count (pk_keys source) @ drop count ?keys = ?keys" using assms(7) by simp
  obtain pk2 where pk2: "restore_prefix pk1 source count = Ok pk2" "pk_keys pk2 = ?keys" "pubkeys_ok pk2"
    using restore_prefix_ok [OF assms(4) _ l1(4)] l1(5) dist assms(6) keys by (auto simp: pubkeys_len_def)
  have "pubkey_zero \<notin> set (drop count ?keys)" using nz by (auto dest: in_set_dropD)
  then have "cleared_prefix_len search pk1 = Ok count"
    by (rule cleared_prefix_len_ok [OF assms(1) _ l1(4)])
  then obtain l2 where l2: "vl_restore_pubkeys search l1 source = Ok l2"
      "vl_buf l2 = (vl_buf l)\<lparr> rv_pubkeys := pk2 \<rparr>"
    using vl_restore_pubkeys_ok [OF l1(2), of search count source pk2] pk1 pk2 l1(3,4) assms(6) count by auto
  have found: "index_of pk2 (?keys ! i) = Some i" if "i < length ?keys" for i
    using index_of_ok [OF pk2(3), of "?keys ! i" i] pk2(2) nz that by (metis nth_mem)
  show ?thesis
    using l1(1) none pk1 pk2(2) l2 found
    by (intro exI [of _ l1] exI [of _ l2])
      (simp add: vl_into_iter_def vl_pubkeys_def raw_into_iter_def vl_len_def raw_len_def pubkeys_len_def)
qed

definition search_std :: search_fn where
  "search_std cmp xs = Err (length (takeWhile (\<lambda>x. cmp x = Less) xs))"

lemma finds_partition_point_std: "finds_partition_point search_std"
  unfolding finds_partition_point_def search_std_def
proof (intro allI impI, elim conjE)
  fix cmp :: "public_key_bytes \<Rightarrow> ordering" and xs k
  assume k: "k \<le> length xs" "\<forall>i<k. cmp (xs ! i) = Less"
    "\<forall>i. k \<le> i \<and> i < length xs \<longrightarrow> cmp (xs ! i) = Greater"
  then have "takeWhile (\<lambda>x. cmp x = Less) xs = take k xs"
    by (intro takeWhile_eq_take_P_nth) auto
  then show "(Err (length (takeWhile (\<lambda>x. cmp x = Less) xs)) :: (nat, nat) result) = Err k"
    using k(1) by simp
qed

theorem clear_restore_pubkeys_roundtrip_witness:
  "\<exists>l cleared restored. vl_try_from_iter 16 [sample_validator 1, sample_validator 2] = Ok l
    \<and> vl_clear_pubkeys l 1 = Ok cleared
    \<and> vl_restore_pubkeys search_std cleared (pubkeys_from_iter [replicate 48 1]) = Ok restored
    \<and> vl_into_iter restored = [sample_validator 1, sample_validator 2]"
proof -
  let ?vs = "[sample_validator 1, sample_validator 2]"
  obtain l where l: "vl_try_from_iter 16 ?vs = Ok l" "vl_inv compress_table val_withdrawal_credentials l" "vl_into_iter l = ?vs"
    using vl_try_from_iter_ok [of ?vs 16] by auto
  then have buf: "vl_buf l = raw_from_iter ?vs"
    by (auto simp: vl_try_from_iter_def Let_def res_simps split: if_splits)
  have neq: "replicate 48 (1::byte) \<noteq> replicate 48 2" "replicate 48 (1::byte) \<noteq> replicate 48 0"
    "replicate 48 (2::byte) \<noteq> replicate 48 0"
    by (simp_all add: replicate_eq_replicate)
  have keys: "vl_pubkeys l = pubkeys_from_iter [replicate 48 1, replicate 48 2]"
    using buf by (simp add: vl_pubkeys_def raw_from_iter_def sample_validator_def)
  have ok: "registry_pubkeys_ok l" "pubkeys_ok (pubkeys_from_iter [replicate 48 1])"
    using neq pubkeys_from_iter_ok [of "[replicate 48 1, replicate 48 2]"] pubkeys_from_iter_ok [of "[replicate 48 1]"]
    by (auto simp: registry_pubkeys_ok_def keys pubkeys_from_iter_def pubkey_zero_def)
  show ?thesis
    using clear_restore_pubkeys_roundtrip [OF finds_partition_point_std l(2) ok, of 1] l
    by (auto simp: keys pubkeys_from_iter_def vl_len_def raw_len_def pubkeys_len_def buf raw_from_iter_def)
qed

text \<open>
  C27. The capacity check of \<open>ValidatorList::push\<close> is off by one: a registry of type limit \<open>N\<close> that
  holds \<open>N - 1\<close> validators is rejected as full, although \<open>try_from_iter\<close> accepts \<open>N\<close> validators
  and \<open>PersistentList::push\<close> fills a list up to its limit.  Below \<open>N - 1\<close> a push succeeds and
  appends the validator.
\<close>

theorem validator_list_push_capacity:
  assumes "vl_inv compress htr l" "N \<le> 2 ^ 40"
  shows "map_ok vl_into_iter (vl_push N l v)
    = (if vl_len l + 1 < N then Ok (vl_into_iter l @ [v]) else Err (Push ListFull))"
  using vl_push_ok [OF assms(1) _ assms(2), of v] vl_push_full [OF _ assms(2), of l v] by auto

theorem validator_list_push_capacity_witness:
  "\<exists>l. vl_try_from_iter 2 [sample_validator 1] = Ok l \<and> vl_push 2 l (sample_validator 2) = Err (Push ListFull)
    \<and> (\<exists>m. vl_try_from_iter 2 [sample_validator 1, sample_validator 2] = Ok m)"
proof -
  obtain l where l: "vl_try_from_iter 2 [sample_validator 1] = Ok l"
      "vl_inv compress_table val_withdrawal_credentials l" "vl_into_iter l = [sample_validator 1]"
    using vl_try_from_iter_ok [of "[sample_validator 1]" 2] by auto
  have "vl_len l = 1" using length_vl_into_iter [OF l(2)] l(3) by simp
  then have "map_ok vl_into_iter (vl_push 2 l (sample_validator 2)) = Err (Push ListFull)"
    using validator_list_push_capacity [OF l(2), of 2 "sample_validator 2"] by simp
  then have "vl_push 2 l (sample_validator 2) = Err (Push ListFull)"
    by (cases "vl_push 2 l (sample_validator 2)") simp_all
  then show ?thesis
    using l(1) vl_try_from_iter_ok [of "[sample_validator 1, sample_validator 2]" 2] by auto
qed

end
