(* ===== verification/Preset.thy ===== *)
theory Preset
  imports Arithmetic
begin

text \<open>
  Presets (\<open>types/src/preset.rs\<close>) and their constants.  The source has a trait \<open>Preset\<close> with
  associated types for the sizes that bound SSZ collections and associated constants for the
  rest; an implementation of the trait is a value of the record \<open>preset\<close> here.  The items of
  Phase 0 to Electra that the state transition reads are modelled, under their source names.
\<close>

record preset_types =
  EpochsPerEth1VotingPeriod :: nat
  EpochsPerHistoricalRoot :: nat
  EpochsPerHistoricalVector :: nat
  EpochsPerSlashingsVector :: nat
  HistoricalRootsLimit :: nat
  MaxAttestations :: nat
  MaxAttesterSlashings :: nat
  MaxCommitteesPerSlot :: nat
  MaxDeposits :: nat
  MaxProposerSlashings :: nat
  MaxValidatorsPerCommittee :: nat
  MaxVoluntaryExits :: nat
  MinSeedLookahead :: nat
  SlotsPerEpoch :: nat
  ValidatorRegistryLimit :: nat
  SyncCommitteeSize :: nat
  MaxBlsToExecutionChanges :: nat
  MaxWithdrawalsPerPayload :: nat
  MaxAttestationsElectra :: nat
  MaxAttesterSlashingsElectra :: nat
  MaxConsolidationRequestsPerPayload :: nat
  MaxDepositRequestsPerPayload :: nat
  MaxWithdrawalRequestsPerPayload :: nat
  PendingDepositsLimit :: nat
  PendingConsolidationsLimit :: nat
  PendingPartialWithdrawalsLimit :: nat
  NumberOfColumns :: nat

record preset = preset_types +
  BASE_REWARD_FACTOR :: nat
  EFFECTIVE_BALANCE_INCREMENT :: nat
  HYSTERESIS_DOWNWARD_MULTIPLIER :: nat
  HYSTERESIS_QUOTIENT :: nat
  HYSTERESIS_UPWARD_MULTIPLIER :: nat
  MAX_EFFECTIVE_BALANCE :: gwei
  MAX_SEED_LOOKAHEAD :: nat
  MIN_ATTESTATION_INCLUSION_DELAY :: nat
  MIN_DEPOSIT_AMOUNT :: gwei
  MIN_EPOCHS_TO_INACTIVITY_PENALTY :: nat
  SHUFFLE_ROUND_COUNT :: nat
  TARGET_COMMITTEE_SIZE :: nat
  EPOCHS_PER_SYNC_COMMITTEE_PERIOD :: nat
  MIN_SYNC_COMMITTEE_PARTICIPANTS :: nat
  INACTIVITY_PENALTY_QUOTIENT_BELLATRIX :: nat
  PROPORTIONAL_SLASHING_MULTIPLIER_BELLATRIX :: nat
  MAX_VALIDATORS_PER_WITHDRAWALS_SWEEP :: nat
  MAX_EFFECTIVE_BALANCE_ELECTRA :: gwei
  MAX_PENDING_PARTIALS_PER_WITHDRAWALS_SWEEP :: nat
  MAX_PENDING_DEPOSITS_PER_EPOCH :: nat
  MIN_ACTIVATION_BALANCE :: gwei
  MIN_SLASHING_PENALTY_QUOTIENT_ELECTRA :: nat
  WHISTLEBLOWER_REWARD_QUOTIENT_ELECTRA :: nat

definition MainnetPreset :: preset where
  "MainnetPreset =
     \<lparr> EpochsPerEth1VotingPeriod = 64,
       EpochsPerHistoricalRoot = 256,
       EpochsPerHistoricalVector = 65536,
       EpochsPerSlashingsVector = 8192,
       HistoricalRootsLimit = 16777216,
       MaxAttestations = 128,
       MaxAttesterSlashings = 2,
       MaxCommitteesPerSlot = 64,
       MaxDeposits = 16,
       MaxProposerSlashings = 16,
       MaxValidatorsPerCommittee = 2048,
       MaxVoluntaryExits = 16,
       MinSeedLookahead = 1,
       SlotsPerEpoch = 32,
       ValidatorRegistryLimit = 1099511627776,
       SyncCommitteeSize = 512,
       MaxBlsToExecutionChanges = 16,
       MaxWithdrawalsPerPayload = 16,
       MaxAttestationsElectra = 8,
       MaxAttesterSlashingsElectra = 1,
       MaxConsolidationRequestsPerPayload = 2,
       MaxDepositRequestsPerPayload = 8192,
       MaxWithdrawalRequestsPerPayload = 16,
       PendingDepositsLimit = 134217728,
       PendingConsolidationsLimit = 262144,
       PendingPartialWithdrawalsLimit = 134217728,
       NumberOfColumns = 128,
       BASE_REWARD_FACTOR = 64,
       EFFECTIVE_BALANCE_INCREMENT = 1000000000,
       HYSTERESIS_DOWNWARD_MULTIPLIER = 1,
       HYSTERESIS_QUOTIENT = 4,
       HYSTERESIS_UPWARD_MULTIPLIER = 5,
       MAX_EFFECTIVE_BALANCE = 32000000000,
       MAX_SEED_LOOKAHEAD = 4,
       MIN_ATTESTATION_INCLUSION_DELAY = 1,
       MIN_DEPOSIT_AMOUNT = 1000000000,
       MIN_EPOCHS_TO_INACTIVITY_PENALTY = 4,
       SHUFFLE_ROUND_COUNT = 90,
       TARGET_COMMITTEE_SIZE = 128,
       EPOCHS_PER_SYNC_COMMITTEE_PERIOD = 256,
       MIN_SYNC_COMMITTEE_PARTICIPANTS = 1,
       INACTIVITY_PENALTY_QUOTIENT_BELLATRIX = 2 ^ 24,
       PROPORTIONAL_SLASHING_MULTIPLIER_BELLATRIX = 3,
       MAX_VALIDATORS_PER_WITHDRAWALS_SWEEP = 2 ^ 14,
       MAX_EFFECTIVE_BALANCE_ELECTRA = 2048000000000,
       MAX_PENDING_PARTIALS_PER_WITHDRAWALS_SWEEP = 8,
       MAX_PENDING_DEPOSITS_PER_EPOCH = 16,
       MIN_ACTIVATION_BALANCE = 32000000000,
       MIN_SLASHING_PENALTY_QUOTIENT_ELECTRA = 4096,
       WHISTLEBLOWER_REWARD_QUOTIENT_ELECTRA = 4096 \<rparr>"

text \<open>\<open>Minimal\<close> delegates to \<open>Mainnet\<close> and overrides the following items.\<close>

definition MinimalPreset :: preset where
  "MinimalPreset = MainnetPreset
     \<lparr> EpochsPerEth1VotingPeriod := 4,
       EpochsPerHistoricalRoot := 8,
       EpochsPerHistoricalVector := 64,
       EpochsPerSlashingsVector := 64,
       MaxCommitteesPerSlot := 4,
       SlotsPerEpoch := 8,
       SyncCommitteeSize := 32,
       MaxWithdrawalsPerPayload := 4,
       PendingConsolidationsLimit := 64,
       PendingPartialWithdrawalsLimit := 64,
       SHUFFLE_ROUND_COUNT := 10,
       TARGET_COMMITTEE_SIZE := 4,
       EPOCHS_PER_SYNC_COMMITTEE_PERIOD := 8,
       MAX_VALIDATORS_PER_WITHDRAWALS_SWEEP := 16,
       MAX_PENDING_PARTIALS_PER_WITHDRAWALS_SWEEP := 2 \<rparr>"

text \<open>Derived type-level variables.\<close>

definition MaxAttestersPerSlot :: "preset \<Rightarrow> nat" where
  "MaxAttestersPerSlot P = MaxValidatorsPerCommittee P * MaxCommitteesPerSlot P"

definition SlotsPerEth1VotingPeriod :: "preset \<Rightarrow> nat" where
  "SlotsPerEth1VotingPeriod P = EpochsPerEth1VotingPeriod P * SlotsPerEpoch P"

definition SlotsPerHistoricalRoot :: "preset \<Rightarrow> nat" where
  "SlotsPerHistoricalRoot P = EpochsPerHistoricalRoot P * SlotsPerEpoch P"

subsection \<open>Constants\<close>

definition FAR_FUTURE_EPOCH :: epoch where
  "FAR_FUTURE_EPOCH = u64_max"

definition GENESIS_EPOCH :: epoch where
  "GENESIS_EPOCH = 0"

definition GENESIS_SLOT :: slot where
  "GENESIS_SLOT = 0"

definition BLS_WITHDRAWAL_PREFIX :: bytes where
  "BLS_WITHDRAWAL_PREFIX = [0x00]"

definition ETH1_ADDRESS_WITHDRAWAL_PREFIX :: bytes where
  "ETH1_ADDRESS_WITHDRAWAL_PREFIX = [0x01]"

definition COMPOUNDING_WITHDRAWAL_PREFIX :: bytes where
  "COMPOUNDING_WITHDRAWAL_PREFIX = [0x02]"

definition UNSET_DEPOSIT_REQUESTS_START_INDEX :: nat where
  "UNSET_DEPOSIT_REQUESTS_START_INDEX = u64_max"

definition FULL_EXIT_REQUEST_AMOUNT :: nat where
  "FULL_EXIT_REQUEST_AMOUNT = 0"

definition TIMELY_SOURCE_FLAG_INDEX :: nat where
  "TIMELY_SOURCE_FLAG_INDEX = 0"

definition TIMELY_TARGET_FLAG_INDEX :: nat where
  "TIMELY_TARGET_FLAG_INDEX = 1"

definition TIMELY_HEAD_FLAG_INDEX :: nat where
  "TIMELY_HEAD_FLAG_INDEX = 2"

definition TIMELY_SOURCE_WEIGHT :: nat where
  "TIMELY_SOURCE_WEIGHT = 14"

definition TIMELY_TARGET_WEIGHT :: nat where
  "TIMELY_TARGET_WEIGHT = 26"

definition TIMELY_HEAD_WEIGHT :: nat where
  "TIMELY_HEAD_WEIGHT = 14"

definition PARTICIPATION_FLAG_WEIGHTS :: "(nat \<times> nat) list" where
  "PARTICIPATION_FLAG_WEIGHTS =
     [(TIMELY_SOURCE_FLAG_INDEX, TIMELY_SOURCE_WEIGHT),
      (TIMELY_TARGET_FLAG_INDEX, TIMELY_TARGET_WEIGHT),
      (TIMELY_HEAD_FLAG_INDEX, TIMELY_HEAD_WEIGHT)]"

definition SYNC_REWARD_WEIGHT :: nat where
  "SYNC_REWARD_WEIGHT = 2"

definition PROPOSER_WEIGHT :: nat where
  "PROPOSER_WEIGHT = 8"

definition WEIGHT_DENOMINATOR :: nat where
  "WEIGHT_DENOMINATOR = 64"

subsection \<open>What the type bounds of the trait guarantee\<close>

text \<open>
  The trait bounds make the divisors \<open>NonZero\<close>, and every associated number is a \<open>u64\<close> or
  \<open>usize\<close> constant.  \<open>preset_laws\<close> states the part of this that the proofs use, together with
  the relations between the constants that all presets of the source satisfy.
\<close>

locale preset_laws =
  fixes P :: preset
  assumes slots_per_epoch_pos: "0 < SlotsPerEpoch P"
    and slots_per_epoch_small: "SlotsPerEpoch P < 2 ^ 16"
    and seed_lookahead_pos: "0 < MinSeedLookahead P"
    and seed_lookahead_small: "MinSeedLookahead P < 2 ^ 16"
    and max_seed_lookahead_small: "MAX_SEED_LOOKAHEAD P < 2 ^ 16"
    and max_seed_lookahead_pos: "0 < MAX_SEED_LOOKAHEAD P"
    and historical_vector: "MinSeedLookahead P + 1 < EpochsPerHistoricalVector P"
    and historical_vector_small: "EpochsPerHistoricalVector P < 2 ^ 32"
    and historical_root_pos: "0 < EpochsPerHistoricalRoot P"
    and slashings_vector_pos: "0 < EpochsPerSlashingsVector P"
    and increment_pos: "0 < EFFECTIVE_BALANCE_INCREMENT P"
    and hysteresis_pos: "0 < HYSTERESIS_QUOTIENT P"
    and committees_pos: "0 < MaxCommitteesPerSlot P"
    and committees_small: "MaxCommitteesPerSlot P < 2 ^ 8"
    and registry_limit: "ValidatorRegistryLimit P \<le> 2 ^ 40"
    and committee_size_pos: "0 < TARGET_COMMITTEE_SIZE P"
    and round_count: "SHUFFLE_ROUND_COUNT P < 256"
    and activation_le_max: "MIN_ACTIVATION_BALANCE P \<le> MAX_EFFECTIVE_BALANCE_ELECTRA P"
    and max_effective_small: "MAX_EFFECTIVE_BALANCE_ELECTRA P < 2 ^ 48"
    and increment_dvd_min: "EFFECTIVE_BALANCE_INCREMENT P dvd MIN_ACTIVATION_BALANCE P"
    and increment_dvd_max: "EFFECTIVE_BALANCE_INCREMENT P dvd MAX_EFFECTIVE_BALANCE_ELECTRA P"
begin

lemma increment_le_activation:
  "0 < MIN_ACTIVATION_BALANCE P \<Longrightarrow> EFFECTIVE_BALANCE_INCREMENT P \<le> MIN_ACTIVATION_BALANCE P"
  using increment_dvd_min dvd_imp_le by blast

end

interpretation mainnet_preset: preset_laws MainnetPreset
  by unfold_locales (simp_all add: MainnetPreset_def)

interpretation minimal_preset: preset_laws MinimalPreset
  by unfold_locales (simp_all add: MinimalPreset_def MainnetPreset_def)

end
