(* ===== verification/Config.thy ===== *)
theory Config
  imports Preset Arithmetic
begin

text \<open>
  The network configuration (\<open>types/src/config.rs\<close>): the record of parameters with the built-in
  mainnet and minimal configurations, the fork schedule, and the parameters derived from it.  The
  two \<open>OnceCell\<close> fields that memoise serialized sizes and the map of unknown variables are left
  out.  Durations are in milliseconds (\<open>slot_duration_ms\<close>, \<open>maximum_gossip_clock_disparity\<close>)
  or nanoseconds (results of \<open>slot_component_duration\<close>).
\<close>

subsection \<open>Order of phases\<close>

fun phase_number :: "phase \<Rightarrow> nat" where
  "phase_number Phase0 = 0"
| "phase_number Altair = 1"
| "phase_number Bellatrix = 2"
| "phase_number Capella = 3"
| "phase_number Deneb = 4"
| "phase_number Electra = 5"
| "phase_number Fulu = 6"
| "phase_number Gloas = 7"

lemma phase_number_inj: "phase_number p = phase_number q \<longleftrightarrow> p = q"
  by (cases p; cases q; simp)

instantiation phase :: linorder
begin

definition less_eq_phase :: "phase \<Rightarrow> phase \<Rightarrow> bool" where
  "less_eq_phase p q = (phase_number p \<le> phase_number q)"

definition less_phase :: "phase \<Rightarrow> phase \<Rightarrow> bool" where
  "less_phase p q = (phase_number p < phase_number q)"

instance
  by standard (auto simp: less_eq_phase_def less_phase_def phase_number_inj)

end

definition all_phases :: "phase list" where
  "all_phases = [Phase0, Altair, Bellatrix, Capella, Deneb, Electra, Fulu, Gloas]"

text \<open>\<open>enum_iterator::Sequence::previous\<close>\<close>

fun phase_previous :: "phase \<Rightarrow> phase option" where
  "phase_previous Phase0 = None"
| "phase_previous Altair = Some Phase0"
| "phase_previous Bellatrix = Some Altair"
| "phase_previous Capella = Some Bellatrix"
| "phase_previous Deneb = Some Capella"
| "phase_previous Electra = Some Deneb"
| "phase_previous Fulu = Some Electra"
| "phase_previous Gloas = Some Fulu"

definition is_peerdas_activated :: "phase \<Rightarrow> bool" where
  "is_peerdas_activated self \<longleftrightarrow> Fulu \<le> self"

text \<open>An \<open>option\<close> in which \<open>None\<close> is the greatest value.\<close>

datatype 'a toption = TSome 'a | TNone

fun into_option :: "'a toption \<Rightarrow> 'a option" where
  "into_option (TSome x) = Some x"
| "into_option TNone = None"

fun toption_le :: "nat toption \<Rightarrow> nat toption \<Rightarrow> bool" where
  "toption_le (TSome a) (TSome b) \<longleftrightarrow> a \<le> b"
| "toption_le (TSome a) TNone \<longleftrightarrow> True"
| "toption_le TNone (TSome b) \<longleftrightarrow> False"
| "toption_le TNone TNone \<longleftrightarrow> True"

subsection \<open>Parameters\<close>

datatype preset_name = PresetMainnet | PresetMinimal | PresetMedalla

datatype custody_mode = CustodyMinimal | CustodySemi | CustodySuper

record blob_schedule_entry =
  bse_epoch :: epoch
  bse_max_blobs_per_block :: nat

record gas_limit_schedule_entry =
  gle_epoch :: epoch
  gle_gas_limit :: nat

definition BASIS_POINTS :: nat where
  "BASIS_POINTS = 10000"

definition PREFERRED_EXECUTION_GAS_LIMIT :: nat where
  "PREFERRED_EXECUTION_GAS_LIMIT = 60000000"

definition AttestationSubnetCount :: nat where
  "AttestationSubnetCount = 64"

record config =
  cfg_config_name :: string
  cfg_preset_base :: preset_name
  cfg_genesis_delay :: nat
  cfg_genesis_fork_version :: bytes
  cfg_min_genesis_active_validator_count :: nat
  cfg_min_genesis_time :: nat
  cfg_altair_fork_epoch :: epoch
  cfg_altair_fork_version :: bytes
  cfg_bellatrix_fork_epoch :: epoch
  cfg_bellatrix_fork_version :: bytes
  cfg_capella_fork_epoch :: epoch
  cfg_capella_fork_version :: bytes
  cfg_deneb_fork_epoch :: epoch
  cfg_deneb_fork_version :: bytes
  cfg_electra_fork_epoch :: epoch
  cfg_electra_fork_version :: bytes
  cfg_fulu_fork_epoch :: epoch
  cfg_fulu_fork_version :: bytes
  cfg_gloas_fork_epoch :: epoch
  cfg_gloas_fork_version :: bytes
  cfg_eth1_follow_distance :: nat
  cfg_min_validator_withdrawability_delay :: nat
  cfg_seconds_per_eth1_block :: nat
  cfg_shard_committee_period :: nat
  cfg_slot_duration_ms :: nat
  cfg_proposer_reorg_cutoff_bps :: nat
  cfg_attestation_due_bps :: nat
  cfg_aggregate_due_bps :: nat
  cfg_sync_message_due_bps :: nat
  cfg_contribution_due_bps :: nat
  cfg_min_builder_withdrawability_delay :: nat
  cfg_attestation_due_bps_gloas :: nat
  cfg_aggregate_due_bps_gloas :: nat
  cfg_sync_message_due_bps_gloas :: nat
  cfg_contribution_due_bps_gloas :: nat
  cfg_payload_attestation_due_bps :: nat
  cfg_payload_due_bps :: nat
  cfg_churn_limit_quotient :: nat
  cfg_churn_limit_quotient_gloas :: nat
  cfg_consolidation_churn_limit_quotient :: nat
  cfg_ejection_balance :: gwei
  cfg_inactivity_score_bias :: nat
  cfg_inactivity_score_recovery_rate :: nat
  cfg_min_per_epoch_churn_limit :: nat
  cfg_max_per_epoch_activation_churn_limit :: nat
  cfg_min_per_epoch_churn_limit_electra :: gwei
  cfg_max_per_epoch_activation_exit_churn_limit :: gwei
  cfg_max_per_epoch_activation_churn_limit_gloas :: gwei
  cfg_proposer_score_boost :: nat
  cfg_reorg_head_weight_threshold :: nat
  cfg_reorg_max_epochs_since_finalization :: nat
  cfg_reorg_parent_weight_threshold :: nat
  cfg_confirmation_byzantine_threshold :: nat
  cfg_deposit_chain_id :: nat
  cfg_deposit_contract_address :: bytes
  cfg_deposit_network_id :: nat
  cfg_attestation_subnet_extra_bits :: nat
  cfg_epochs_per_subnet_subscription :: nat
  cfg_max_payload_size :: nat
  cfg_maximum_gossip_clock_disparity :: nat
  cfg_message_domain_invalid_snappy :: bytes
  cfg_message_domain_valid_snappy :: bytes
  cfg_subnets_per_node :: nat
  cfg_max_blobs_per_block :: nat
  cfg_max_blobs_per_block_electra :: nat
  cfg_max_request_blocks :: nat
  cfg_max_request_blocks_deneb :: nat
  cfg_min_epochs_for_blob_sidecars_requests :: nat
  cfg_blob_sidecar_subnet_count :: nat
  cfg_min_epochs_for_data_column_sidecars_requests :: nat
  cfg_data_column_sidecar_subnet_count :: nat
  cfg_blob_sidecar_subnet_count_electra :: nat
  cfg_max_request_blob_sidecars_fulu :: nat
  cfg_max_request_payloads :: nat
  cfg_blob_schedule :: "blob_schedule_entry list"
  cfg_gas_limit_schedule :: "gas_limit_schedule_entry list"
  cfg_terminal_block_hash :: bytes
  cfg_terminal_block_hash_activation_epoch :: epoch
  cfg_terminal_total_difficulty :: nat
  cfg_custody_requirement :: nat
  cfg_number_of_custody_groups :: nat
  cfg_samples_per_slot :: nat
  cfg_validator_custody_requirement :: nat
  cfg_balance_per_additional_custody_group :: gwei
  cfg_blacklisted_blocks :: "h256 list"

definition config_default :: config where
  "config_default =
     \<lparr> cfg_config_name = ''default'',
       cfg_preset_base = PresetMainnet,
       cfg_genesis_delay = 604800,
       cfg_genesis_fork_version = [0x00, 0x00, 0x00, 0x00],
       cfg_min_genesis_active_validator_count = 2 ^ 14,
       cfg_min_genesis_time = 0,
       cfg_altair_fork_epoch = FAR_FUTURE_EPOCH,
       cfg_altair_fork_version = [0x01, 0x00, 0x00, 0x00],
       cfg_bellatrix_fork_epoch = FAR_FUTURE_EPOCH,
       cfg_bellatrix_fork_version = [0x02, 0x00, 0x00, 0x00],
       cfg_capella_fork_epoch = FAR_FUTURE_EPOCH,
       cfg_capella_fork_version = [0x03, 0x00, 0x00, 0x00],
       cfg_deneb_fork_epoch = FAR_FUTURE_EPOCH,
       cfg_deneb_fork_version = [0x04, 0x00, 0x00, 0x00],
       cfg_electra_fork_epoch = FAR_FUTURE_EPOCH,
       cfg_electra_fork_version = [0x05, 0x00, 0x00, 0x00],
       cfg_fulu_fork_epoch = FAR_FUTURE_EPOCH,
       cfg_fulu_fork_version = [0x06, 0x00, 0x00, 0x00],
       cfg_gloas_fork_epoch = FAR_FUTURE_EPOCH,
       cfg_gloas_fork_version = [0x07, 0x00, 0x00, 0x00],
       cfg_eth1_follow_distance = 2048,
       cfg_min_validator_withdrawability_delay = 256,
       cfg_seconds_per_eth1_block = 14,
       cfg_shard_committee_period = 256,
       cfg_slot_duration_ms = 12000,
       cfg_proposer_reorg_cutoff_bps = 1667,
       cfg_attestation_due_bps = 3333,
       cfg_aggregate_due_bps = 6667,
       cfg_sync_message_due_bps = 3333,
       cfg_contribution_due_bps = 6667,
       cfg_min_builder_withdrawability_delay = 64,
       cfg_attestation_due_bps_gloas = 2500,
       cfg_aggregate_due_bps_gloas = 5000,
       cfg_sync_message_due_bps_gloas = 2500,
       cfg_contribution_due_bps_gloas = 5000,
       cfg_payload_attestation_due_bps = 7500,
       cfg_payload_due_bps = 5000,
       cfg_churn_limit_quotient = 2 ^ 16,
       cfg_churn_limit_quotient_gloas = 32768,
       cfg_consolidation_churn_limit_quotient = 65536,
       cfg_ejection_balance = 16000000000,
       cfg_inactivity_score_bias = 4,
       cfg_inactivity_score_recovery_rate = 16,
       cfg_min_per_epoch_churn_limit = 4,
       cfg_max_per_epoch_activation_churn_limit = 8,
       cfg_min_per_epoch_churn_limit_electra = 128000000000,
       cfg_max_per_epoch_activation_exit_churn_limit = 256000000000,
       cfg_max_per_epoch_activation_churn_limit_gloas = 256000000000,
       cfg_proposer_score_boost = 40,
       cfg_reorg_head_weight_threshold = 20,
       cfg_reorg_max_epochs_since_finalization = 2,
       cfg_reorg_parent_weight_threshold = 160,
       cfg_confirmation_byzantine_threshold = 25,
       cfg_deposit_chain_id = 0,
       cfg_deposit_contract_address = replicate 20 0,
       cfg_deposit_network_id = 0,
       cfg_attestation_subnet_extra_bits = 0,
       cfg_epochs_per_subnet_subscription = 256,
       cfg_max_payload_size = 10485760,
       cfg_maximum_gossip_clock_disparity = 500,
       cfg_message_domain_invalid_snappy = replicate 4 0,
       cfg_message_domain_valid_snappy = [0x01, 0x00, 0x00, 0x00],
       cfg_subnets_per_node = 2,
       cfg_max_blobs_per_block = 6,
       cfg_max_blobs_per_block_electra = 9,
       cfg_max_request_blocks = 1024,
       cfg_max_request_blocks_deneb = 128,
       cfg_min_epochs_for_blob_sidecars_requests = 4096,
       cfg_blob_sidecar_subnet_count = 6,
       cfg_min_epochs_for_data_column_sidecars_requests = 4096,
       cfg_data_column_sidecar_subnet_count = 128,
       cfg_blob_sidecar_subnet_count_electra = 9,
       cfg_max_request_blob_sidecars_fulu = 1536,
       cfg_max_request_payloads = 128,
       cfg_blob_schedule = [],
       cfg_gas_limit_schedule = [],
       cfg_terminal_block_hash = replicate 32 0,
       cfg_terminal_block_hash_activation_epoch = FAR_FUTURE_EPOCH,
       cfg_terminal_total_difficulty = 115792089237316195423570985008687907853269984665640564039457584007913129638912,
       cfg_custody_requirement = 4,
       cfg_number_of_custody_groups = 128,
       cfg_samples_per_slot = 8,
       cfg_validator_custody_requirement = 8,
       cfg_balance_per_additional_custody_group = 32000000000,
       cfg_blacklisted_blocks = [] \<rparr>"

definition config_mainnet :: config where
  "config_mainnet = config_default
     \<lparr> cfg_config_name := ''mainnet'',
       cfg_min_genesis_time := 1606824000,
       cfg_altair_fork_epoch := 74240,
       cfg_bellatrix_fork_epoch := 144896,
       cfg_capella_fork_epoch := 194048,
       cfg_deneb_fork_epoch := 269568,
       cfg_electra_fork_epoch := 364032,
       cfg_fulu_fork_epoch := 411392,
       cfg_deposit_chain_id := 1,
       cfg_deposit_contract_address := [0x00, 0x00, 0x00, 0x00, 0x21, 0x9a, 0xb5, 0x40, 0x35, 0x6c, 0xbb, 0x83, 0x9c, 0xbe, 0x05, 0x30, 0x3d, 0x77, 0x05, 0xfa],
       cfg_deposit_network_id := 1,
       cfg_blob_schedule := [\<lparr> bse_epoch = 412672, bse_max_blobs_per_block = 15 \<rparr>, \<lparr> bse_epoch = 419072, bse_max_blobs_per_block = 21 \<rparr>],
       cfg_terminal_total_difficulty := 58750000000000000000000 \<rparr>"

definition config_minimal :: config where
  "config_minimal = config_default
     \<lparr> cfg_config_name := ''minimal'',
       cfg_preset_base := PresetMinimal,
       cfg_genesis_delay := 300,
       cfg_genesis_fork_version := [0x00, 0x00, 0x00, 0x01],
       cfg_min_genesis_active_validator_count := 64,
       cfg_min_genesis_time := 1578009600,
       cfg_altair_fork_version := [0x01, 0x00, 0x00, 0x01],
       cfg_bellatrix_fork_version := [0x02, 0x00, 0x00, 0x01],
       cfg_capella_fork_version := [0x03, 0x00, 0x00, 0x01],
       cfg_deneb_fork_version := [0x04, 0x00, 0x00, 0x01],
       cfg_electra_fork_version := [0x05, 0x00, 0x00, 0x01],
       cfg_fulu_fork_version := [0x06, 0x00, 0x00, 0x01],
       cfg_gloas_fork_version := [0x07, 0x00, 0x00, 0x01],
       cfg_eth1_follow_distance := 16,
       cfg_shard_committee_period := 64,
       cfg_slot_duration_ms := 6000,
       cfg_min_builder_withdrawability_delay := 2,
       cfg_churn_limit_quotient := 32,
       cfg_churn_limit_quotient_gloas := 16,
       cfg_consolidation_churn_limit_quotient := 32,
       cfg_min_per_epoch_churn_limit := 2,
       cfg_max_per_epoch_activation_churn_limit := 4,
       cfg_min_per_epoch_churn_limit_electra := 64000000000,
       cfg_max_per_epoch_activation_exit_churn_limit := 128000000000,
       cfg_max_per_epoch_activation_churn_limit_gloas := 128000000000,
       cfg_deposit_chain_id := 5,
       cfg_deposit_contract_address := [0x12, 0x34, 0x56, 0x78, 0x90, 0x12, 0x34, 0x56, 0x78, 0x90, 0x12, 0x34, 0x56, 0x78, 0x90, 0x12, 0x34, 0x56, 0x78, 0x90],
       cfg_deposit_network_id := 5 \<rparr>"

subsection \<open>Fork schedule\<close>

definition config_fork_epochs :: "config \<Rightarrow> (phase \<times> epoch) list" where
  "config_fork_epochs self =
     zip (tl all_phases)
       [cfg_altair_fork_epoch self, cfg_bellatrix_fork_epoch self, cfg_capella_fork_epoch self,
        cfg_deneb_fork_epoch self, cfg_electra_fork_epoch self, cfg_fulu_fork_epoch self,
        cfg_gloas_fork_epoch self]"

text \<open>
  The mutable iterator over the fork epochs is the function that writes through it: \<open>f\<close> gives the
  new value of each field from its phase and position.
\<close>

definition config_fork_epochs_mut :: "(phase \<Rightarrow> nat \<Rightarrow> epoch) \<Rightarrow> config \<Rightarrow> config" where
  "config_fork_epochs_mut f self = self
     \<lparr> cfg_altair_fork_epoch := f Altair 0,
       cfg_bellatrix_fork_epoch := f Bellatrix 1,
       cfg_capella_fork_epoch := f Capella 2,
       cfg_deneb_fork_epoch := f Deneb 3,
       cfg_electra_fork_epoch := f Electra 4,
       cfg_fulu_fork_epoch := f Fulu 5,
       cfg_gloas_fork_epoch := f Gloas 6 \<rparr>"

definition upgrade_once :: "config \<Rightarrow> phase \<Rightarrow> epoch \<Rightarrow> config" where
  "upgrade_once self post_phase epoch =
     config_fork_epochs_mut
       (\<lambda>phase _.
          if phase < post_phase then GENESIS_EPOCH
          else if phase = post_phase then epoch
          else FAR_FUTURE_EPOCH) self"

definition phase_to_string :: "phase \<Rightarrow> string" where
  "phase_to_string phase =
     (case phase of
        Phase0 \<Rightarrow> ''phase0'' | Altair \<Rightarrow> ''altair'' | Bellatrix \<Rightarrow> ''bellatrix''
      | Capella \<Rightarrow> ''capella'' | Deneb \<Rightarrow> ''deneb'' | Electra \<Rightarrow> ''electra''
      | Fulu \<Rightarrow> ''fulu'' | Gloas \<Rightarrow> ''gloas'')"

definition start_and_stay_in :: "config \<Rightarrow> phase \<Rightarrow> config" where
  "start_and_stay_in self phase =
     upgrade_once
       (self\<lparr> cfg_config_name := phase_to_string phase @ ''-'' @ cfg_config_name self \<rparr>)
       phase GENESIS_EPOCH"

definition rapid_upgrade :: "config \<Rightarrow> config" where
  "rapid_upgrade self =
     config_fork_epochs_mut (\<lambda>_ position. position + 1)
       (self\<lparr> cfg_config_name := ''rapid-upgrade-'' @ cfg_config_name self \<rparr>)"

datatype config_error = NameEmpty | NameContainsIllegalCharacters | BlobScheduleUndefined

definition legal_name_char :: "char \<Rightarrow> bool" where
  "legal_name_char c \<longleftrightarrow>
     (let n = (of_char c :: nat)
      in (97 \<le> n \<and> n \<le> 122) \<or> (48 \<le> n \<and> n \<le> 57) \<or> n = 45)"

definition config_validate :: "config \<Rightarrow> (config_error, unit) result" where
  "config_validate self =
     (if cfg_config_name self = [] then Err NameEmpty
      else if \<exists>c \<in> set (cfg_config_name self). \<not> legal_name_char c
      then Err NameContainsIllegalCharacters
      else Ok ())"

definition config_version :: "config \<Rightarrow> phase \<Rightarrow> bytes" where
  "config_version self phase =
     (case phase of
        Phase0 \<Rightarrow> cfg_genesis_fork_version self
      | Altair \<Rightarrow> cfg_altair_fork_version self
      | Bellatrix \<Rightarrow> cfg_bellatrix_fork_version self
      | Capella \<Rightarrow> cfg_capella_fork_version self
      | Deneb \<Rightarrow> cfg_deneb_fork_version self
      | Electra \<Rightarrow> cfg_electra_fork_version self
      | Fulu \<Rightarrow> cfg_fulu_fork_version self
      | Gloas \<Rightarrow> cfg_gloas_fork_version self)"

definition config_fork_epoch :: "config \<Rightarrow> phase \<Rightarrow> epoch" where
  "config_fork_epoch self phase =
     (case phase of
        Phase0 \<Rightarrow> GENESIS_EPOCH
      | Altair \<Rightarrow> cfg_altair_fork_epoch self
      | Bellatrix \<Rightarrow> cfg_bellatrix_fork_epoch self
      | Capella \<Rightarrow> cfg_capella_fork_epoch self
      | Deneb \<Rightarrow> cfg_deneb_fork_epoch self
      | Electra \<Rightarrow> cfg_electra_fork_epoch self
      | Fulu \<Rightarrow> cfg_fulu_fork_epoch self
      | Gloas \<Rightarrow> cfg_gloas_fork_epoch self)"

text \<open>The last element of a list of phases, \<open>Phase0\<close> if there is none.\<close>

definition last_phase :: "(phase \<times> 'a) list \<Rightarrow> phase" where
  "last_phase entries = (if entries = [] then Phase0 else fst (last entries))"

definition phase_at_epoch :: "config \<Rightarrow> epoch \<Rightarrow> phase" where
  "phase_at_epoch self epoch =
     last_phase (takeWhile (\<lambda>(_, fork_epoch). fork_epoch \<le> epoch) (config_fork_epochs self))"

definition config_fork_slot :: "preset \<Rightarrow> config \<Rightarrow> phase \<Rightarrow> slot toption" where
  "config_fork_slot P self phase =
     (case checked_mul (config_fork_epoch self phase) (SlotsPerEpoch P) of
        None \<Rightarrow> TNone | Some slot \<Rightarrow> TSome slot)"

definition config_fork_slots :: "preset \<Rightarrow> config \<Rightarrow> (phase \<times> slot toption) list" where
  "config_fork_slots P self = map (\<lambda>phase. (phase, config_fork_slot P self phase)) all_phases"

definition phase_at_slot :: "preset \<Rightarrow> config \<Rightarrow> slot \<Rightarrow> phase" where
  "phase_at_slot P self slot =
     last_phase
       (takeWhile (\<lambda>(_, fork_slot). toption_le fork_slot (TSome slot)) (config_fork_slots P self))"

definition next_phase_at_slot :: "preset \<Rightarrow> config \<Rightarrow> slot \<Rightarrow> phase option" where
  "next_phase_at_slot P self slot =
     map_option fst
       (find (\<lambda>(_, fork_slot).
          case into_option fork_slot of None \<Rightarrow> False | Some s \<Rightarrow> slot < s)
        (config_fork_slots P self))"

definition is_phase_enabled :: "preset \<Rightarrow> config \<Rightarrow> phase \<Rightarrow> bool" where
  "is_phase_enabled P self phase \<longleftrightarrow> into_option (config_fork_slot P self phase) \<noteq> None"

definition genesis_phase :: "config \<Rightarrow> phase" where
  "genesis_phase self = phase_at_epoch self GENESIS_EPOCH"

definition version_at_epoch :: "config \<Rightarrow> epoch \<Rightarrow> bytes" where
  "version_at_epoch self epoch = config_version self (phase_at_epoch self epoch)"

definition fork_at_epoch :: "config \<Rightarrow> epoch \<Rightarrow> fork" where
  "fork_at_epoch self epoch =
     (let phase = phase_at_epoch self epoch
      in \<lparr> fork_previous_version =
             config_version self (case phase_previous phase of None \<Rightarrow> phase | Some p \<Rightarrow> p),
           fork_current_version = config_version self phase,
           fork_epoch = config_fork_epoch self phase \<rparr>)"

definition is_peerdas_scheduled :: "config \<Rightarrow> bool" where
  "is_peerdas_scheduled self \<longleftrightarrow> cfg_fulu_fork_epoch self \<noteq> FAR_FUTURE_EPOCH"

subsection \<open>Parameters that depend on the phase\<close>

definition attestation_subnet_prefix_bits :: "config \<Rightarrow> nat res" where
  "attestation_subnet_prefix_bits self =
     map_ok (\<lambda>bits. min (bits + cfg_attestation_subnet_extra_bits self) 255)
       (usize_ilog2_ceil AttestationSubnetCount)"

definition attestation_due_bps_at :: "config \<Rightarrow> phase \<Rightarrow> nat" where
  "attestation_due_bps_at self phase =
     (if phase < Gloas then cfg_attestation_due_bps self else cfg_attestation_due_bps_gloas self)"

definition aggregate_due_bps_at :: "config \<Rightarrow> phase \<Rightarrow> nat" where
  "aggregate_due_bps_at self phase =
     (if phase < Gloas then cfg_aggregate_due_bps self else cfg_aggregate_due_bps_gloas self)"

definition sync_message_due_bps_at :: "config \<Rightarrow> phase \<Rightarrow> nat" where
  "sync_message_due_bps_at self phase =
     (if phase < Gloas then cfg_sync_message_due_bps self
      else cfg_sync_message_due_bps_gloas self)"

definition contribution_due_bps_at :: "config \<Rightarrow> phase \<Rightarrow> nat" where
  "contribution_due_bps_at self phase =
     (if phase < Gloas then cfg_contribution_due_bps self
      else cfg_contribution_due_bps_gloas self)"

text \<open>\<open>as_nanos\<close> is a \<open>u128\<close>; the product saturates at that width.\<close>

definition slot_component_duration :: "config \<Rightarrow> nat \<Rightarrow> nat" where
  "slot_component_duration self bps =
     (let nanos = min (cfg_slot_duration_ms self * 1000000 * bps) (2 ^ 128 - 1) div BASIS_POINTS
      in if nanos < u64_bound then nanos else u64_max)"

definition config_max_request_blocks :: "config \<Rightarrow> phase \<Rightarrow> nat" where
  "config_max_request_blocks self phase =
     (case phase of
        Phase0 \<Rightarrow> cfg_max_request_blocks self
      | Altair \<Rightarrow> cfg_max_request_blocks self
      | Bellatrix \<Rightarrow> cfg_max_request_blocks self
      | Capella \<Rightarrow> cfg_max_request_blocks self
      | _ \<Rightarrow> cfg_max_request_blocks_deneb self)"

definition max_request_data_column_sidecars :: "preset \<Rightarrow> config \<Rightarrow> nat" where
  "max_request_data_column_sidecars P self =
     saturating_mul (cfg_max_request_blocks_deneb self) (NumberOfColumns P)"

definition config_blob_sidecar_subnet_count :: "config \<Rightarrow> phase \<Rightarrow> nat" where
  "config_blob_sidecar_subnet_count self phase =
     (if phase \<le> Deneb then cfg_blob_sidecar_subnet_count self
      else cfg_blob_sidecar_subnet_count_electra self)"

definition max_request_blob_sidecars :: "config \<Rightarrow> phase \<Rightarrow> nat" where
  "max_request_blob_sidecars self phase =
     (let max_blobs_per_block_for_phase =
            (if phase \<le> Deneb then cfg_max_blobs_per_block self
             else cfg_max_blobs_per_block_electra self)
      in saturating_mul (config_max_request_blocks self phase) max_blobs_per_block_for_phase)"

definition max_compressed_len :: "nat \<Rightarrow> nat option" where
  "max_compressed_len n =
     (case checked_add 32 n of None \<Rightarrow> None | Some m \<Rightarrow> checked_add m (n div 6))"

definition max_payload_size_compressed :: "config \<Rightarrow> nat res" where
  "max_payload_size_compressed self = expect (max_compressed_len (cfg_max_payload_size self))"

definition max_message_size :: "config \<Rightarrow> nat res" where
  "max_message_size self =
     and_then (max_payload_size_compressed self) (\<lambda>n.
     and_then (expect (checked_add n 1024)) (\<lambda>n.
     Ok (max n (1024 * 1024))))"

definition max_blob_sideacar_subnet_count :: "config \<Rightarrow> nat" where
  "max_blob_sideacar_subnet_count self =
     max (cfg_blob_sidecar_subnet_count self) (cfg_blob_sidecar_subnet_count_electra self)"

definition min_epochs_for_block_requests :: "config \<Rightarrow> phase \<Rightarrow> nat" where
  "min_epochs_for_block_requests self phase =
     (let churn_limit_quotient =
            (if Gloas \<le> phase then
               let numerator =
                     saturating_mul
                       (saturating_mul (cfg_churn_limit_quotient_gloas self)
                          (cfg_consolidation_churn_limit_quotient self)) 3;
                   denominator =
                     saturating_add
                       (saturating_mul (cfg_consolidation_churn_limit_quotient self) 2)
                       (saturating_mul (cfg_churn_limit_quotient_gloas self) 3)
               in numerator div denominator
             else cfg_churn_limit_quotient self)
      in saturating_add (cfg_min_validator_withdrawability_delay self)
           (churn_limit_quotient div 2))"

definition custody_group_count :: "config \<Rightarrow> custody_mode \<Rightarrow> nat" where
  "custody_group_count self custody_mode =
     (case custody_mode of
        CustodySuper \<Rightarrow> cfg_number_of_custody_groups self
      | CustodySemi \<Rightarrow> cfg_number_of_custody_groups self div 2
      | CustodyMinimal \<Rightarrow> cfg_custody_requirement self)"

definition sampling_size_custody_groups :: "config \<Rightarrow> nat \<Rightarrow> nat" where
  "sampling_size_custody_groups self count = max count (cfg_samples_per_slot self)"

definition columns_per_group :: "preset \<Rightarrow> config \<Rightarrow> nat res" where
  "columns_per_group P self =
     expect (checked_div (NumberOfColumns P) (cfg_number_of_custody_groups self))"

definition sampling_column_count :: "preset \<Rightarrow> config \<Rightarrow> nat \<Rightarrow> nat res" where
  "sampling_column_count P self count =
     map_ok (saturating_mul (sampling_size_custody_groups self count)) (columns_per_group P self)"

definition custody_size :: "preset \<Rightarrow> config \<Rightarrow> nat \<Rightarrow> nat res" where
  "custody_size P self count =
     and_then (columns_per_group P self) (\<lambda>columns. expect (checked_div count columns))"

definition get_blob_schedule_entry :: "config \<Rightarrow> epoch \<Rightarrow> blob_schedule_entry" where
  "get_blob_schedule_entry self epoch =
     (case find (\<lambda>entry. bse_epoch entry \<le> epoch)
             (sort_key (\<lambda>entry. - int (bse_epoch entry)) (cfg_blob_schedule self)) of
        Some entry \<Rightarrow> entry
      | None \<Rightarrow>
          \<lparr> bse_epoch = cfg_electra_fork_epoch self,
            bse_max_blobs_per_block = cfg_max_blobs_per_block_electra self \<rparr>)"

definition get_scheduled_gas_limit :: "config \<Rightarrow> epoch \<Rightarrow> nat option" where
  "get_scheduled_gas_limit self epoch =
     (if epoch < cfg_gloas_fork_epoch self then None
      else map_option gle_gas_limit
        (find (\<lambda>entry. gle_epoch entry \<le> epoch)
           (sort_key (\<lambda>entry. - int (gle_epoch entry)) (cfg_gas_limit_schedule self))))"

definition gas_limit :: "config \<Rightarrow> nat option \<Rightarrow> epoch \<Rightarrow> nat" where
  "gas_limit self configured epoch =
     (case configured of
        Some limit \<Rightarrow> limit
      | None \<Rightarrow>
          (case get_scheduled_gas_limit self epoch of
             Some limit \<Rightarrow> limit
           | None \<Rightarrow> PREFERRED_EXECUTION_GAS_LIMIT))"

definition config_max_blobs_per_block :: "config \<Rightarrow> epoch \<Rightarrow> nat" where
  "config_max_blobs_per_block self epoch =
     (let phase = phase_at_epoch self epoch
      in if phase \<le> Deneb then cfg_max_blobs_per_block self
         else if phase = Electra then cfg_max_blobs_per_block_electra self
         else bse_max_blobs_per_block (get_blob_schedule_entry self epoch))"

definition max_gossip_future_slots :: "config \<Rightarrow> slot res" where
  "max_gossip_future_slots self =
     (let disparity = cfg_maximum_gossip_clock_disparity self;
          slot_duration = cfg_slot_duration_ms self
      in if slot_duration = 0 then Panic
         else let slots = (disparity + slot_duration - 1) div slot_duration
              in if slots < u64_bound then Ok slots else Panic)"

definition max_blobs :: "config \<Rightarrow> nat" where
  "max_blobs self =
     fold max (map bse_max_blobs_per_block (cfg_blob_schedule self))
       (cfg_max_blobs_per_block_electra self)"

subsection \<open>Facts on the fork schedule\<close>

lemma config_fork_epochs_eq:
  "config_fork_epochs self = map (\<lambda>phase. (phase, config_fork_epoch self phase)) (tl all_phases)"
  by (simp add: config_fork_epochs_def all_phases_def config_fork_epoch_def)

definition fork_epochs_bounded :: "config \<Rightarrow> bool" where
  "fork_epochs_bounded self \<longleftrightarrow> (\<forall>phase. config_fork_epoch self phase \<le> u64_max)"

lemma fork_slot_reached:
  assumes "0 < SlotsPerEpoch P" "slot \<le> u64_max"
  shows "toption_le (config_fork_slot P self phase) (TSome slot)
    \<longleftrightarrow> config_fork_epoch self phase \<le> slot div SlotsPerEpoch P"
proof -
  let ?e = "config_fork_epoch self phase" and ?n = "SlotsPerEpoch P"
  have "?e * ?n \<le> slot \<longleftrightarrow> ?e \<le> slot div ?n" using assms(1) by (simp add: less_eq_div_iff_mult_less_eq)
  moreover have "?e * ?n \<le> slot \<Longrightarrow> ?e * ?n < u64_bound" using assms(2) by (simp add: u64_bound_power)
  ultimately show ?thesis by (auto simp: config_fork_slot_def checked_mul_def)
qed

lemma takeWhile_map_phases:
  "last_phase (takeWhile (\<lambda>(_, x). Q x) (map (\<lambda>phase. (phase, g phase)) ps))
    = (if takeWhile (\<lambda>phase. Q (g phase)) ps = [] then Phase0
       else last (takeWhile (\<lambda>phase. Q (g phase)) ps))"
  by (simp add: last_phase_def takeWhile_map comp_def last_map)

text \<open>
  C25. The two lookups in the fork schedule agree: the phase of a slot, computed by comparing slot
  numbers with the multiplications that can overflow treated as never reached, is the phase of the
  epoch of that slot, whatever the order of the configured fork epochs.
\<close>

theorem phase_at_slot_eq_phase_at_epoch:
  assumes "0 < SlotsPerEpoch P" "slot \<le> u64_max"
  shows "phase_at_slot P self slot = phase_at_epoch self (slot div SlotsPerEpoch P)"
proof -
  have phases: "all_phases = Phase0 # tl all_phases" by (simp add: all_phases_def)
  have "config_fork_epoch self Phase0 = 0" by (simp add: config_fork_epoch_def GENESIS_EPOCH_def)
  then have "takeWhile (\<lambda>phase. config_fork_epoch self phase \<le> slot div SlotsPerEpoch P) all_phases
      = Phase0 # takeWhile (\<lambda>phase. config_fork_epoch self phase \<le> slot div SlotsPerEpoch P) (tl all_phases)"
    by (subst phases) simp
  then show ?thesis
    using assms
    by (simp add: phase_at_slot_def phase_at_epoch_def config_fork_slots_def config_fork_epochs_eq
        takeWhile_map_phases fork_slot_reached)
qed

theorem phase_at_slot_eq_phase_at_epoch_witness:
  "phase_at_slot MainnetPreset config_mainnet 11649024 = phase_at_epoch config_mainnet 364032
    \<and> phase_at_epoch config_mainnet 364032 = Electra"
  using phase_at_slot_eq_phase_at_epoch [of MainnetPreset 11649024 config_mainnet]
  by (simp add: MainnetPreset_def phase_at_epoch_def config_fork_epochs_def all_phases_def
      config_mainnet_def config_default_def last_phase_def FAR_FUTURE_EPOCH_def)

lemma config_fork_epoch_upgrade_once:
  "config_fork_epoch (upgrade_once self post_phase epoch) phase =
     (if phase = Phase0 \<or> phase < post_phase then GENESIS_EPOCH
      else if phase = post_phase then epoch else FAR_FUTURE_EPOCH)"
  by (cases phase) (simp_all add: upgrade_once_def config_fork_epochs_mut_def config_fork_epoch_def)

text \<open>
  A configuration made by \<open>upgrade_once\<close> is in the target phase from the given epoch on and in
  the phase before it until then; epochs count up to, and not including, the far-future epoch.
\<close>

lemma upgrade_once_phases:
  assumes "epoch < FAR_FUTURE_EPOCH" "phase_previous post_phase = Some pre_phase"
  shows "phase_at_epoch (upgrade_once self post_phase fork) epoch
    = (if fork \<le> epoch then post_phase else pre_phase)"
  using assms
  by (cases post_phase)
    (auto simp: phase_at_epoch_def config_fork_epochs_eq takeWhile_map_phases config_fork_epoch_upgrade_once
      all_phases_def less_phase_def GENESIS_EPOCH_def last_phase_def)

lemma upgrade_once_phases_example:
  "phase_at_epoch (upgrade_once config_minimal Electra 10) 9 = Deneb
    \<and> phase_at_epoch (upgrade_once config_minimal Electra 10) 10 = Electra"
  using upgrade_once_phases [of 9 Electra Deneb config_minimal 10]
    upgrade_once_phases [of 10 Electra Deneb config_minimal 10]
  by (simp add: FAR_FUTURE_EPOCH_def)

lemma find_sorted_desc:
  fixes f :: "'a \<Rightarrow> nat"
  assumes "find (\<lambda>x. f x \<le> e) (sort_key (\<lambda>x. - int (f x)) xs) = Some x"
  shows "x \<in> set xs \<and> f x \<le> e \<and> (\<forall>y \<in> set xs. f y \<le> e \<longrightarrow> f y \<le> f x)"
proof -
  define ys where "ys = sort_key (\<lambda>x. - int (f x)) xs"
  have set_ys: "set ys = set xs" by (simp add: ys_def)
  have sorted: "sorted (map (\<lambda>x. - int (f x)) ys)" by (simp add: ys_def)
  obtain i where i: "i < length ys" "f (ys ! i) \<le> e" "x = ys ! i" "\<forall>j<i. \<not> f (ys ! j) \<le> e"
    using assms unfolding ys_def [symmetric] find_Some_iff by blast
  have "f y \<le> f x" if y: "y \<in> set xs" "f y \<le> e" for y
  proof -
    obtain j where j: "j < length ys" "y = ys ! j" using y(1) set_ys by (metis in_set_conv_nth)
    then have "i \<le> j" using i(4) y(2) not_le by blast
    then show ?thesis using sorted_nth_mono [OF sorted, of i j] i j by simp
  qed
  then show ?thesis using i set_ys nth_mem by blast
qed

text \<open>
  The blob schedule is looked up by epoch, in whatever order the configuration lists it: the
  entry found is one in force (its epoch is not after the given one) and no entry in force starts
  later.  Only when no entry is in force does the lookup fall back to the Electra limit.
\<close>

lemma get_blob_schedule_entry_latest:
  "(let entry = get_blob_schedule_entry self epoch;
        in_force = filter (\<lambda>e. bse_epoch e \<le> epoch) (cfg_blob_schedule self)
    in if in_force = []
       then entry = \<lparr> bse_epoch = cfg_electra_fork_epoch self,
                       bse_max_blobs_per_block = cfg_max_blobs_per_block_electra self \<rparr>
       else entry \<in> set in_force \<and> list_all (\<lambda>e. bse_epoch e \<le> bse_epoch entry) in_force)"
proof (cases "find (\<lambda>entry. bse_epoch entry \<le> epoch)
    (sort_key (\<lambda>entry. - int (bse_epoch entry)) (cfg_blob_schedule self))")
  case None
  then have "filter (\<lambda>e. bse_epoch e \<le> epoch) (cfg_blob_schedule self) = []"
    by (simp add: find_None_iff filter_empty_conv)
  then show ?thesis using None by (simp add: get_blob_schedule_entry_def)
next
  case (Some entry)
  then have "entry \<in> set (cfg_blob_schedule self) \<and> bse_epoch entry \<le> epoch
      \<and> (\<forall>e \<in> set (cfg_blob_schedule self). bse_epoch e \<le> epoch \<longrightarrow> bse_epoch e \<le> bse_epoch entry)"
    by (rule find_sorted_desc)
  then show ?thesis using Some by (auto simp: get_blob_schedule_entry_def list_all_iff filter_empty_conv Let_def)
qed

end
