(* ===== verification/Shuffling.thy ===== *)
theory Shuffling
  imports Hashing Preset "HOL-Library.Multiset"
begin

text \<open>
  The crate \<open>shuffling\<close> (\<open>shuffling/src/lib.rs\<close>): the swap-or-not shuffle, once for a single
  index (\<open>shuffle_single\<close>) and once for a whole slice (\<open>shuffle_slice\<close>).  The slice version
  hashes once per 256 positions, walks low and high halves in aligned chunks, and distributes
  the chunks over worker threads when the slice is long.

  \<open>compress\<close> is the compression function of the crate \<open>sha2\<close> and \<open>get_bit\<close> the bit accessor of
  the crate \<open>bit_field\<close>; \<open>threads\<close> is the number of threads the machine offers
  (\<open>shuffle_threadpool_size\<close>).  The worker threads receive disjoint mutable subslices, so the
  model maps each piece on its own and puts the results back in place.
\<close>

type_synonym get_bit = "bytes \<Rightarrow> nat \<Rightarrow> bool"

definition BITS_PER_HASH :: nat where
  "BITS_PER_HASH = 32 * 8"

definition MIN_CHUNKS_PER_WORKER :: nat where
  "MIN_CHUNKS_PER_WORKER = 8"

definition MIN_PARALLEL_LEN :: nat where
  "MIN_PARALLEL_LEN = 2 ^ 16"

definition from_le_bytes :: "bytes \<Rightarrow> nat" where
  "from_le_bytes bs = foldr (\<lambda>b acc. unat b + 256 * acc) bs 0"

definition compute_pivot ::
  "compress256 \<Rightarrow> h256 \<Rightarrow> nat \<Rightarrow> nat \<Rightarrow> nat" where
  "compute_pivot compress seed round index_count =
     from_le_bytes (take 8 (hash_256_8 compress seed (of_nat round))) mod index_count"

text \<open>The cast \<open>as u32\<close> keeps the low 32 bits of the window number.\<close>

definition compute_source ::
  "compress256 \<Rightarrow> h256 \<Rightarrow> nat \<Rightarrow> nat \<Rightarrow> h256" where
  "compute_source compress seed round position_window =
     hash_256_8_32 compress seed (of_nat round) (position_window mod 2 ^ 32)"

fun swap_using_source ::
  "get_bit \<Rightarrow> h256 \<Rightarrow> nat list \<Rightarrow> 'a list \<Rightarrow>
   'a list \<Rightarrow> 'a list \<times> 'a list" where
  "swap_using_source get_bit source (bit_index # bit_indices) (index # low) (flip # high) =
     (let (low', high') = swap_using_source get_bit source bit_indices low high
      in if get_bit source bit_index then (flip # low', index # high')
         else (index # low', flip # high'))"
| "swap_using_source get_bit source _ low high = (low, high)"

text \<open>
  The loop of \<open>swap_chunk_range\<close>: the windows count down, the chunks of \<open>low\<close> are taken from the
  front and those of \<open>high\<close> from the back, and the zip ends with the shortest iterator.
\<close>

fun swap_chunks ::
  "compress256 \<Rightarrow> get_bit \<Rightarrow> h256 \<Rightarrow> nat \<Rightarrow>
   nat list \<Rightarrow> 'a list \<Rightarrow> 'a list \<Rightarrow>
   'a list \<times> 'a list" where
  "swap_chunks compress get_bit seed round [] low high = (low, high)"
| "swap_chunks compress get_bit seed round (offset_chunk_index # windows) low high =
     (if length low < BITS_PER_HASH \<or> length high < BITS_PER_HASH then (low, high)
      else
        let source = compute_source compress seed round offset_chunk_index;
            low_chunk = take BITS_PER_HASH low;
            high_chunk = drop (length high - BITS_PER_HASH) high;
            (low_elements, high_elements) =
              swap_using_source get_bit source [0..<BITS_PER_HASH] (rev low_chunk) high_chunk;
            (low', high') =
              swap_chunks compress get_bit seed round windows (drop BITS_PER_HASH low)
                (take (length high - BITS_PER_HASH) high)
        in (rev low_elements @ low', high' @ high_elements))"

definition swap_chunk_range ::
  "compress256 \<Rightarrow> get_bit \<Rightarrow> h256 \<Rightarrow> nat \<Rightarrow>
   'a list \<Rightarrow> 'a list \<Rightarrow> nat \<Rightarrow> 'a list \<times> 'a list" where
  "swap_chunk_range compress get_bit seed round low high offset =
     swap_chunks compress get_bit seed round (rev [0..<offset div BITS_PER_HASH]) low high"

text \<open>The offsets \<open>(0..=n).rev().step_by(step)\<close>.\<close>

fun rev_step_by :: "nat \<Rightarrow> nat \<Rightarrow> nat list" where
  "rev_step_by n step = n # (if step = 0 \<or> n < step then [] else rev_step_by (n - step) step)"

declare rev_step_by.simps [simp del]

text \<open>
  The pieces handed to the worker threads: \<open>low.chunks_mut(part_len)\<close> from the front,
  \<open>high.rchunks_mut(part_len)\<close> from the back, each with its offset.
\<close>

fun swap_pieces ::
  "compress256 \<Rightarrow> get_bit \<Rightarrow> h256 \<Rightarrow> nat \<Rightarrow>
   nat \<Rightarrow> nat list \<Rightarrow> 'a list \<Rightarrow> 'a list \<Rightarrow>
   'a list \<times> 'a list" where
  "swap_pieces compress get_bit seed round part_len [] low high = (low, high)"
| "swap_pieces compress get_bit seed round part_len (part_offset # offsets) low high =
     (if low = [] \<or> high = [] then (low, high)
      else
        let (low_part, high_part) =
              swap_chunk_range compress get_bit seed round (take part_len low)
                (drop (length high - part_len) high) part_offset;
            (low', high') =
              swap_pieces compress get_bit seed round part_len offsets (drop part_len low)
                (take (length high - part_len) high)
        in (low_part @ low', high' @ high_part))"

definition div_ceil :: "nat \<Rightarrow> nat \<Rightarrow> nat" where
  "div_ceil a b = (a + b - 1) div b"

text \<open>
  The two halves after the unaligned positions have been handled: sequentially, or in pieces
  when more than one worker would get at least \<open>MIN_CHUNKS_PER_WORKER\<close> chunks.
\<close>

definition swap_aligned ::
  "compress256 \<Rightarrow> get_bit \<Rightarrow> h256 \<Rightarrow> nat \<Rightarrow>
   nat \<Rightarrow> nat \<Rightarrow> nat \<Rightarrow> 'a list \<Rightarrow>
   'a list \<Rightarrow> 'a list \<times> 'a list" where
  "swap_aligned compress get_bit seed round worker_count chunk_count offset_length low high =
     (let workers = min worker_count (chunk_count div MIN_CHUNKS_PER_WORKER) in
      if workers > 1 then
        let part_chunks = div_ceil chunk_count workers;
            part_len = saturating_mul part_chunks BITS_PER_HASH
        in swap_pieces compress get_bit seed round part_len (rev_step_by offset_length part_len)
             low high
      else swap_chunk_range compress get_bit seed round low high offset_length)"

definition swap_trailing ::
  "compress256 \<Rightarrow> get_bit \<Rightarrow> h256 \<Rightarrow> nat \<Rightarrow> nat \<Rightarrow> nat \<Rightarrow> nat \<Rightarrow> 'a list \<Rightarrow> 'a list \<Rightarrow>
   'a list \<times> 'a list" where
  "swap_trailing compress get_bit seed round mirror offset_length trailing low high =
     (if trailing > 0 then
        let source = compute_source compress seed round (offset_length div BITS_PER_HASH);
            bit_indices = rev [0..<offset_length mod BITS_PER_HASH];
            keep = saturating_sub mirror trailing;
            (low_elements, high_elements) =
              swap_using_source get_bit source bit_indices (take trailing low)
                (rev (drop keep high))
        in (low_elements @ drop trailing low, take keep high @ rev high_elements)
      else (low, high))"

definition swap_leading ::
  "compress256 \<Rightarrow> get_bit \<Rightarrow> h256 \<Rightarrow> nat \<Rightarrow> nat \<Rightarrow> nat \<Rightarrow> nat \<Rightarrow> 'a list \<Rightarrow> 'a list \<Rightarrow>
   'a list \<times> 'a list" where
  "swap_leading compress get_bit seed round mirror offset_mirror leading low high =
     (if leading > 0 then
        let source = compute_source compress seed round (offset_mirror div BITS_PER_HASH);
            bit_indices = rev [0..<BITS_PER_HASH];
            keep = saturating_sub mirror leading;
            (low_elements, high_elements) =
              swap_using_source get_bit source bit_indices (drop keep low)
                (rev (take leading high))
        in (take keep low @ low_elements, rev high_elements @ drop leading high)
      else (low, high))"

definition swap_around_mirror ::
  "compress256 \<Rightarrow> get_bit \<Rightarrow> h256 \<Rightarrow> nat \<Rightarrow>
   'a list \<Rightarrow> nat \<Rightarrow> nat \<Rightarrow> 'a list res" where
  "swap_around_mirror compress get_bit seed round slc offset worker_count =
     (let mirror = length slc div 2;
          offset_mirror = saturating_add offset mirror;
          offset_length = saturating_add offset (length slc);
          trailing = min mirror (offset_length mod BITS_PER_HASH);
          leading = saturating_sub mirror trailing mod BITS_PER_HASH;
          low = take mirror slc;
          high = drop mirror slc;
          (middle, high) =
            (if length low < length high then (take 1 high, drop 1 high) else ([], high))
      in
        and_then (assert_rs (length low = mirror)) (\<lambda>_.
        and_then (assert_rs (length high = mirror)) (\<lambda>_.
          let (low, high) =
                swap_trailing compress get_bit seed round mirror offset_length trailing low high;
              (low, high) =
                swap_leading compress get_bit seed round mirror offset_mirror leading low high;
              chunk_count = saturating_sub mirror trailing div BITS_PER_HASH
          in if chunk_count = 0 then Ok (low @ middle @ high)
             else
               let low_end = saturating_sub mirror leading;
                   high_end = saturating_sub mirror trailing;
                   (low_mid, high_mid) =
                     swap_aligned compress get_bit seed round worker_count chunk_count offset_length
                       (drop trailing (take low_end low)) (drop leading (take high_end high))
               in Ok ((take trailing low @ low_mid @ drop low_end low) @ middle @
                      (take leading high @ high_mid @ drop high_end high)))))"

text \<open>One iteration of the loop of \<open>shuffle_rounds\<close>; \<open>split_at_mut\<close> panics out of range.\<close>

definition shuffle_round ::
  "compress256 \<Rightarrow> get_bit \<Rightarrow> h256 \<Rightarrow> nat \<Rightarrow>
   nat \<Rightarrow> nat \<Rightarrow> 'a list \<Rightarrow> 'a list res" where
  "shuffle_round compress get_bit seed len worker_count round slc =
     (let pivot = compute_pivot compress seed round len;
          midpoint = saturating_add pivot 1
      in and_then (assert_rs (midpoint \<le> length slc)) (\<lambda>_.
         and_then (swap_around_mirror compress get_bit seed round (take midpoint slc) 0
                     worker_count) (\<lambda>low.
         and_then (swap_around_mirror compress get_bit seed round (drop midpoint slc) midpoint
                     worker_count) (\<lambda>high.
         Ok (low @ high)))))"

definition shuffle_rounds ::
  "compress256 \<Rightarrow> get_bit \<Rightarrow> preset \<Rightarrow>
   'a list \<Rightarrow> h256 \<Rightarrow> nat \<Rightarrow> nat \<Rightarrow> 'a list res" where
  "shuffle_rounds compress get_bit P slc seed len worker_count =
     try_fold (shuffle_round compress get_bit seed len worker_count)
       (rev [0..<SHUFFLE_ROUND_COUNT P]) slc"

definition shuffle_slice ::
  "compress256 \<Rightarrow> get_bit \<Rightarrow> nat \<Rightarrow> preset \<Rightarrow>
   'a list \<Rightarrow> h256 \<Rightarrow> 'a list res" where
  "shuffle_slice compress get_bit threads P slc seed =
     (if slc = [] then Ok slc
      else if length slc \<ge> MIN_PARALLEL_LEN
      then shuffle_rounds compress get_bit P slc seed (length slc) threads
      else shuffle_rounds compress get_bit P slc seed (length slc) 1)"

definition shuffle_single_round ::
  "compress256 \<Rightarrow> get_bit \<Rightarrow> nat \<Rightarrow> h256 \<Rightarrow>
   nat \<Rightarrow> nat \<Rightarrow> nat" where
  "shuffle_single_round compress get_bit index_count seed round index =
     (let pivot = compute_pivot compress seed round index_count;
          flip = saturating_sub (saturating_add pivot index_count) index mod index_count;
          position = max index flip;
          source = compute_source compress seed round (position div BITS_PER_HASH);
          bit_index = position mod 256
      in if get_bit source bit_index then flip else index)"

definition shuffle_single ::
  "compress256 \<Rightarrow> get_bit \<Rightarrow> preset \<Rightarrow> nat \<Rightarrow>
   nat \<Rightarrow> h256 \<Rightarrow> nat res" where
  "shuffle_single compress get_bit P index index_count seed =
     and_then (assert_rs (index < index_count)) (\<lambda>_.
       Ok (fold (shuffle_single_round compress get_bit index_count seed)
             [0..<SHUFFLE_ROUND_COUNT P] index))"

subsection \<open>Positionwise description of the swaps\<close>

text \<open>
  \<open>pick f xs ys\<close> takes position \<open>k\<close> from \<open>ys\<close> where \<open>f k\<close> holds and from \<open>xs\<close> elsewhere: swapping
  two lists of equal length at the positions satisfying \<open>f\<close> gives \<open>pick f xs ys\<close> and
  \<open>pick f ys xs\<close>.  \<open>bit_at\<close> is the bit that decides the fate of a position in a round.
\<close>

definition pick :: "(nat \<Rightarrow> bool) \<Rightarrow> 'a list \<Rightarrow> 'a list \<Rightarrow> 'a list" where
  "pick f xs ys = map (\<lambda>k. if f k then ys ! k else xs ! k) [0..<length xs]"

definition bit_at :: "compress256 \<Rightarrow> get_bit \<Rightarrow> h256 \<Rightarrow> nat \<Rightarrow> nat \<Rightarrow> bool" where
  "bit_at compress get_bit seed round pos =
     get_bit (compute_source compress seed round (pos div 256)) (pos mod 256)"

lemma length_pick [simp]: "length (pick f xs ys) = length xs"
  by (simp add: pick_def)

lemma nth_pick [simp]: "k < length xs \<Longrightarrow> pick f xs ys ! k = (if f k then ys ! k else xs ! k)"
  by (simp add: pick_def)

lemma pick_cong: "(\<And>k. k < length xs \<Longrightarrow> f k = g k) \<Longrightarrow> pick f xs ys = pick g xs ys"
  by (simp add: pick_def)

lemma pick_append:
  "length a = length c \<Longrightarrow>
     pick f (a @ b) (c @ d) = pick f a c @ pick (\<lambda>k. f (k + length a)) b d"
  by (rule nth_equalityI) (auto simp: nth_append)

lemma pick_rev:
  "length a = length b \<Longrightarrow> pick f (rev a) (rev b) = rev (pick (\<lambda>k. f (length a - Suc k)) a b)"
  by (rule nth_equalityI) (auto simp: rev_nth)

lemma pick_Cons: "pick f (x # xs) (y # ys) = (if f 0 then y else x) # pick (\<lambda>k. f (Suc k)) xs ys"
  using pick_append [of "[x]" "[y]" f xs ys] by (simp add: pick_def)

lemma swap_using_source_pick:
  "length ls = length hs \<Longrightarrow> length ls \<le> length idx \<Longrightarrow>
     swap_using_source get_bit src idx ls hs =
       (pick (\<lambda>k. get_bit src (idx ! k)) ls hs, pick (\<lambda>k. get_bit src (idx ! k)) hs ls)"
proof (induction get_bit src idx ls hs rule: swap_using_source.induct)
  case (1 get_bit src b bs i low fl high)
  then show ?case by (simp add: pick_Cons)
qed (auto simp: pick_def)

lemma bit_at_window:
  assumes "pos = 256 * v + j" "j < 256"
  shows "bit_at compress get_bit seed round pos = get_bit (compute_source compress seed round v) j"
  using assms by (simp add: bit_at_def)

lemma swap_chunks_pick:
  assumes "length low = 256 * m" "length rh = 256 * m" "m \<le> w"
  shows "swap_chunks compress get_bit seed round (rev [0..<w]) low (rev rh) =
    (pick (\<lambda>k. bit_at compress get_bit seed round (256 * w - Suc k)) low rh,
     rev (pick (\<lambda>k. bit_at compress get_bit seed round (256 * w - Suc k)) rh low))"
  using assms
proof (induction m arbitrary: w low rh)
  case 0
  then show ?case by (cases "rev [0..<w]") (auto simp: pick_def BITS_PER_HASH_def)
next
  case (Suc m)
  then obtain v where w: "w = Suc v" by (cases w) auto
  let ?g = "\<lambda>k. bit_at compress get_bit seed round (256 * w - Suc k)"
  let ?h = "\<lambda>k. bit_at compress get_bit seed round (256 * v - Suc k)"
  define l1 l2 r1 r2 where "l1 = take 256 low" "l2 = drop 256 low" "r1 = take 256 rh" "r2 = drop 256 rh"
  note defs = this
  have lens: "length l1 = 256" "length r1 = 256" "length l2 = 256 * m" "length r2 = 256 * m"
    and app: "low = l1 @ l2" "rh = r1 @ r2"
    using Suc.prems by (simp_all add: defs)
  have g: "?g k = get_bit (compute_source compress seed round v) (255 - k)" if "k < 256" for k
    by (rule bit_at_window) (use that w in auto)
  have gh: "(\<lambda>k. ?g (k + 256)) = ?h" by (simp add: w fun_eq_iff algebra_simps)
  have first: "swap_using_source get_bit (compute_source compress seed round v) [0..<256] (rev l1) (rev r1)
      = (rev (pick ?g l1 r1), rev (pick ?g r1 l1))"
    using lens by (simp add: swap_using_source_pick pick_rev) (auto intro!: pick_cong simp: g)
  have IH: "swap_chunks compress get_bit seed round (rev [0..<v]) l2 (rev r2) = (pick ?h l2 r2, rev (pick ?h r2 l2))"
    using Suc lens w by simp
  have "pick ?g low rh = pick ?g l1 r1 @ pick ?h l2 r2" "pick ?g rh low = pick ?g r1 l1 @ pick ?h r2 l2"
    using lens gh by (simp_all add: app pick_append)
  then show ?case
    using lens by (simp add: w app BITS_PER_HASH_def first IH)
qed

lemma swap_chunk_range_pick:
  assumes "length low = 256 * m" "length rh = 256 * m" "m \<le> offset div 256"
  shows "swap_chunk_range compress get_bit seed round low (rev rh) offset =
    (pick (\<lambda>k. bit_at compress get_bit seed round (256 * (offset div 256) - Suc k)) low rh,
     rev (pick (\<lambda>k. bit_at compress get_bit seed round (256 * (offset div 256) - Suc k)) rh low))"
  using swap_chunks_pick [OF assms] by (simp add: swap_chunk_range_def BITS_PER_HASH_def)


lemma swap_pieces_Nil [simp]: "swap_pieces compress get_bit seed round n os [] [] = ([], [])"
  by (cases os) auto

lemma rev_step_by_Cons: "\<exists>os. rev_step_by n step = n # os \<and> (0 < step \<longrightarrow> step \<le> n \<longrightarrow> os = rev_step_by (n - step) step)"
  by (subst rev_step_by.simps) auto

lemma swap_pieces_pick:
  assumes "length low = 256 * m" "length rh = 256 * m" "m \<le> offset div 256" "0 < c"
  shows "swap_pieces compress get_bit seed round (256 * c) (rev_step_by offset (256 * c)) low (rev rh) =
    (pick (\<lambda>k. bit_at compress get_bit seed round (256 * (offset div 256) - Suc k)) low rh,
     rev (pick (\<lambda>k. bit_at compress get_bit seed round (256 * (offset div 256) - Suc k)) rh low))"
  using assms
proof (induction m arbitrary: offset low rh rule: less_induct)
  case (less m)
  let ?n = "256 * c"
  let ?g = "\<lambda>k. bit_at compress get_bit seed round (256 * (offset div 256) - Suc k)"
  obtain os where os: "rev_step_by offset ?n = offset # os"
    and next_os: "?n \<le> offset \<Longrightarrow> os = rev_step_by (offset - ?n) ?n"
    using rev_step_by_Cons [of offset ?n] less.prems by auto
  consider "m = 0" | "0 < m" "m \<le> c" | "c < m" by linarith
  then show ?case
  proof cases
    case 1
    then show ?thesis using less.prems by (simp add: os pick_def)
  next
    case 2
    then have "swap_chunk_range compress get_bit seed round low (rev rh) offset = (pick ?g low rh, rev (pick ?g rh low))"
      using less.prems by (intro swap_chunk_range_pick [where m = m]) simp_all
    then show ?thesis
      using 2 less.prems by (auto simp: os)
  next
    case 3
    define l1 l2 r1 r2 where "l1 = take ?n low" "l2 = drop ?n low" "r1 = take ?n rh" "r2 = drop ?n rh"
    note defs = this
    let ?o = "offset - ?n"
    let ?h = "\<lambda>k. bit_at compress get_bit seed round (256 * (?o div 256) - Suc k)"
    have lens: "length l1 = ?n" "length r1 = ?n" "length l2 = 256 * (m - c)" "length r2 = 256 * (m - c)"
      and app: "low = l1 @ l2" "rh = r1 @ r2"
      using less.prems 3 by (auto simp: defs diff_mult_distrib2)
    have le: "?n \<le> offset" using less.prems 3
      by (metis dual_order.trans less_imp_le mult_le_mono2 times_div_less_eq_dividend)
    then obtain d where d: "offset = ?n + d" by (auto simp: le_iff_add)
    then have o: "?o div 256 = offset div 256 - c" by simp
    have gh: "(\<lambda>k. ?g (k + ?n)) = ?h"
      by (simp add: d fun_eq_iff)
    have first: "swap_chunk_range compress get_bit seed round l1 (rev r1) offset = (pick ?g l1 r1, rev (pick ?g r1 l1))"
      using lens less.prems 3 by (intro swap_chunk_range_pick [where m = c]) simp_all
    have IH: "swap_pieces compress get_bit seed round ?n (rev_step_by ?o ?n) l2 (rev r2) = (pick ?h l2 r2, rev (pick ?h r2 l2))"
      using lens less.prems 3 o by (intro less.IH [of "m - c"]) (simp_all add: diff_le_mono)
    have "pick ?g low rh = pick ?g l1 r1 @ pick ?h l2 r2" "pick ?g rh low = pick ?g r1 l1 @ pick ?h r2 l2"
      using lens gh by (simp_all add: app pick_append)
    moreover have "l1 \<noteq> []" "r1 \<noteq> []" using lens less.prems by auto
    ultimately show ?thesis
      using lens le by (simp add: os next_os app first IH)
  qed
qed

lemma swap_aligned_pick:
  assumes "length low = 256 * m" "length rh = 256 * m" "m \<le> offset div 256" "256 * m < u64_bound"
  shows "swap_aligned compress get_bit seed round workers m offset low (rev rh) =
    (pick (\<lambda>k. bit_at compress get_bit seed round (256 * (offset div 256) - Suc k)) low rh,
     rev (pick (\<lambda>k. bit_at compress get_bit seed round (256 * (offset div 256) - Suc k)) rh low))"
proof (cases "min workers (m div MIN_CHUNKS_PER_WORKER) > 1")
  case True
  let ?w = "min workers (m div MIN_CHUNKS_PER_WORKER)"
  let ?c = "div_ceil m ?w"
  have m: "0 < m" using True by (cases m) (auto simp: MIN_CHUNKS_PER_WORKER_def)
  obtain v where v: "?w = Suc v" using True by (cases ?w) auto
  have "m + v < Suc m * Suc v" by simp
  then have le: "?c \<le> m"
    using v by (simp add: div_ceil_def less_mult_imp_div_less flip: less_Suc_eq_le)
  have "0 < ?c" using m v by (simp add: div_ceil_def div_greater_zero_iff)
  moreover have "saturating_mul ?c BITS_PER_HASH = 256 * ?c"
    using assms(4) le by (simp add: saturating_mul_def BITS_PER_HASH_def u64_bound_def)
  ultimately show ?thesis
    using swap_pieces_pick [OF assms(1-3)] True by (simp add: swap_aligned_def)
next
  case False
  then show ?thesis using swap_chunk_range_pick [OF assms(1-3)] by (auto simp add: swap_aligned_def Let_def)
qed


lemma swap_trailing_pick:
  assumes "length l1 = t" "length r1 = t" "length r2 = length l2" "t \<le> ol mod 256" "mirror = t + length l2"
  shows "swap_trailing compress get_bit seed round mirror ol t (l1 @ l2) (rev (r1 @ r2)) =
    (pick (\<lambda>k. bit_at compress get_bit seed round (ol - Suc k)) l1 r1 @ l2,
     rev (pick (\<lambda>k. bit_at compress get_bit seed round (ol - Suc k)) r1 l1 @ r2))"
proof -
  let ?src = "compute_source compress seed round (ol div 256)"
  let ?g = "\<lambda>k. bit_at compress get_bit seed round (ol - Suc k)"
  have g: "?g k = get_bit ?src (rev [0..<ol mod 256] ! k)" if "k < t" for k
  proof -
    have k: "k < ol mod 256" using that assms by simp
    have "ol - Suc k = 256 * (ol div 256) + (ol mod 256 - Suc k)"
      using k by (metis Nat.add_diff_assoc Suc_leI mult_div_mod_eq)
    then have "?g k = get_bit ?src (ol mod 256 - Suc k)"
      by (rule bit_at_window) (simp add: less_imp_diff_less)
    then show ?thesis using k by (simp add: rev_nth)
  qed
  have "swap_using_source get_bit ?src (rev [0..<ol mod 256]) l1 r1 = (pick ?g l1 r1, pick ?g r1 l1)"
    using assms g by (simp add: swap_using_source_pick) (auto intro!: pick_cong)
  then show ?thesis
    using assms by (auto simp: swap_trailing_def saturating_sub_def BITS_PER_HASH_def pick_def)
qed

lemma swap_leading_pick:
  assumes "length l2 = le" "length r2 = le" "length r1 = length l1" "le \<le> 256" "mirror = length l1 + le"
  shows "swap_leading compress get_bit seed round mirror om le (l1 @ l2) (rev (r1 @ r2)) =
    (l1 @ pick (\<lambda>k. bit_at compress get_bit seed round (256 * (om div 256) + (255 - k))) l2 r2,
     rev (r1 @ pick (\<lambda>k. bit_at compress get_bit seed round (256 * (om div 256) + (255 - k))) r2 l2))"
proof -
  let ?src = "compute_source compress seed round (om div 256)"
  let ?g = "\<lambda>k. bit_at compress get_bit seed round (256 * (om div 256) + (255 - k))"
  have g: "?g k = get_bit ?src (rev [0..<256] ! k)" if "k < le" for k
  proof -
    have "?g k = get_bit ?src (255 - k)" by (rule bit_at_window [OF refl]) simp
    then show ?thesis using that assms by (simp add: rev_nth)
  qed
  have "swap_using_source get_bit ?src (rev [0..<256]) l2 r2 = (pick ?g l2 r2, pick ?g r2 l2)"
    using assms g by (simp add: swap_using_source_pick) (auto intro!: pick_cong)
  then show ?thesis
    using assms by (auto simp: swap_leading_def saturating_sub_def BITS_PER_HASH_def pick_def)
qed

lemma mirror_window:
  fixes offset M mid ol q c le t :: nat
  assumes ol: "ol = offset + 2 * M + mid" and mid: "mid \<le> 1" "0 < le + mid"
    and t: "t = ol mod 256" and q: "q = ol div 256"
    and M: "M = t + 256 * c + le" and le: "le < 256"
  shows "c < q" "(offset + M) div 256 = q - Suc c"
proof -
  have split: "256 * q + t = offset + 2 * M + mid" using ol t q by simp
  then have "256 * c < 256 * q" using M mid by linarith
  then show c: "c < q" by simp
  then obtain d where d: "q = Suc (c + d)" using less_iff_Suc_add by auto
  have "offset + M = 256 * d + (256 - (le + mid))" using split M d le mid by simp
  moreover have "256 - (le + mid) < 256" using mid le by simp
  ultimately show "(offset + M) div 256 = q - Suc c" using d by simp
qed

text \<open>The bits of the three segments of a half, counted from the start of the segment.\<close>

lemma mirror_bits:
  fixes offset M mid ol c le t :: nat
  assumes ol: "ol = offset + 2 * M + mid" and mid: "mid \<le> 1"
    and t: "t = min M (ol mod 256)" and c: "c = (M - t) div 256" and le: "le = (M - t) mod 256"
  shows "0 < c \<Longrightarrow> ol - Suc (k + t) = 256 * (ol div 256) - Suc k"
    and "k < le \<Longrightarrow> ol - Suc (k + t + 256 * c) = 256 * ((offset + M) div 256) + (255 - k)"
    and "c \<le> ol div 256"
proof -
  have M: "M = t + 256 * c + le" by (simp add: c le t)
  have tq: "t = ol mod 256" if "0 < 256 * c + le"
    using that by (auto simp: t c le)
  show "c \<le> ol div 256" using ol M by (simp add: less_eq_div_iff_mult_less_eq)
  show "ol - Suc (k + t) = 256 * (ol div 256) - Suc k" if "0 < c"
  proof -
    have "ol - t = 256 * (ol div 256)" using tq that by (simp add: minus_mod_eq_mult_div)
    then show ?thesis by linarith
  qed
  show "ol - Suc (k + t + 256 * c) = 256 * ((offset + M) div 256) + (255 - k)" if k: "k < le"
  proof -
    have le': "le < 256" by (simp add: le)
    have t': "t = ol mod 256" using tq k by simp
    then have "c < ol div 256" "(offset + M) div 256 = ol div 256 - Suc c"
      using mirror_window [OF ol mid _ t' refl M le'] k by auto
    then obtain d where d: "ol div 256 = Suc (c + d)" "(offset + M) div 256 = d"
      using less_iff_Suc_add [of c "ol div 256"] by auto
    have "ol = 256 * Suc (c + d) + t" using t' d(1) mult_div_mod_eq [of 256 ol] by simp
    moreover have "k \<le> 255" using k le' by simp
    ultimately show ?thesis using d by simp
  qed
qed

lemma split3:
  "length xs = a + b + c \<Longrightarrow>
     \<exists>x y z. xs = x @ y @ z \<and> length x = a \<and> length y = b \<and> length z = c"
  by (rule exI [of _ "take a xs"], rule exI [of _ "take b (drop a xs)"],
      rule exI [of _ "drop b (drop a xs)"]) (simp del: drop_drop)

lemma pick_Nil: "pick f [] ys = []"
  by (simp add: pick_def)

lemma swap_around_mirror_pick:
  assumes slc: "slc = low @ mid @ rev rh" "length low = M" "length rh = M" "length mid \<le> 1"
    and bound: "offset + length slc < u64_bound"
  shows "swap_around_mirror compress get_bit seed round slc offset workers =
    Ok (pick (\<lambda>k. bit_at compress get_bit seed round (offset + length slc - Suc k)) low rh @ mid @
        rev (pick (\<lambda>k. bit_at compress get_bit seed round (offset + length slc - Suc k)) rh low))"
proof -
  define ol where "ol = offset + length slc"
  define t where "t = min M (ol mod 256)"
  define c where "c = (M - t) div 256"
  define le where "le = (M - t) mod 256"
  let ?f = "\<lambda>k. bit_at compress get_bit seed round (ol - Suc k)"
  let ?g3 = "\<lambda>k. bit_at compress get_bit seed round (256 * ((offset + M) div 256) + (255 - k))"
  let ?g2 = "\<lambda>k. bit_at compress get_bit seed round (256 * (ol div 256) - Suc k)"
  have M: "M = t + 256 * c + le" by (simp add: c_def le_def t_def)
  have le_le: "le \<le> 256" by (simp add: le_def less_imp_le)
  have t_le: "t \<le> ol mod 256" by (simp add: t_def)
  have len: "length slc = 2 * M + length mid" using slc by simp
  have mirror: "length slc div 2 = M" using len slc(4) by simp
  have sat: "saturating_add offset M = offset + M" "saturating_add offset (length slc) = ol"
    using bound len by (auto simp: saturating_add_exact ol_def)
  have ol: "ol = offset + 2 * M + length mid" using len by (simp add: ol_def)
  note bits = mirror_bits [OF ol slc(4) t_def c_def le_def]
  obtain l1 l2 l3 where l: "low = l1 @ l2 @ l3" "length l1 = t" "length l2 = 256 * c" "length l3 = le"
    using split3 [of low] slc M by metis
  obtain r1 r2 r3 where r: "rh = r1 @ r2 @ r3" "length r1 = t" "length r2 = 256 * c" "length r3 = le"
    using split3 [of rh] slc M by metis
  have g3: "pick ?g3 l3 r3 = pick (\<lambda>k. ?f (k + t + 256 * c)) l3 r3"
    "pick ?g3 r3 l3 = pick (\<lambda>k. ?f (k + t + 256 * c)) r3 l3"
    using l r bits(2) by (auto intro!: pick_cong)
  have g2: "pick ?g2 l2 r2 = pick (\<lambda>k. ?f (k + t)) l2 r2" "pick ?g2 r2 l2 = pick (\<lambda>k. ?f (k + t)) r2 l2"
    using l r bits(1) by (cases "c = 0"; auto intro!: pick_cong)+
  have split: "pick ?f low rh = pick ?f l1 r1 @ pick ?g2 l2 r2 @ pick ?g3 l3 r3"
    "pick ?f rh low = pick ?f r1 l1 @ pick ?g2 r2 l2 @ pick ?g3 r3 l3"
    unfolding g2 g3 using l r by (simp_all add: pick_append ac_simps)
  have halves: "take M slc = low" "drop M slc = mid @ rev rh"
    "(if length low < length (mid @ rev rh) then (take 1 (mid @ rev rh), drop 1 (mid @ rev rh))
      else ([], mid @ rev rh)) = (mid, rev rh)"
    using slc by (auto simp: le_Suc_eq length_Suc_conv)
  have trail: "swap_trailing compress get_bit seed round M ol t low (rev rh) =
      (pick ?f l1 r1 @ l2 @ l3, rev (pick ?f r1 l1 @ r2 @ r3))"
    using swap_trailing_pick [of l1 t r1 "r2 @ r3" "l2 @ l3" ol M compress get_bit seed round] l r M
    by (simp add: t_le)
  have lead: "swap_leading compress get_bit seed round M (offset + M) le (pick ?f l1 r1 @ l2 @ l3)
      (rev (pick ?f r1 l1 @ r2 @ r3)) =
      (pick ?f l1 r1 @ l2 @ pick ?g3 l3 r3, rev (pick ?f r1 l1 @ r2 @ pick ?g3 r3 l3))"
    using swap_leading_pick [of l3 le r3 "pick ?f r1 l1 @ r2" "pick ?f l1 r1 @ l2" M compress
        get_bit seed round "offset + M"] l r M le_le by simp
  have al: "swap_aligned compress get_bit seed round workers c ol l2 (rev r2) =
      (pick ?g2 l2 r2, rev (pick ?g2 r2 l2))"
    using l r bits(3) M bound len by (simp add: swap_aligned_pick)
  have names: "min M (ol mod BITS_PER_HASH) = t" "saturating_sub M t mod BITS_PER_HASH = le"
    "saturating_sub M t div BITS_PER_HASH = c"
    by (simp_all add: BITS_PER_HASH_def saturating_sub_def t_def le_def c_def)
  have ends: "saturating_sub M le = t + 256 * c" "saturating_sub M t = 256 * c + le"
    using M by (simp_all add: saturating_sub_def)
  have lens: "length low = M" "length (rev rh) = M" using slc by simp_all
  show ?thesis
    unfolding swap_around_mirror_def Let_def mirror sat names halves prod.case
    unfolding lens ends assert_rs_def trail lead prod.case
    using l(2-4) r(2-4) by (cases "c = 0") (simp_all add: al split pick_Nil flip: ol_def)
qed

definition mirror_at :: "(nat \<Rightarrow> bool) \<Rightarrow> 'a list \<Rightarrow> nat \<Rightarrow> 'a" where
  "mirror_at f xs k = (let m = length xs - Suc k in if f (max k m) then xs ! m else xs ! k)"

lemma mset_pick: "length xs = length ys \<Longrightarrow> mset (pick f xs ys) + mset (pick f ys xs) = mset xs + mset ys"
proof (induction xs ys arbitrary: f rule: list_induct2)
  case Nil
  then show ?case by (simp add: pick_def)
next
  case (Cons x xs y ys)
  then show ?case using Cons.IH [of "\<lambda>k. f (Suc k)"] by (simp add: pick_Cons)
qed

lemma swap_around_mirror_nth:
  assumes bound: "offset + length slc < u64_bound"
  shows "\<exists>ys. swap_around_mirror compress get_bit seed round slc offset workers = Ok ys
    \<and> length ys = length slc \<and> mset ys = mset slc
    \<and> (\<forall>k < length slc. ys ! k = mirror_at (\<lambda>m. bit_at compress get_bit seed round (offset + m)) slc k)"
proof -
  define M where "M = length slc div 2"
  define low where "low = take M slc"
  define mid where "mid = take (length slc - 2 * M) (drop M slc)"
  define rh where "rh = rev (drop (length slc - M) slc)"
  let ?n = "length slc"
  let ?f = "\<lambda>k. bit_at compress get_bit seed round (offset + ?n - Suc k)"
  let ?ys = "pick ?f low rh @ mid @ rev (pick ?f rh low)"
  have M2: "2 * M \<le> ?n" "?n - 2 * M \<le> 1" by (auto simp: M_def)
  have lens: "length low = M" "length rh = M" "length mid = ?n - 2 * M"
    using M2 by (auto simp: low_def rh_def mid_def)
  have slc: "slc = low @ mid @ rev rh"
  proof -
    have "drop M slc = mid @ drop (?n - 2 * M) (drop M slc)" by (simp add: mid_def del: drop_drop)
    also have "drop (?n - 2 * M) (drop M slc) = rev rh" using M2 by (simp add: rh_def)
    finally show ?thesis by (metis append_take_drop_id low_def)
  qed
  have eq: "swap_around_mirror compress get_bit seed round slc offset workers = Ok ?ys"
    by (rule swap_around_mirror_pick [OF slc lens(1,2) _ bound]) (use M2 lens in simp)
  have low_nth: "low ! k = slc ! k" if "k < M" for k using that by (simp add: low_def)
  have rh_nth: "rh ! k = slc ! (?n - Suc k)" if "k < M" for k
    using that M2 by (simp add: rh_def rev_nth)
  have "?ys ! k = mirror_at (\<lambda>m. bit_at compress get_bit seed round (offset + m)) slc k" if k: "k < ?n" for k
  proof -
    consider "k < M" | "M \<le> k" "k < ?n - M" | "?n - M \<le> k" by linarith
    then show ?thesis
    proof cases
      case 1
      then have "max k (?n - Suc k) = ?n - Suc k" using M2 by linarith
      then show ?thesis using 1 lens k by (simp add: nth_append mirror_at_def low_nth rh_nth)
    next
      case 2
      then have m: "?n - Suc k = k" using M2 by linarith
      have lt: "k - M < length mid" using 2 lens by linarith
      then have "?ys ! k = mid ! (k - M)" using 2 lens by (simp add: nth_append)
      also have "\<dots> = slc ! k"
        using lt lens 2(1) by (simp add: mid_def nth_take_drop del: drop_drop)
      finally show ?thesis by (simp add: mirror_at_def m)
    next
      case 3
      let ?j = "?n - Suc k"
      have j: "?j < M" "?n - Suc ?j = k" "max k ?j = k" using 3 k M2 by linarith+
      have "\<not> k < length low" "\<not> k - length low < length mid"
        "k - length low - length mid = k - (?n - M)"
        using 3 lens M2 k by linarith+
      then have "?ys ! k = rev (pick ?f rh low) ! (k - (?n - M))"
        unfolding nth_append length_pick by (simp only: if_False)
      also have "\<dots> = pick ?f rh low ! ?j"
        using 3 k lens M2 by (simp add: rev_nth)
      also have "\<dots> = (if ?f ?j then slc ! ?j else slc ! k)"
        using j lens low_nth [of ?j] rh_nth [of ?j] by simp
      finally show ?thesis using j k by (simp add: mirror_at_def)
    qed
  qed
  moreover have "mset ?ys = mset slc"
    using mset_pick [of low rh ?f] lens by (subst (2) slc) (simp add: ac_simps)
  ultimately show ?thesis using eq lens M2 by auto
qed


subsection \<open>The slice shuffle is the single-index shuffle\<close>

lemma compute_pivot_less: "0 < n \<Longrightarrow> compute_pivot compress seed round n < n"
  by (simp add: compute_pivot_def)

lemma shuffle_single_round_eq:
  assumes "i < n" "n \<le> 2 ^ 63"
  shows "shuffle_single_round compress get_bit n seed round i =
    (let p = compute_pivot compress seed round n; flip = (if i \<le> p then p - i else p + n - i)
     in if bit_at compress get_bit seed round (max i flip) then flip else i)"
proof -
  let ?p = "compute_pivot compress seed round n"
  have p: "?p < n" using assms by (simp add: compute_pivot_less)
  then have "saturating_add ?p n = ?p + n"
    using assms(2) by (simp add: saturating_add_exact u64_bound_def)
  moreover have "(?p + n - i) mod n = (if i \<le> ?p then ?p - i else ?p + n - i)"
  proof (cases "i \<le> ?p")
    case True
    then have "?p + n - i = (?p - i) + n" by simp
    then have "(?p + n - i) mod n = (?p - i) mod n" by (simp only: mod_add_self2)
    then show ?thesis using p True by simp
  next
    case False
    then show ?thesis using p assms by simp
  qed
  ultimately show ?thesis
    unfolding shuffle_single_round_def Let_def bit_at_def
    by (simp only: saturating_sub_def BITS_PER_HASH_def) simp
qed

lemma shuffle_round_nth:
  assumes "0 < length xs" "length xs \<le> 2 ^ 63"
  shows "\<exists>ys. shuffle_round compress get_bit seed (length xs) workers round xs = Ok ys
    \<and> length ys = length xs \<and> mset ys = mset xs
    \<and> (\<forall>i < length xs. ys ! i = xs ! shuffle_single_round compress get_bit (length xs) seed round i)"
proof -
  let ?n = "length xs"
  let ?b = "bit_at compress get_bit seed round"
  define p where "p = compute_pivot compress seed round ?n"
  have p: "p < ?n" using assms compute_pivot_less by (simp add: p_def)
  have mid: "saturating_add p 1 = Suc p"
    using p assms by (simp add: saturating_add_exact u64_bound_def)
  let ?l = "take (Suc p) xs" and ?h = "drop (Suc p) xs"
  have small: "Suc p + length ?h < u64_bound" using p assms by (simp add: u64_bound_def)
  obtain lo where lo: "swap_around_mirror compress get_bit seed round ?l 0 workers = Ok lo"
    "length lo = Suc p" "mset lo = mset ?l" "\<forall>k \<le> p. lo ! k = mirror_at ?b ?l k"
    using swap_around_mirror_nth [of 0 ?l compress get_bit seed round workers] p assms
    by (auto simp: u64_bound_def)
  obtain hi where hi: "swap_around_mirror compress get_bit seed round ?h (Suc p) workers = Ok hi"
    "length hi = ?n - Suc p" "mset hi = mset ?h"
    "\<forall>k < ?n - Suc p. hi ! k = mirror_at (\<lambda>m. ?b (Suc p + m)) ?h k"
    using swap_around_mirror_nth [of "Suc p" ?h compress get_bit seed round workers] small by auto
  have res: "shuffle_round compress get_bit seed ?n workers round xs = Ok (lo @ hi)"
    unfolding shuffle_round_def Let_def p_def [symmetric] mid
    using p lo hi by (simp add: assert_rs_def)
  have "(lo @ hi) ! i = xs ! shuffle_single_round compress get_bit ?n seed round i" if i: "i < ?n" for i
  proof (cases "i \<le> p")
    case True
    then show ?thesis
      using lo p i assms(2) by (simp add: nth_append mirror_at_def shuffle_single_round_eq Let_def flip: p_def)
  next
    case False
    let ?k = "i - Suc p"
    have k: "?k < ?n - Suc p" "i = Suc p + ?k" "Suc p + (?n - Suc p - Suc ?k) = p + ?n - i"
      using False i by auto
    have "(lo @ hi) ! i = hi ! ?k" using False lo by (simp add: nth_append)
    also have "\<dots> = mirror_at (\<lambda>m. ?b (Suc p + m)) ?h ?k" using hi k(1) by blast
    also have "\<dots> = (if ?b (max i (p + ?n - i)) then xs ! (p + ?n - i) else xs ! i)"
      unfolding mirror_at_def Let_def using k i False by (simp add: nat_add_max_right)
    finally show ?thesis
      using False i assms(2) by (simp add: shuffle_single_round_eq Let_def flip: p_def)
  qed
  moreover have "mset (lo @ hi) = mset xs"
    using lo hi by (metis append_take_drop_id mset_append)
  ultimately show ?thesis using res lo(2) hi(2) p by auto
qed

lemma shuffle_single_round_less:
  "i < n \<Longrightarrow> n \<le> 2 ^ 63 \<Longrightarrow> shuffle_single_round compress get_bit n seed round i < n"
  using compute_pivot_less [of n compress seed round] by (auto simp: shuffle_single_round_eq Let_def)

lemma fold_single_less:
  "i < n \<Longrightarrow> n \<le> 2 ^ 63 \<Longrightarrow> fold (shuffle_single_round compress get_bit n seed) rs i < n"
  by (induction rs arbitrary: i) (auto simp: shuffle_single_round_less)

lemma shuffle_rounds_nth:
  assumes "0 < length xs" "length xs \<le> 2 ^ 63"
  shows "\<exists>ys. try_fold (shuffle_round compress get_bit seed (length xs) workers) (rev rs) xs = Ok ys
    \<and> length ys = length xs \<and> mset ys = mset xs
    \<and> (\<forall>i < length xs. ys ! i = xs ! fold (shuffle_single_round compress get_bit (length xs) seed) rs i)"
proof (induction rs)
  case Nil
  then show ?case by simp
next
  case (Cons r rs)
  then obtain ys where ys: "try_fold (shuffle_round compress get_bit seed (length xs) workers) (rev rs) xs = Ok ys"
    "length ys = length xs" "mset ys = mset xs"
    "\<forall>i < length xs. ys ! i = xs ! fold (shuffle_single_round compress get_bit (length xs) seed) rs i"
    by blast
  obtain zs where "shuffle_round compress get_bit seed (length ys) workers r ys = Ok zs"
    "length zs = length ys" "mset zs = mset ys"
    "\<forall>i < length ys. zs ! i = ys ! shuffle_single_round compress get_bit (length ys) seed r i"
    using shuffle_round_nth [of ys] assms ys(2) by metis
  then show ?case
    using ys assms shuffle_single_round_less [of _ "length xs" compress get_bit seed r]
    by (auto simp: try_fold_append)
qed

lemma shuffle_slice_ok:
  assumes "length xs \<le> 2 ^ 63"
  shows "\<exists>ys. shuffle_slice compress get_bit threads P xs seed = Ok ys
    \<and> length ys = length xs \<and> mset ys = mset xs
    \<and> (\<forall>i < length xs. ys ! i =
      xs ! fold (shuffle_single_round compress get_bit (length xs) seed) [0..<SHUFFLE_ROUND_COUNT P] i)"
proof (cases "xs = []")
  case True
  then show ?thesis by (simp add: shuffle_slice_def)
next
  case False
  let ?workers = "if length xs \<ge> MIN_PARALLEL_LEN then threads else 1"
  have "shuffle_slice compress get_bit threads P xs seed =
      try_fold (shuffle_round compress get_bit seed (length xs) ?workers)
        (rev [0..<SHUFFLE_ROUND_COUNT P]) xs"
    using False by (simp add: shuffle_slice_def shuffle_rounds_def)
  then show ?thesis
    using shuffle_rounds_nth [of xs compress get_bit seed ?workers "[0..<SHUFFLE_ROUND_COUNT P]"]
      assms False by auto
qed

lemma shuffle_slice_map:
  assumes "length xs \<le> 2 ^ 63"
  shows "shuffle_slice compress get_bit threads P (map f xs) seed =
    map_ok (map f) (shuffle_slice compress get_bit threads P xs seed)"
proof -
  obtain ys where ys: "shuffle_slice compress get_bit threads P xs seed = Ok ys" "length ys = length xs"
    "\<forall>i < length xs. ys ! i =
      xs ! fold (shuffle_single_round compress get_bit (length xs) seed) [0..<SHUFFLE_ROUND_COUNT P] i"
    using shuffle_slice_ok [OF assms] by blast
  obtain zs where zs: "shuffle_slice compress get_bit threads P (map f xs) seed = Ok zs"
    "length zs = length xs"
    "\<forall>i < length xs. zs ! i = map f xs !
      fold (shuffle_single_round compress get_bit (length xs) seed) [0..<SHUFFLE_ROUND_COUNT P] i"
    using shuffle_slice_ok [of "map f xs" compress get_bit threads P seed] assms by auto
  have "zs = map f ys"
    using ys(2,3) zs(2,3) fold_single_less [OF _ assms] by (intro nth_equalityI) auto
  then show ?thesis using ys(1) zs(1) by simp
qed

text \<open>
  C7. Shuffling a slice agrees with shuffling each of its indices: for every slice of at most
  \<open>2 ^ 63\<close> elements, every number of threads, every seed and every preset, \<open>shuffle_slice\<close>
  returns without panicking, and position \<open>i\<close> of its result is the element that
  \<open>shuffle_single\<close> maps \<open>i\<close> to.  This covers the aligned chunks, the unaligned leading and
  trailing positions, the middle element and the division of the work among threads.
\<close>

theorem shuffle_slice_agrees_with_shuffle_single:
  assumes "length xs \<le> 2 ^ 63"
  shows "\<exists>ys. shuffle_slice compress get_bit threads P xs seed = Ok ys
    \<and> length ys = length xs
    \<and> (\<forall>i < length xs. \<exists>j. shuffle_single compress get_bit P i (length xs) seed = Ok j
          \<and> j < length xs \<and> ys ! i = xs ! j)"
  using shuffle_slice_ok [OF assms, of compress get_bit threads P seed] fold_single_less [OF _ assms]
  by (auto simp: shuffle_single_def assert_rs_def)

theorem shuffle_slice_agrees_with_shuffle_single_witness:
  "\<exists>ys. shuffle_slice (\<lambda>s bs. s) (\<lambda>bs i. i mod 2 = 0) 4 MinimalPreset (replicate 3 True @ [False])
      (replicate 32 0) = Ok ys \<and> length ys = 4"
  using shuffle_slice_agrees_with_shuffle_single [of "replicate 3 True @ [False]" "\<lambda>s bs. s"
      "\<lambda>bs i. i mod 2 = 0" 4 MinimalPreset "replicate 32 0"]
  by auto

text \<open>
  Shuffling loses and duplicates nothing: the shuffled slice has the same elements with the
  same multiplicities.
\<close>

lemma shuffle_slice_permutes:
  assumes "length xs \<le> 2 ^ 63" "shuffle_slice compress get_bit threads P xs seed = Ok ys"
  shows "mset ys = mset xs"
  using shuffle_slice_ok [OF assms(1), of compress get_bit threads P seed] assms(2) by auto

text \<open>
  C24. For a list of at most \<open>2 ^ 63\<close> indices, \<open>shuffle_single\<close> never panics on an index of the
  list and is a bijection on the indices, so the committees cut out of the shuffled list
  partition the validators.
\<close>

theorem shuffle_single_bijective:
  assumes "n \<le> 2 ^ 63"
  shows "\<exists>f. bij_betw f {..<n} {..<n}
    \<and> (\<forall>i < n. shuffle_single compress get_bit P i n seed = Ok (f i))"
proof -
  let ?f = "fold (shuffle_single_round compress get_bit n seed) [0..<SHUFFLE_ROUND_COUNT P]"
  have ok: "\<forall>i < n. shuffle_single compress get_bit P i n seed = Ok (?f i)"
    by (simp add: shuffle_single_def assert_rs_def)
  have "?f ` {..<n} = {..<n}"
  proof (cases "n = 0")
    case False
    then obtain ys where ys: "length ys = n" "mset ys = mset [0..<n]" "\<forall>i < n. ys ! i = [0..<n] ! ?f i"
      using shuffle_rounds_nth [of "[0..<n]" compress get_bit seed 1 "[0..<SHUFFLE_ROUND_COUNT P]"] assms
      by auto
    have "?f i = ys ! i" if "i < n" for i
      using ys(3) that fold_single_less [OF that assms] by auto
    then have "?f ` {..<n} = (!) ys ` {..<n}" by (intro image_cong) auto
    also have "\<dots> = set ys" using ys(1) by (auto simp: set_conv_nth)
    also have "\<dots> = {..<n}" using ys(2) by (metis atLeast0LessThan set_mset_mset set_upt)
    finally show ?thesis .
  qed simp
  then have "bij_betw ?f {..<n} {..<n}"
    by (simp add: bij_betw_def eq_card_imp_inj_on)
  with ok show ?thesis by blast
qed

theorem shuffle_single_bijective_witness:
  "\<exists>f. bij_betw f {..<100} {..<(100 :: nat)}
    \<and> (\<forall>i < 100. shuffle_single (\<lambda>s bs. s) (\<lambda>bs i. i mod 3 = 0) MainnetPreset i 100 (replicate 32 1)
          = Ok (f i))"
  by (rule shuffle_single_bijective) simp

end
