(* ===== verification/Beacon_State.thy ===== *)
theory Beacon_State
  imports Validator_List Config Shuffling
begin

text \<open>
  The beacon state of the Electra phase (\<open>types/src/electra/beacon_state.rs\<close>) and the code the
  state transition calls that is not part of the modelled sources.

  The fields are those of the source without the cache of derived values; the accessors that fill
  the cache (total active balance, active and shuffled indices, proposer index) recompute their
  value.  Persistent lists and vectors are lists used through the operations of \<open>Ssz_List\<close>,
  which \<open>Persistent_List\<close> shows to agree with the trees of the source; the validators are the
  registry of \<open>Validator_List\<close>.
\<close>

record beacon_state =
  genesis_time :: unix_seconds
  genesis_validators_root :: h256
  slot :: slot
  fork :: fork
  latest_block_header :: beacon_block_header
  block_roots :: "h256 list"
  state_roots :: "h256 list"
  historical_roots :: "h256 list"
  eth1_data :: eth1_data
  eth1_data_votes :: "eth1_data list"
  eth1_deposit_index :: nat
  validators :: validator_list
  balances :: "gwei list"
  randao_mixes :: "h256 list"
  slashings :: "gwei list"
  previous_epoch_participation :: "participation_flags list"
  current_epoch_participation :: "participation_flags list"
  justification_bits :: "bool list"
  previous_justified_checkpoint :: checkpoint
  current_justified_checkpoint :: checkpoint
  finalized_checkpoint :: checkpoint
  inactivity_scores :: "nat list"
  current_sync_committee :: sync_committee
  next_sync_committee :: sync_committee
  latest_execution_payload_header :: execution_payload_header
  next_withdrawal_index :: nat
  next_withdrawal_validator_index :: validator_index
  historical_summaries :: "historical_summary list"
  deposit_requests_start_index :: nat
  deposit_balance_to_consume :: gwei
  exit_balance_to_consume :: gwei
  earliest_exit_epoch :: epoch
  consolidation_balance_to_consume :: gwei
  earliest_consolidation_epoch :: epoch
  pending_deposits :: "pending_deposit list"
  pending_partial_withdrawals :: "pending_partial_withdrawal list"
  pending_consolidations :: "pending_consolidation list"

text \<open>
  The environment of the state transition: the SHA-256 compression function and the bit reader
  of the shuffling, the number of worker threads, the roots of containers that the derive macro
  for SSZ generates, and the BLS library.  \<open>ev_decompress\<close> is \<open>PubkeyCache::get_or_insert\<close>
  (a public key or a decompression error), \<open>ev_verify\<close> and \<open>ev_verify_aggregate\<close> are the
  signature checks with a signing root, \<open>ev_multi_verify\<close> checks several at once, \<open>ev_signature\<close> is
  the decoding of a signature, \<open>ev_aggregate\<close> aggregates encoded public keys and
  \<open>ev_aggregate_keys\<close> decompressed ones.  \<open>ev_sqrt\<close> is the integer square root of the crate \<open>num_integer\<close>.
\<close>

record env =
  ev_compress :: compress256
  ev_get_bit :: get_bit
  ev_index_bit :: bit_reader
  ev_threads :: nat
  ev_sqrt :: "nat \<Rightarrow> nat"
  ev_search :: search_fn
  ev_htr_state :: "beacon_state \<Rightarrow> h256"
  ev_htr_header :: "beacon_block_header \<Rightarrow> h256"
  ev_htr_fork_data :: "bytes \<Rightarrow> h256 \<Rightarrow> h256"
  ev_htr_signing_data :: "h256 \<Rightarrow> h256 \<Rightarrow> h256"
  ev_htr_roots :: "h256 list \<Rightarrow> h256"
  ev_htr_historical_batch :: "h256 list \<Rightarrow> h256 list \<Rightarrow> h256"
  ev_htr_attestation_data :: "attestation_data \<Rightarrow> h256"
  ev_htr_voluntary_exit :: "voluntary_exit \<Rightarrow> h256"
  ev_htr_deposit_message :: "deposit_message \<Rightarrow> h256"
  ev_htr_deposit_data :: "deposit_data \<Rightarrow> h256"
  ev_htr_transactions :: "bytes list \<Rightarrow> h256"
  ev_htr_withdrawals :: "withdrawal list \<Rightarrow> h256"
  ev_htr_bls_change :: "bls_to_execution_change \<Rightarrow> h256"
  ev_htr_block :: "beacon_block \<Rightarrow> h256"
  ev_htr_body :: "beacon_block_body \<Rightarrow> h256"
  ev_decompress :: "public_key_bytes \<Rightarrow> public_key_bytes res"
  ev_signature :: "signature_bytes \<Rightarrow> unit res"
  ev_verify :: "h256 \<Rightarrow> signature_bytes \<Rightarrow> public_key_bytes \<Rightarrow> bool"
  ev_verify_aggregate :: "h256 \<Rightarrow> signature_bytes \<Rightarrow> public_key_bytes list \<Rightarrow> bool"
  ev_aggregate :: "public_key_bytes list \<Rightarrow> public_key_bytes res"
  ev_aggregate_keys :: "public_key_bytes list \<Rightarrow> public_key_bytes"
  ev_multi_verify :: "(h256 \<times> signature_bytes \<times> public_key_bytes) list \<Rightarrow> bool"

text \<open>
  Well-formed states: the lists with one entry per validator have the length of the registry, the
  vectors have the sizes of their types, and the registry satisfies its own invariant.
\<close>

definition per_validator_lists :: "beacon_state \<Rightarrow> bool" where
  "per_validator_lists state \<longleftrightarrow>
     (let n = vl_len (validators state) in
      length (balances state) = n
      \<and> length (previous_epoch_participation state) = n
      \<and> length (current_epoch_participation state) = n
      \<and> length (inactivity_scores state) = n)"

definition vector_sizes :: "preset \<Rightarrow> beacon_state \<Rightarrow> bool" where
  "vector_sizes P state \<longleftrightarrow>
     length (block_roots state) = SlotsPerHistoricalRoot P
     \<and> length (state_roots state) = SlotsPerHistoricalRoot P
     \<and> length (randao_mixes state) = EpochsPerHistoricalVector P
     \<and> length (slashings state) = EpochsPerSlashingsVector P
     \<and> length (justification_bits state) = 4"

definition state_wf :: "preset \<Rightarrow> beacon_state \<Rightarrow> bool" where
  "state_wf P state \<longleftrightarrow>
     raw_wf (vl_buf (validators state)) \<and> per_validator_lists state \<and> vector_sizes P state"

text \<open>
  A small state and environment on which the definitions can be evaluated: \<open>n\<close> active validators
  with the minimum activation balance, for the minimal preset, with trivial hashing and with
  signatures that are all valid.
\<close>

definition sample_checkpoint :: checkpoint where
  "sample_checkpoint = \<lparr> cp_epoch = 0, cp_root = replicate 32 0 \<rparr>"

definition sample_registry :: "nat \<Rightarrow> validator_list" where
  "sample_registry n =
     \<lparr> vl_buf =
         \<lparr> rv_pubkeys = pubkeys_from_iter (map (\<lambda>i. replicate 48 (of_nat i)) [0..<n]),
           rv_effective_balances = replicate n 32000000000,
           rv_items = replicate n
             \<lparr> pv_withdrawal_credentials = 1 # replicate 31 0, pv_slashed = False,
               pv_activation_eligibility_epoch = 0, pv_activation_epoch = 0,
               pv_exit_epoch = FAR_FUTURE_EPOCH, pv_withdrawable_epoch = FAR_FUTURE_EPOCH \<rparr> \<rparr>,
       vl_cache = None \<rparr>"

definition sample_state :: "nat \<Rightarrow> beacon_state" where
  "sample_state n =
     \<lparr> genesis_time = 0, genesis_validators_root = replicate 32 0, slot = 70,
       fork = \<lparr> fork_previous_version = [0, 0, 0, 0], fork_current_version = [5, 0, 0, 0], fork_epoch = 0 \<rparr>,
       latest_block_header =
         \<lparr> hdr_slot = 69, hdr_proposer_index = 0, hdr_parent_root = replicate 32 0,
           hdr_state_root = replicate 32 0, hdr_body_root = replicate 32 0 \<rparr>,
       block_roots = replicate 64 (replicate 32 0), state_roots = replicate 64 (replicate 32 0),
       historical_roots = [],
       eth1_data =
         \<lparr> e1_deposit_root = replicate 32 0, e1_deposit_count = n, e1_block_hash = replicate 32 0 \<rparr>,
       eth1_data_votes = [], eth1_deposit_index = n,
       validators = sample_registry n, balances = replicate n 32000000000,
       randao_mixes = replicate 64 (replicate 32 0), slashings = replicate 64 0,
       previous_epoch_participation = replicate n 0, current_epoch_participation = replicate n 0,
       justification_bits = replicate 4 False,
       previous_justified_checkpoint = sample_checkpoint,
       current_justified_checkpoint = sample_checkpoint, finalized_checkpoint = sample_checkpoint,
       inactivity_scores = replicate n 0,
       current_sync_committee = \<lparr> sc_pubkeys = [], sc_aggregate_pubkey = [] \<rparr>,
       next_sync_committee = \<lparr> sc_pubkeys = [], sc_aggregate_pubkey = [] \<rparr>,
       latest_execution_payload_header =
         \<lparr> eh_parent_hash = replicate 32 0, eh_fee_recipient = replicate 20 0,
           eh_state_root = replicate 32 0, eh_receipts_root = replicate 32 0,
           eh_logs_bloom = replicate 256 0, eh_prev_randao = replicate 32 0, eh_block_number = 0,
           eh_gas_limit = 0, eh_gas_used = 0, eh_timestamp = 0, eh_extra_data = [],
           eh_base_fee_per_gas = 0, eh_block_hash = replicate 32 0,
           eh_transactions_root = replicate 32 0, eh_withdrawals_root = replicate 32 0,
           eh_blob_gas_used = 0, eh_excess_blob_gas = 0 \<rparr>,
       next_withdrawal_index = 0, next_withdrawal_validator_index = 0, historical_summaries = [],
       deposit_requests_start_index = UNSET_DEPOSIT_REQUESTS_START_INDEX,
       deposit_balance_to_consume = 0, exit_balance_to_consume = 0, earliest_exit_epoch = 0,
       consolidation_balance_to_consume = 0, earliest_consolidation_epoch = 0,
       pending_deposits = [], pending_partial_withdrawals = [], pending_consolidations = [] \<rparr>"

definition sample_env :: env where
  "sample_env =
     \<lparr> ev_compress = (\<lambda>s bs. replicate 8 0), ev_get_bit = (\<lambda>bs i. i mod 2 = 0), ev_index_bit = (\<lambda>n i. odd (n div 2 ^ i)),
       ev_threads = 1, ev_sqrt = (\<lambda>n. n div 2), ev_search = search_std,
       ev_htr_state = (\<lambda>_. replicate 32 0), ev_htr_header = (\<lambda>_. replicate 32 0),
       ev_htr_fork_data = (\<lambda>_ _. replicate 32 0), ev_htr_signing_data = (\<lambda>_ _. replicate 32 0),
       ev_htr_roots = (\<lambda>_. replicate 32 0),
       ev_htr_historical_batch = (\<lambda>_ _. replicate 32 0), ev_htr_attestation_data = (\<lambda>_. replicate 32 0),
       ev_htr_voluntary_exit = (\<lambda>_. replicate 32 0), ev_htr_deposit_message = (\<lambda>_. replicate 32 0),
       ev_htr_deposit_data = (\<lambda>_. replicate 32 0), ev_htr_transactions = (\<lambda>_. replicate 32 0),
       ev_htr_withdrawals = (\<lambda>_. replicate 32 0),
       ev_htr_bls_change = (\<lambda>_. replicate 32 0), ev_htr_block = (\<lambda>_. replicate 32 0),
       ev_htr_body = (\<lambda>_. replicate 32 0), ev_decompress = Ok, ev_signature = (\<lambda>_. Ok ()),
       ev_verify = (\<lambda>_ _ _. True), ev_verify_aggregate = (\<lambda>_ _ _. True),
       ev_aggregate = (\<lambda>_. Ok (replicate 48 0)), ev_aggregate_keys = (\<lambda>_. replicate 48 0),
       ev_multi_verify = (\<lambda>_. True) \<rparr>"

lemma length_pk_keys_from_iter [simp]: "length (pk_keys (pubkeys_from_iter ks)) = length ks"
  by (simp add: pubkeys_from_iter_def)

lemma sample_registry_len [simp]: "vl_len (sample_registry n) = n"
  by (simp add: sample_registry_def vl_len_def raw_len_def pubkeys_len_def)

lemma sample_state_wf: "state_wf MinimalPreset (sample_state n)"
  by (simp add: state_wf_def per_validator_lists_def vector_sizes_def sample_state_def raw_wf_def
      sample_registry_def vl_len_def raw_len_def pubkeys_len_def Let_def MinimalPreset_def
      MainnetPreset_def SlotsPerHistoricalRoot_def)

end
