(* ===== verification/Misc.thy ===== *)
theory Misc
  imports Beacon_State
begin

text \<open>
  The functions of \<open>helper_functions/src/misc.rs\<close> and the predicates of
  \<open>helper_functions/src/predicates.rs\<close> and \<open>helper_functions/src/electra.rs\<close> that do not read the
  state.  Dividing by a type-level or \<open>NonZero\<close> divisor is \<open>div\<close>; the presets make these
  divisors positive (\<open>preset_laws\<close>).
\<close>

subsection \<open>Slots and epochs\<close>

definition compute_epoch_at_slot :: "preset \<Rightarrow> slot \<Rightarrow> epoch" where
  "compute_epoch_at_slot P s = s div SlotsPerEpoch P"

definition compute_start_slot_at_epoch :: "preset \<Rightarrow> epoch \<Rightarrow> slot" where
  "compute_start_slot_at_epoch P epoch = saturating_mul epoch (SlotsPerEpoch P)"

definition compute_shuffling_dependent_slot :: "preset \<Rightarrow> epoch \<Rightarrow> slot" where
  "compute_shuffling_dependent_slot P epoch =
     (if epoch \<le> MinSeedLookahead P then GENESIS_SLOT
      else saturating_sub
        (compute_start_slot_at_epoch P (saturating_sub epoch (MinSeedLookahead P))) 1)"

definition slots_since_epoch_start :: "preset \<Rightarrow> slot \<Rightarrow> nat res" where
  "slots_since_epoch_start P s =
     expect_ok (try_sub s (compute_start_slot_at_epoch P (compute_epoch_at_slot P s)))"

definition is_epoch_start :: "preset \<Rightarrow> slot \<Rightarrow> bool res" where
  "is_epoch_start P s = map_ok (\<lambda>n. n = 0) (slots_since_epoch_start P s)"

definition previous_epoch :: "epoch \<Rightarrow> epoch" where
  "previous_epoch epoch =
     max (case try_sub epoch 1 of Ok e \<Rightarrow> e | _ \<Rightarrow> GENESIS_EPOCH) GENESIS_EPOCH"

definition previous_slot :: "slot \<Rightarrow> slot" where
  "previous_slot s = max (case try_sub s 1 of Ok s' \<Rightarrow> s' | _ \<Rightarrow> GENESIS_SLOT) GENESIS_SLOT"

definition slots_in_epoch :: "preset \<Rightarrow> epoch \<Rightarrow> slot list res" where
  "slots_in_epoch P epoch =
     and_then (try_add epoch 1) (\<lambda>next_epoch.
     Ok [compute_start_slot_at_epoch P epoch..<compute_start_slot_at_epoch P next_epoch])"

definition sync_committee_period :: "preset \<Rightarrow> epoch \<Rightarrow> nat" where
  "sync_committee_period P epoch = epoch div EPOCHS_PER_SYNC_COMMITTEE_PERIOD P"

definition start_of_sync_committee_period :: "preset \<Rightarrow> nat \<Rightarrow> epoch res" where
  "start_of_sync_committee_period P period = try_mul period (EPOCHS_PER_SYNC_COMMITTEE_PERIOD P)"

definition compute_activation_exit_epoch :: "preset \<Rightarrow> epoch \<Rightarrow> epoch res" where
  "compute_activation_exit_epoch P epoch =
     and_then (try_add (MAX_SEED_LOOKAHEAD P) 1) (\<lambda>delay. try_add epoch delay)"

subsection \<open>Domains and signing roots\<close>

definition compute_fork_data_root :: "env \<Rightarrow> bytes \<Rightarrow> h256 \<Rightarrow> h256" where
  "compute_fork_data_root E current_version root = ev_htr_fork_data E current_version root"

definition compute_fork_digest_pre_fulu :: "env \<Rightarrow> bytes \<Rightarrow> h256 \<Rightarrow> bytes" where
  "compute_fork_digest_pre_fulu E current_version root =
     take 4 (compute_fork_data_root E current_version root)"

definition compute_domain ::
  "env \<Rightarrow> config \<Rightarrow> bytes \<Rightarrow> bytes option \<Rightarrow> h256 option \<Rightarrow> h256" where
  "compute_domain E config domain_type fork_version root =
     (let fork_version =
            (case fork_version of None \<Rightarrow> cfg_genesis_fork_version config | Some v \<Rightarrow> v);
          root = (case root of None \<Rightarrow> replicate 32 0 | Some r \<Rightarrow> r);
          fork_data_root = compute_fork_data_root E fork_version root;
          domain = replicate 32 0;
          domain = copy_from_slice 0 domain_type domain
      in copy_from_slice 4 (take 28 fork_data_root) domain)"

definition compute_signing_root :: "env \<Rightarrow> h256 \<Rightarrow> h256 \<Rightarrow> h256" where
  "compute_signing_root E object_root domain = ev_htr_signing_data E object_root domain"

subsection \<open>Committees and subnets\<close>

definition compute_shuffled_index ::
  "env \<Rightarrow> preset \<Rightarrow> validator_index \<Rightarrow> nat \<Rightarrow> h256 \<Rightarrow> validator_index res" where
  "compute_shuffled_index E P index index_count seed =
     shuffle_single (ev_compress E) (ev_get_bit E) P index index_count seed"

definition compute_subnet_for_attestation ::
  "preset \<Rightarrow> nat \<Rightarrow> slot \<Rightarrow> committee_index \<Rightarrow> nat res" where
  "compute_subnet_for_attestation P committees_per_slot s committee_index =
     and_then (ensure (committee_index < committees_per_slot)
                 (Helper CommitteeIndexOutOfBounds)) (\<lambda>_.
     and_then (slots_since_epoch_start P s) (\<lambda>slots_since.
     and_then (try_mul committees_per_slot slots_since) (\<lambda>committees_since.
     and_then (try_add committees_since committee_index) (\<lambda>n.
     Ok (n mod AttestationSubnetCount)))))"

definition compute_subnet_for_data_column_sidecar :: "config \<Rightarrow> nat \<Rightarrow> nat" where
  "compute_subnet_for_data_column_sidecar config column_index =
     (let count = cfg_data_column_sidecar_subnet_count config
      in if count = 0 then 0 else column_index mod count)"

definition committee_count_from_active_validator_count :: "preset \<Rightarrow> nat \<Rightarrow> nat" where
  "committee_count_from_active_validator_count P active =
     min (max (active div SlotsPerEpoch P div TARGET_COMMITTEE_SIZE P) 1) (MaxCommitteesPerSlot P)"

definition get_committee_indices :: "bool list \<Rightarrow> committee_index list" where
  "get_committee_indices committee_bits =
     map fst (filter snd (enumerate 0 committee_bits))"

subsection \<open>Withdrawal credentials\<close>

definition starts_with :: "'a list \<Rightarrow> 'a list \<Rightarrow> bool" where
  "starts_with bs pre = (take (length pre) bs = pre)"

definition bls_withdrawal_credentials :: "env \<Rightarrow> public_key_bytes \<Rightarrow> h256" where
  "bls_withdrawal_credentials E public_key =
     copy_from_slice 0 BLS_WITHDRAWAL_PREFIX (hash_384 (ev_compress E) public_key)"

definition PREFIX_LEN :: nat where
  "PREFIX_LEN = 12"

definition eth1_address_withdrawal_credentials :: "execution_address \<Rightarrow> h256" where
  "eth1_address_withdrawal_credentials address =
     copy_from_slice PREFIX_LEN address
       (copy_from_slice 0 ETH1_ADDRESS_WITHDRAWAL_PREFIX (replicate 32 0))"

definition has_eth1_withdrawal_credential :: "partial_validator \<Rightarrow> bool" where
  "has_eth1_withdrawal_credential validator =
     starts_with (pv_withdrawal_credentials validator) ETH1_ADDRESS_WITHDRAWAL_PREFIX"

definition is_compounding_withdrawal_credential :: "h256 \<Rightarrow> bool" where
  "is_compounding_withdrawal_credential credentials =
     starts_with credentials COMPOUNDING_WITHDRAWAL_PREFIX"

definition has_compounding_withdrawal_credential :: "partial_validator \<Rightarrow> bool" where
  "has_compounding_withdrawal_credential validator =
     is_compounding_withdrawal_credential (pv_withdrawal_credentials validator)"

definition has_execution_withdrawal_credential :: "partial_validator \<Rightarrow> bool" where
  "has_execution_withdrawal_credential validator \<longleftrightarrow>
     has_compounding_withdrawal_credential validator \<or> has_eth1_withdrawal_credential validator"

definition get_max_effective_balance :: "preset \<Rightarrow> partial_validator \<Rightarrow> gwei" where
  "get_max_effective_balance P validator =
     (if has_compounding_withdrawal_credential validator then MAX_EFFECTIVE_BALANCE_ELECTRA P
      else MIN_ACTIVATION_BALANCE P)"

definition parse_graffiti :: "bytes \<Rightarrow> h256 res" where
  "parse_graffiti string =
     and_then (ensure (length string \<le> 32) (Helper GraffitiTooLong)) (\<lambda>_.
     Ok (copy_from_slice 0 string (replicate 32 0)))"

subsection \<open>Predicates on validators and attestations\<close>

definition is_active_validator :: "partial_validator \<Rightarrow> epoch \<Rightarrow> bool" where
  "is_active_validator validator epoch \<longleftrightarrow>
     pv_activation_epoch validator \<le> epoch \<and> epoch < pv_exit_epoch validator"

definition is_eligible_for_penalties :: "partial_validator \<Rightarrow> epoch \<Rightarrow> bool res" where
  "is_eligible_for_penalties validator prev_epoch =
     (if is_active_validator validator prev_epoch then Ok True
      else if pv_slashed validator
      then map_ok (\<lambda>e. e < pv_withdrawable_epoch validator) (try_add prev_epoch 1)
      else Ok False)"

definition is_slashable_validator :: "partial_validator \<Rightarrow> epoch \<Rightarrow> bool" where
  "is_slashable_validator validator epoch \<longleftrightarrow>
     \<not> pv_slashed validator \<and> epoch < pv_withdrawable_epoch validator
     \<and> pv_activation_epoch validator \<le> epoch"

definition is_slashable_attestation_data :: "attestation_data \<Rightarrow> attestation_data \<Rightarrow> bool" where
  "is_slashable_attestation_data data_1 data_2 \<longleftrightarrow>
     (data_1 \<noteq> data_2 \<and> cp_epoch (data_target data_1) = cp_epoch (data_target data_2))
     \<or> (cp_epoch (data_source data_1) < cp_epoch (data_source data_2)
        \<and> cp_epoch (data_target data_2) < cp_epoch (data_target data_1))"

definition is_valid_merkle_branch ::
  "compress256 \<Rightarrow> bit_reader \<Rightarrow> h256 \<Rightarrow> h256 list \<Rightarrow> nat \<Rightarrow> h256 \<Rightarrow> bool" where
  "is_valid_merkle_branch compress gb leaf branch index root =
     (fold (\<lambda>(height, node) hash.
        if gb index height then hash_256_256 compress node hash
        else hash_256_256 compress hash node) (enumerate 0 branch) leaf = root)"

definition is_eligible_for_activation_queue :: "preset \<Rightarrow> partial_validator \<Rightarrow> gwei \<Rightarrow> bool" where
  "is_eligible_for_activation_queue P validator effective_balance \<longleftrightarrow>
     pv_activation_eligibility_epoch validator = FAR_FUTURE_EPOCH
     \<and> MIN_ACTIVATION_BALANCE P \<le> effective_balance"

definition is_fully_withdrawable_validator :: "partial_validator \<Rightarrow> gwei \<Rightarrow> epoch \<Rightarrow> bool" where
  "is_fully_withdrawable_validator validator balance epoch \<longleftrightarrow>
     has_execution_withdrawal_credential validator
     \<and> pv_withdrawable_epoch validator \<le> epoch \<and> 0 < balance"

definition is_partially_withdrawable_validator ::
  "preset \<Rightarrow> partial_validator \<Rightarrow> gwei \<Rightarrow> gwei \<Rightarrow> bool" where
  "is_partially_withdrawable_validator P validator effective_balance balance \<longleftrightarrow>
     (let max_effective_balance = get_max_effective_balance P validator
      in has_execution_withdrawal_credential validator
         \<and> effective_balance = max_effective_balance \<and> max_effective_balance < balance)"

end
