(* ===== verification/Accessors.thy ===== *)
theory Accessors
  imports Misc
begin

text \<open>
  The accessors of the state (\<open>helper_functions/src/accessors.rs\<close>), the predicates that read it
  (\<open>helper_functions/src/predicates.rs\<close>) and the attesting indices of Electra attestations
  (\<open>helper_functions/src/electra.rs\<close>), for an Electra state: \<open>is_post_electra\<close> holds,
  \<open>is_post_gloas\<close> does not, and \<open>post_fulu\<close> is \<open>None\<close>.

  The accessors that memoise their result in the cache of the state compute it here.
\<close>

subsection \<open>Epochs\<close>

definition get_current_epoch :: "preset \<Rightarrow> beacon_state \<Rightarrow> epoch" where
  "get_current_epoch P state = compute_epoch_at_slot P (slot state)"

definition get_previous_epoch :: "preset \<Rightarrow> beacon_state \<Rightarrow> epoch" where
  "get_previous_epoch P state = previous_epoch (get_current_epoch P state)"

definition get_next_epoch :: "preset \<Rightarrow> beacon_state \<Rightarrow> epoch res" where
  "get_next_epoch P state = try_add (get_current_epoch P state) 1"

definition absolute_epoch :: "preset \<Rightarrow> beacon_state \<Rightarrow> relative_epoch \<Rightarrow> epoch res" where
  "absolute_epoch P state rel =
     (case rel of
        RPrevious \<Rightarrow> Ok (get_previous_epoch P state)
      | RCurrent \<Rightarrow> Ok (get_current_epoch P state)
      | RNext \<Rightarrow> get_next_epoch P state)"

definition attestation_epoch_of :: "preset \<Rightarrow> beacon_state \<Rightarrow> epoch \<Rightarrow> attestation_epoch res" where
  "attestation_epoch_of P state epoch =
     (case checked_sub (get_current_epoch P state) epoch of
        None \<Rightarrow> Err (Helper EpochInTheFuture)
      | Some n \<Rightarrow>
          if n = 0 then Ok ACurrent
          else if n = 1 then Ok APrevious
          else Err (Helper EpochBeforePrevious))"

definition relative_epoch_of :: "preset \<Rightarrow> beacon_state \<Rightarrow> epoch \<Rightarrow> relative_epoch res" where
  "relative_epoch_of P state epoch =
     and_then (get_next_epoch P state) (\<lambda>next_epoch.
     case checked_sub next_epoch epoch of
       None \<Rightarrow> Err (Helper EpochAfterNext)
     | Some n \<Rightarrow>
         if n = 0 then Ok RNext
         else if n = 1 then Ok RCurrent
         else if n = 2 then Ok RPrevious
         else Err (Helper EpochBeforePrevious))"

definition get_finality_delay :: "preset \<Rightarrow> beacon_state \<Rightarrow> nat res" where
  "get_finality_delay P state =
     try_sub (get_previous_epoch P state) (cp_epoch (finalized_checkpoint state))"

definition is_in_inactivity_leak :: "preset \<Rightarrow> beacon_state \<Rightarrow> bool res" where
  "is_in_inactivity_leak P state =
     map_ok (\<lambda>delay. MIN_EPOCHS_TO_INACTIVITY_PENALTY P < delay) (get_finality_delay P state)"

subsection \<open>Roots and randomness\<close>

definition get_block_root_at_slot :: "preset \<Rightarrow> beacon_state \<Rightarrow> slot \<Rightarrow> h256 res" where
  "get_block_root_at_slot P state s =
     and_then (ensure (s < slot state) (Helper SlotOutOfRange)) (\<lambda>_.
     and_then (try_add s (SlotsPerHistoricalRoot P)) (\<lambda>limit.
     and_then (ensure (slot state \<le> limit) (Helper SlotOutOfRange)) (\<lambda>_.
     mod_index (SlotsPerHistoricalRoot P) (block_roots state) s)))"

definition to_relative_epoch :: "attestation_epoch \<Rightarrow> relative_epoch" where
  "to_relative_epoch a = (case a of APrevious \<Rightarrow> RPrevious | ACurrent \<Rightarrow> RCurrent)"

definition get_block_root :: "preset \<Rightarrow> beacon_state \<Rightarrow> attestation_epoch \<Rightarrow> h256 res" where
  "get_block_root P state a =
     and_then (absolute_epoch P state (to_relative_epoch a)) (\<lambda>epoch.
     get_block_root_at_slot P state (compute_start_slot_at_epoch P epoch))"

definition epoch_boundary_block_root :: "preset \<Rightarrow> beacon_state \<Rightarrow> h256 \<Rightarrow> h256 res" where
  "epoch_boundary_block_root P head_state head_block_root =
     (let start_slot = compute_start_slot_at_epoch P (get_current_epoch P head_state)
      in if start_slot = slot head_state then Ok head_block_root
         else expect_ok (get_block_root_at_slot P head_state start_slot))"

definition latest_block_root :: "env \<Rightarrow> beacon_state \<Rightarrow> h256" where
  "latest_block_root E state =
     (let header = latest_block_header state;
          header =
            (if hdr_state_root header = replicate 32 0
             then header\<lparr> hdr_state_root := ev_htr_state E state \<rparr> else header)
      in ev_htr_header E header)"

definition get_randao_mix :: "preset \<Rightarrow> beacon_state \<Rightarrow> epoch \<Rightarrow> h256 res" where
  "get_randao_mix P state epoch = mod_index (EpochsPerHistoricalVector P) (randao_mixes state) epoch"

definition get_seed_by_epoch :: "env \<Rightarrow> preset \<Rightarrow> beacon_state \<Rightarrow> epoch \<Rightarrow> bytes \<Rightarrow> h256 res" where
  "get_seed_by_epoch E P state epoch domain_type =
     and_then (try_add epoch (EpochsPerHistoricalVector P)) (\<lambda>e.
     and_then (try_sub e (MinSeedLookahead P)) (\<lambda>e.
     and_then (try_sub e 1) (\<lambda>e.
     and_then (get_randao_mix P state e) (\<lambda>mix.
     Ok (hash_32_64_256 (ev_compress E) domain_type epoch mix)))))"

definition get_seed :: "env \<Rightarrow> preset \<Rightarrow> beacon_state \<Rightarrow> relative_epoch \<Rightarrow> bytes \<Rightarrow> h256 res" where
  "get_seed E P state rel domain_type =
     and_then (absolute_epoch P state rel) (\<lambda>epoch. get_seed_by_epoch E P state epoch domain_type)"

subsection \<open>Validators\<close>

definition public_key :: "beacon_state \<Rightarrow> validator_index \<Rightarrow> public_key_bytes res" where
  "public_key state index = vl_pubkey (validators state) index"

definition index_of_public_key :: "beacon_state \<Rightarrow> public_key_bytes \<Rightarrow> validator_index option" where
  "index_of_public_key state pubkey = index_of (vl_pubkeys (validators state)) pubkey"

definition get_filtered_active_validator_indices_by_epoch ::
  "beacon_state \<Rightarrow> epoch \<Rightarrow> (partial_validator \<Rightarrow> bool) \<Rightarrow> validator_index list" where
  "get_filtered_active_validator_indices_by_epoch state epoch keep =
     map fst (filter (\<lambda>(_, v). keep v)
       (filter (\<lambda>(_, v). is_active_validator v epoch)
          (enumerate 0 (vl_partial_validators (validators state)))))"

definition get_active_validator_indices_by_epoch :: "beacon_state \<Rightarrow> epoch \<Rightarrow> validator_index list" where
  "get_active_validator_indices_by_epoch state epoch =
     get_filtered_active_validator_indices_by_epoch state epoch (\<lambda>_. True)"

definition get_active_validator_indices ::
  "preset \<Rightarrow> beacon_state \<Rightarrow> relative_epoch \<Rightarrow> validator_index list res" where
  "get_active_validator_indices P state rel =
     map_ok (get_active_validator_indices_by_epoch state) (absolute_epoch P state rel)"

text \<open>
  The cached list of indices is packed into the narrowest integer type that holds its last
  element.  \<open>packed_indices\<close> is the stored form, and \<open>unpack_indices\<close> the \<open>u64\<close> values that
  reading it gives.
\<close>

datatype packed_indices =
    PackedU8 "8 word list"
  | PackedU16 "16 word list"
  | PackedU32 "32 word list"
  | PackedU64 "64 word list"

definition pack_one :: "nat \<Rightarrow> 'w::len word res" where
  "pack_one n = (if n < 2 ^ LENGTH('w) then Ok (of_nat n) else Panic)"

definition pack_indices :: "validator_index list \<Rightarrow> packed_indices res" where
  "pack_indices indices =
     (let largest = (if indices = [] then 0 else last indices)
      in if largest < 0x100 then map_ok PackedU8 (try_map pack_one indices)
         else if largest < 0x10000 then map_ok PackedU16 (try_map pack_one indices)
         else if largest < 0x100000000 then map_ok PackedU32 (try_map pack_one indices)
         else map_ok PackedU64 (try_map pack_one indices))"

fun unpack_indices :: "packed_indices \<Rightarrow> validator_index list" where
  "unpack_indices (PackedU8 ws) = map unat ws"
| "unpack_indices (PackedU16 ws) = map unat ws"
| "unpack_indices (PackedU32 ws) = map unat ws"
| "unpack_indices (PackedU64 ws) = map unat ws"

fun packed_len :: "packed_indices \<Rightarrow> nat" where
  "packed_len (PackedU8 ws) = length ws"
| "packed_len (PackedU16 ws) = length ws"
| "packed_len (PackedU32 ws) = length ws"
| "packed_len (PackedU64 ws) = length ws"

definition active_validator_indices_ordered ::
  "preset \<Rightarrow> beacon_state \<Rightarrow> relative_epoch \<Rightarrow> packed_indices res" where
  "active_validator_indices_ordered P state rel =
     and_then (get_active_validator_indices P state rel) pack_indices"

definition DOMAIN_BEACON_PROPOSER :: bytes where "DOMAIN_BEACON_PROPOSER = [0, 0, 0, 0]"
definition DOMAIN_BEACON_ATTESTER :: bytes where "DOMAIN_BEACON_ATTESTER = [1, 0, 0, 0]"
definition DOMAIN_RANDAO :: bytes where "DOMAIN_RANDAO = [2, 0, 0, 0]"
definition DOMAIN_DEPOSIT :: bytes where "DOMAIN_DEPOSIT = [3, 0, 0, 0]"
definition DOMAIN_VOLUNTARY_EXIT :: bytes where "DOMAIN_VOLUNTARY_EXIT = [4, 0, 0, 0]"
definition DOMAIN_SYNC_COMMITTEE :: bytes where "DOMAIN_SYNC_COMMITTEE = [7, 0, 0, 0]"
definition DOMAIN_BLS_TO_EXECUTION_CHANGE :: bytes where
  "DOMAIN_BLS_TO_EXECUTION_CHANGE = [10, 0, 0, 0]"

fun shuffle_indices :: "env \<Rightarrow> preset \<Rightarrow> packed_indices \<Rightarrow> h256 \<Rightarrow> packed_indices res" where
  "shuffle_indices E P (PackedU8 ordered) seed =
     map_ok PackedU8 (shuffle_slice (ev_compress E) (ev_get_bit E) (ev_threads E) P ordered seed)"
| "shuffle_indices E P (PackedU16 ordered) seed =
     map_ok PackedU16 (shuffle_slice (ev_compress E) (ev_get_bit E) (ev_threads E) P ordered seed)"
| "shuffle_indices E P (PackedU32 ordered) seed =
     map_ok PackedU32 (shuffle_slice (ev_compress E) (ev_get_bit E) (ev_threads E) P ordered seed)"
| "shuffle_indices E P (PackedU64 ordered) seed =
     map_ok PackedU64 (shuffle_slice (ev_compress E) (ev_get_bit E) (ev_threads E) P ordered seed)"

definition active_validator_indices_shuffled ::
  "env \<Rightarrow> preset \<Rightarrow> beacon_state \<Rightarrow> relative_epoch \<Rightarrow> packed_indices res" where
  "active_validator_indices_shuffled E P state rel =
     and_then (get_seed E P state rel DOMAIN_BEACON_ATTESTER) (\<lambda>seed.
     and_then (active_validator_indices_ordered P state rel) (\<lambda>ordered.
     shuffle_indices E P ordered seed))"

definition active_validator_count :: "preset \<Rightarrow> beacon_state \<Rightarrow> relative_epoch \<Rightarrow> nat res" where
  "active_validator_count P state rel =
     map_ok packed_len (active_validator_indices_ordered P state rel)"

definition get_validator_churn_limit :: "config \<Rightarrow> preset \<Rightarrow> beacon_state \<Rightarrow> nat res" where
  "get_validator_churn_limit config P state =
     map_ok (\<lambda>n. max (n div cfg_churn_limit_quotient config) (cfg_min_per_epoch_churn_limit config))
       (active_validator_count P state RCurrent)"

definition get_validator_activation_churn_limit :: "config \<Rightarrow> preset \<Rightarrow> beacon_state \<Rightarrow> nat res" where
  "get_validator_activation_churn_limit config P state =
     map_ok (\<lambda>churn_limit. min churn_limit (cfg_max_per_epoch_activation_churn_limit config))
       (get_validator_churn_limit config P state)"

definition get_committee_count_per_slot :: "preset \<Rightarrow> beacon_state \<Rightarrow> relative_epoch \<Rightarrow> nat res" where
  "get_committee_count_per_slot P state rel =
     map_ok (committee_count_from_active_validator_count P) (active_validator_count P state rel)"

definition get_subnet_for_attestation ::
  "preset \<Rightarrow> beacon_state \<Rightarrow> slot \<Rightarrow> committee_index \<Rightarrow> nat res" where
  "get_subnet_for_attestation P state s index =
     and_then (get_committee_count_per_slot P state RCurrent) (\<lambda>committees_per_slot.
     compute_subnet_for_attestation P committees_per_slot s index)"

definition beacon_committee ::
  "env \<Rightarrow> preset \<Rightarrow> beacon_state \<Rightarrow> slot \<Rightarrow> committee_index \<Rightarrow> validator_index list res" where
  "beacon_committee E P state s index =
     and_then (relative_epoch_of P state (compute_epoch_at_slot P s)) (\<lambda>rel.
     and_then (get_committee_count_per_slot P state rel) (\<lambda>committees_per_slot.
     and_then (ensure (index < committees_per_slot) (Helper CommitteeIndexOutOfBounds)) (\<lambda>_.
     and_then (active_validator_indices_shuffled E P state rel) (\<lambda>indices.
     let validator_count = packed_len indices in
     and_then (try_mul committees_per_slot (SlotsPerEpoch P)) (\<lambda>committees_in_epoch.
     and_then (slots_since_epoch_start P s) (\<lambda>slots_since.
     and_then (try_mul slots_since committees_per_slot) (\<lambda>n.
     and_then (try_add n index) (\<lambda>index_in_epoch.
     and_then (try_mul validator_count index_in_epoch) (\<lambda>n.
     and_then (ok_or (checked_div n committees_in_epoch) (Helper CommitteeIndexStartInvalid)) (\<lambda>start.
     and_then (try_add index_in_epoch 1) (\<lambda>next_index.
     and_then (try_mul validator_count next_index) (\<lambda>n.
     and_then (ok_or (checked_div n committees_in_epoch) (Helper CommitteeIndexEndInvalid)) (\<lambda>stop.
     vec_slice (unpack_indices indices) start stop)))))))))))))"

definition beacon_committees ::
  "env \<Rightarrow> preset \<Rightarrow> beacon_state \<Rightarrow> slot \<Rightarrow> validator_index list list res" where
  "beacon_committees E P state s =
     and_then (relative_epoch_of P state (compute_epoch_at_slot P s)) (\<lambda>rel.
     and_then (get_committee_count_per_slot P state rel) (\<lambda>committees_per_slot.
     try_map (\<lambda>index. expect_ok (beacon_committee E P state s index)) [0..<committees_per_slot]))"

subsection \<open>Proposers\<close>

text \<open>
  Proposer and sync committee selection walk through an iterator of 16-bit random values, 16 of
  them per hash, paired with the number of the attempt.  The iterator ends after
  \<open>u64::MAX / 16\<close> hashes.  \<open>selection_candidate\<close> is the body of both loops: the candidate of an
  attempt and whether its balance passes the random threshold.
\<close>

definition SELECTION_ATTEMPTS :: nat where
  "SELECTION_ATTEMPTS = 16 * (u64_max div 16)"

definition random_value :: "compress256 \<Rightarrow> h256 \<Rightarrow> nat \<Rightarrow> nat" where
  "random_value compress seed attempt =
     from_le_bytes (take 2 (drop (2 * (attempt mod 16)) (hash_256_64 compress seed (attempt div 16))))"

definition selection_candidate ::
  "env \<Rightarrow> preset \<Rightarrow> beacon_state \<Rightarrow> validator_index list \<Rightarrow> h256 \<Rightarrow> nat
    \<Rightarrow> (validator_index \<times> bool) res" where
  "selection_candidate E P state indices seed attempt =
     (let total = length indices in
      and_then (compute_shuffled_index E P (attempt mod total) total seed) (\<lambda>shuffled_index.
      and_then (nth_rs indices shuffled_index) (\<lambda>candidate_index.
      and_then (expect_ok (vl_effective_balance (validators state) candidate_index)) (\<lambda>effective_balance.
      and_then (try_mul effective_balance 65535) (\<lambda>a.
      and_then (try_mul (MAX_EFFECTIVE_BALANCE_ELECTRA P) (random_value (ev_compress E) seed attempt)) (\<lambda>b.
      Ok (candidate_index, b \<le> a)))))))"

function proposer_loop ::
  "env \<Rightarrow> preset \<Rightarrow> beacon_state \<Rightarrow> validator_index list \<Rightarrow> h256 \<Rightarrow> nat \<Rightarrow> validator_index res" where
  "proposer_loop E P state indices seed attempt =
     (if SELECTION_ATTEMPTS \<le> attempt then Err (Helper FailedToSelectProposer)
      else and_then (selection_candidate E P state indices seed attempt) (\<lambda>(candidate, accepted).
        if accepted then Ok candidate else proposer_loop E P state indices seed (attempt + 1)))"
  by pat_completeness auto
termination
  by (relation "measure (\<lambda>(E, P, state, indices, seed, attempt). SELECTION_ATTEMPTS - attempt)") auto

declare proposer_loop.simps [simp del]

definition compute_proposer_index ::
  "env \<Rightarrow> preset \<Rightarrow> beacon_state \<Rightarrow> packed_indices \<Rightarrow> h256 \<Rightarrow> validator_index res" where
  "compute_proposer_index E P state indices seed =
     and_then (ensure (packed_len indices \<noteq> 0) (Helper NoActiveValidators)) (\<lambda>_.
     proposer_loop E P state (unpack_indices indices) seed 0)"

definition get_beacon_proposer_index_at_slot ::
  "env \<Rightarrow> preset \<Rightarrow> beacon_state \<Rightarrow> slot \<Rightarrow> validator_index res" where
  "get_beacon_proposer_index_at_slot E P state s =
     and_then (relative_epoch_of P state (compute_epoch_at_slot P s)) (\<lambda>rel.
     and_then (active_validator_indices_ordered P state rel) (\<lambda>indices.
     and_then (get_seed E P state rel DOMAIN_BEACON_PROPOSER) (\<lambda>seed.
     compute_proposer_index E P state indices (hash_256_64 (ev_compress E) seed s))))"

definition get_beacon_proposer_index :: "env \<Rightarrow> preset \<Rightarrow> beacon_state \<Rightarrow> validator_index res" where
  "get_beacon_proposer_index E P state = get_beacon_proposer_index_at_slot E P state (slot state)"

subsection \<open>Domains and signing roots of the state's fork\<close>

definition get_domain_from_fork_info ::
  "env \<Rightarrow> config \<Rightarrow> fork \<Rightarrow> h256 \<Rightarrow> bytes \<Rightarrow> epoch \<Rightarrow> h256" where
  "get_domain_from_fork_info E config frk root domain_type epoch =
     (let fork_version =
            (if epoch < fork_epoch frk then fork_previous_version frk else fork_current_version frk)
      in compute_domain E config domain_type (Some fork_version) (Some root))"

definition get_domain ::
  "env \<Rightarrow> config \<Rightarrow> preset \<Rightarrow> beacon_state \<Rightarrow> bytes \<Rightarrow> epoch option \<Rightarrow> h256" where
  "get_domain E config P state domain_type epoch =
     (let epoch = (case epoch of None \<Rightarrow> get_current_epoch P state | Some e \<Rightarrow> e)
      in get_domain_from_fork_info E config (fork state) (genesis_validators_root state) domain_type epoch)"

text \<open>
  The default methods of the traits \<open>SignForAllForks\<close>, \<open>SignForAllForksWithGenesis\<close> and
  \<open>SignForSingleFork\<close>, with the domain type, the epoch and the root of the signed object as
  arguments.
\<close>

definition signing_root_all_forks :: "env \<Rightarrow> config \<Rightarrow> bytes \<Rightarrow> h256 \<Rightarrow> h256" where
  "signing_root_all_forks E config domain_type root =
     compute_signing_root E root (compute_domain E config domain_type None None)"

definition signing_root_with_genesis ::
  "env \<Rightarrow> config \<Rightarrow> beacon_state \<Rightarrow> bytes \<Rightarrow> h256 \<Rightarrow> h256" where
  "signing_root_with_genesis E config state domain_type root =
     compute_signing_root E root
       (compute_domain E config domain_type None (Some (genesis_validators_root state)))"

definition signing_root_single_fork ::
  "env \<Rightarrow> config \<Rightarrow> beacon_state \<Rightarrow> bytes \<Rightarrow> epoch \<Rightarrow> h256 \<Rightarrow> h256" where
  "signing_root_single_fork E config state domain_type epoch root =
     compute_signing_root E root
       (get_domain_from_fork_info E config (fork state) (genesis_validators_root state) domain_type epoch)"

subsection \<open>Signature verification\<close>

text \<open>
  \<open>NullVerifier\<close> accepts everything, \<open>SingleVerifier\<close> checks each signature where it occurs.
  The public keys of an aggregate signature are an iterator that decompresses them on demand
  (\<open>itertools::process_results\<close> reports the first error); \<open>NullVerifier\<close> does not advance it.
\<close>

datatype verifier = NullVerifier | SingleVerifier

fun verify_singular ::
  "env \<Rightarrow> verifier \<Rightarrow> h256 \<Rightarrow> signature_bytes \<Rightarrow> public_key_bytes \<Rightarrow> signature_kind \<Rightarrow> unit res" where
  "verify_singular E NullVerifier message signature pubkey kind = Ok ()"
| "verify_singular E SingleVerifier message signature pubkey kind =
     and_then (ev_signature E signature) (\<lambda>_.
     ensure (ev_verify E message signature pubkey) (Helper (SignatureInvalid kind)))"

fun verify_aggregate ::
  "env \<Rightarrow> verifier \<Rightarrow> h256 \<Rightarrow> signature_bytes \<Rightarrow> public_key_bytes res list \<Rightarrow> signature_kind
    \<Rightarrow> unit res" where
  "verify_aggregate E NullVerifier message signature pubkeys kind = Ok ()"
| "verify_aggregate E SingleVerifier message signature pubkeys kind =
     and_then (ev_signature E signature) (\<lambda>_.
     and_then (try_map (\<lambda>key. key) pubkeys) (\<lambda>keys.
     ensure (ev_verify_aggregate E message signature keys) (Helper (SignatureInvalid kind))))"

definition signature_empty :: signature_bytes where
  "signature_empty = 0xc0 # replicate 95 0"

definition verify_aggregate_allowing_empty ::
  "env \<Rightarrow> verifier \<Rightarrow> h256 \<Rightarrow> signature_bytes \<Rightarrow> public_key_bytes res list \<Rightarrow> signature_kind
    \<Rightarrow> unit res" where
  "verify_aggregate_allowing_empty E v message signature pubkeys kind =
     (if signature = signature_empty
      then (case pubkeys of
              [] \<Rightarrow> Ok ()
            | Ok _ # _ \<Rightarrow> Err (Helper (SignatureInvalid kind))
            | Err e # _ \<Rightarrow> Err e
            | Panic # _ \<Rightarrow> Panic)
      else verify_aggregate E v message signature pubkeys kind)"

text \<open>\<open>PubkeyCache::get_or_insert\<close> on the key of a validator.\<close>

definition validator_key :: "env \<Rightarrow> beacon_state \<Rightarrow> validator_index \<Rightarrow> public_key_bytes res" where
  "validator_key E state index = and_then (public_key state index) (ev_decompress E)"

definition validate_indexed_attestation ::
  "env \<Rightarrow> config \<Rightarrow> preset \<Rightarrow> beacon_state \<Rightarrow> indexed_attestation \<Rightarrow> verifier \<Rightarrow> bool \<Rightarrow> unit res" where
  "validate_indexed_attestation E config P state indexed v check_sorted =
     (let indices = ia_attesting_indices indexed in
      and_then (ensure (indices \<noteq> []) (Helper AttestationHasNoAttestingIndices)) (\<lambda>_.
      and_then (ensure (length indices \<le> MaxAttestersPerSlot P)
        (Helper (TooManyAttestingIndices (length indices) (MaxAttestersPerSlot P)))) (\<lambda>_.
      and_then (if check_sorted
        then ensure (list_all (\<lambda>(a, b). a < b) (zip indices (tl indices)))
               (Helper AttestingIndicesNotSortedAndUnique)
        else Ok ()) (\<lambda>_.
      case find (\<lambda>index. vl_len (validators state) \<le> index) indices of
        Some index \<Rightarrow> Err (Helper (AttestingIndexOutOfBounds index (vl_len (validators state))))
      | None \<Rightarrow>
          verify_aggregate E v
            (signing_root_single_fork E config state DOMAIN_BEACON_ATTESTER
               (cp_epoch (data_target (ia_data indexed))) (ev_htr_attestation_data E (ia_data indexed)))
            (ia_signature indexed) (map (validator_key E state) indices) SkAttestation))))"

definition validate_constructed_indexed_attestation ::
  "env \<Rightarrow> config \<Rightarrow> preset \<Rightarrow> beacon_state \<Rightarrow> indexed_attestation \<Rightarrow> verifier \<Rightarrow> unit res" where
  "validate_constructed_indexed_attestation E config P state indexed v =
     validate_indexed_attestation E config P state indexed v False"

definition validate_received_indexed_attestation ::
  "env \<Rightarrow> config \<Rightarrow> preset \<Rightarrow> beacon_state \<Rightarrow> indexed_attestation \<Rightarrow> verifier \<Rightarrow> unit res" where
  "validate_received_indexed_attestation E config P state indexed v =
     validate_indexed_attestation E config P state indexed v True"

definition is_valid_deposit_signature :: "env \<Rightarrow> config \<Rightarrow> pending_deposit \<Rightarrow> bool" where
  "is_valid_deposit_signature E config deposit =
     (let deposit_message =
            \<lparr> dm_pubkey = pd_pubkey deposit,
              dm_withdrawal_credentials = pd_withdrawal_credentials deposit,
              dm_amount = pd_amount deposit \<rparr>
      in is_ok (and_then (ev_decompress E (pd_pubkey deposit)) (\<lambda>decompressed.
           verify_singular E SingleVerifier
             (signing_root_all_forks E config DOMAIN_DEPOSIT (ev_htr_deposit_message E deposit_message))
             (pd_signature deposit) decompressed SkDeposit)))"

subsection \<open>Balances, rewards and churn\<close>

definition total_active_balance :: "preset \<Rightarrow> beacon_state \<Rightarrow> gwei res" where
  "total_active_balance P state =
     (let epoch = get_current_epoch P state in
      map_ok (\<lambda>total. max total (EFFECTIVE_BALANCE_INCREMENT P))
        (sum_rs (map snd (filter (\<lambda>(v, _). is_active_validator v epoch)
          (zip (vl_partial_validators (validators state))
             (vl_effective_balances (validators state)))))))"

definition compute_base_reward :: "preset \<Rightarrow> gwei \<Rightarrow> gwei \<Rightarrow> gwei res" where
  "compute_base_reward P effective_balance base_reward_per_increment =
     try_mul (effective_balance div EFFECTIVE_BALANCE_INCREMENT P) base_reward_per_increment"

definition get_base_reward :: "preset \<Rightarrow> beacon_state \<Rightarrow> validator_index \<Rightarrow> gwei \<Rightarrow> gwei res" where
  "get_base_reward P state index base_reward_per_increment =
     and_then (vl_effective_balance (validators state) index) (\<lambda>effective_balance.
     compute_base_reward P effective_balance base_reward_per_increment)"

definition get_base_reward_per_increment :: "env \<Rightarrow> preset \<Rightarrow> beacon_state \<Rightarrow> gwei res" where
  "get_base_reward_per_increment E P state =
     and_then (try_mul (EFFECTIVE_BALANCE_INCREMENT P) (BASE_REWARD_FACTOR P)) (\<lambda>n.
     and_then (total_active_balance P state) (\<lambda>total.
     try_div n (ev_sqrt E total)))"

definition get_balance_churn_limit :: "config \<Rightarrow> preset \<Rightarrow> beacon_state \<Rightarrow> gwei res" where
  "get_balance_churn_limit config P state =
     map_ok (\<lambda>total.
        prev_multiple_of (max (total div cfg_churn_limit_quotient config)
          (cfg_min_per_epoch_churn_limit_electra config)) (EFFECTIVE_BALANCE_INCREMENT P))
       (total_active_balance P state)"

definition get_activation_exit_churn_limit :: "config \<Rightarrow> preset \<Rightarrow> beacon_state \<Rightarrow> gwei res" where
  "get_activation_exit_churn_limit config P state =
     map_ok (\<lambda>churn. min churn (cfg_max_per_epoch_activation_exit_churn_limit config))
       (get_balance_churn_limit config P state)"

definition get_consolidation_churn_limit :: "config \<Rightarrow> preset \<Rightarrow> beacon_state \<Rightarrow> gwei res" where
  "get_consolidation_churn_limit config P state =
     and_then (get_balance_churn_limit config P state) (\<lambda>churn.
     and_then (get_activation_exit_churn_limit config P state) (\<lambda>activation_exit.
     try_sub churn activation_exit))"

definition get_pending_balance_to_withdraw :: "beacon_state \<Rightarrow> validator_index \<Rightarrow> gwei res" where
  "get_pending_balance_to_withdraw state index =
     sum_rs (map pw_amount
       (filter (\<lambda>w. pw_validator_index w = index) (pending_partial_withdrawals state)))"

subsection \<open>Sync committees\<close>

definition SyncCommitteeSubnetCount :: nat where
  "SyncCommitteeSubnetCount = 4"

definition SyncSubcommitteeSize :: "preset \<Rightarrow> nat" where
  "SyncSubcommitteeSize P = SyncCommitteeSize P div SyncCommitteeSubnetCount"

definition vector_try_from_iter :: "nat \<Rightarrow> 'a list \<Rightarrow> 'a list res" where
  "vector_try_from_iter N xs =
     (if length xs = N then Ok xs else Err (Read (VectorSizeMismatch N (length xs))))"

function sync_committee_loop ::
  "env \<Rightarrow> preset \<Rightarrow> beacon_state \<Rightarrow> validator_index list \<Rightarrow> h256 \<Rightarrow> nat \<Rightarrow> validator_index list
    \<Rightarrow> validator_index list res" where
  "sync_committee_loop E P state indices seed attempt selected =
     (if SELECTION_ATTEMPTS \<le> attempt then Ok selected
      else and_then (selection_candidate E P state indices seed attempt) (\<lambda>(candidate, accepted).
        if accepted then
          (let selected = selected @ [candidate]
           in if SyncCommitteeSize P \<le> length selected then Ok selected
              else sync_committee_loop E P state indices seed (attempt + 1) selected)
        else sync_committee_loop E P state indices seed (attempt + 1) selected))"
  by pat_completeness auto
termination
  by (relation "measure (\<lambda>(E, P, state, indices, seed, attempt, selected). SELECTION_ATTEMPTS - attempt)")
    auto

declare sync_committee_loop.simps [simp del]

definition get_next_sync_committee_indices_post_electra ::
  "env \<Rightarrow> preset \<Rightarrow> beacon_state \<Rightarrow> validator_index list res" where
  "get_next_sync_committee_indices_post_electra E P state =
     and_then (get_next_epoch P state) (\<lambda>next_epoch.
     let indices = get_active_validator_indices_by_epoch state next_epoch in
     and_then (ensure (indices \<noteq> []) (Helper NoActiveValidators)) (\<lambda>_.
     and_then (get_seed_by_epoch E P state next_epoch DOMAIN_SYNC_COMMITTEE) (\<lambda>seed.
     and_then (sync_committee_loop E P state indices seed 0 []) (\<lambda>selected.
     vector_try_from_iter (SyncCommitteeSize P) selected))))"

definition get_next_sync_committee :: "env \<Rightarrow> preset \<Rightarrow> beacon_state \<Rightarrow> sync_committee res" where
  "get_next_sync_committee E P state =
     and_then (get_next_sync_committee_indices_post_electra E P state) (\<lambda>indices.
     and_then (try_map (vl_pubkey (validators state)) indices) (\<lambda>pubkeys.
     and_then (try_map (ev_decompress E) pubkeys) (\<lambda>keys.
     and_then (ev_aggregate E keys) (\<lambda>aggregate.
     Ok \<lparr> sc_pubkeys = pubkeys, sc_aggregate_pubkey = aggregate \<rparr>))))"

definition get_sync_subcommittee_pubkeys ::
  "preset \<Rightarrow> beacon_state \<Rightarrow> nat \<Rightarrow> public_key_bytes list res" where
  "get_sync_subcommittee_pubkeys P state subcommittee_index =
     and_then (try_add (slot state) 1) (\<lambda>next_slot.
     let committee =
           (if sync_committee_period P (get_current_epoch P state)
               = sync_committee_period P (compute_epoch_at_slot P next_slot)
            then current_sync_committee state else next_sync_committee state);
         size = SyncSubcommitteeSize P in
     and_then (usize_try_mul subcommittee_index size) (\<lambda>offset.
     and_then (usize_try_add offset size) (\<lambda>stop.
     vec_slice (sc_pubkeys committee) offset stop)))"

definition compute_subnets_for_sync_committee ::
  "preset \<Rightarrow> beacon_state \<Rightarrow> validator_index \<Rightarrow> bool list res" where
  "compute_subnets_for_sync_committee P state index =
     and_then (try_add (slot state) 1) (\<lambda>next_slot.
     let committee =
           (if sync_committee_period P (get_current_epoch P state)
               = sync_committee_period P (compute_epoch_at_slot P next_slot)
            then current_sync_committee state else next_sync_committee state) in
     and_then (vl_pubkey (validators state) index) (\<lambda>target_pubkey.
     try_fold (\<lambda>(position, _) subnets.
         let subnet = position div SyncSubcommitteeSize P
         in if subnet < length subnets then Ok (subnets[subnet := True]) else Panic)
       (filter (\<lambda>(_, pubkey). pubkey = target_pubkey) (enumerate 0 (sc_pubkeys committee)))
       (replicate SyncCommitteeSubnetCount False)))"

subsection \<open>Attestations\<close>

definition is_eligible_for_activation :: "beacon_state \<Rightarrow> partial_validator \<Rightarrow> bool" where
  "is_eligible_for_activation state validator \<longleftrightarrow>
     pv_activation_eligibility_epoch validator \<le> cp_epoch (finalized_checkpoint state)
     \<and> pv_activation_epoch validator = FAR_FUTURE_EPOCH"

definition get_attestation_participation_flags ::
  "env \<Rightarrow> preset \<Rightarrow> beacon_state \<Rightarrow> attestation_data \<Rightarrow> nat \<Rightarrow> participation_flags res" where
  "get_attestation_participation_flags E P state adata inclusion_delay =
     and_then (attestation_epoch_of P state (cp_epoch (data_target adata))) (\<lambda>epoch.
     let justified_checkpoint =
           (case epoch of
              APrevious \<Rightarrow> previous_justified_checkpoint state
            | ACurrent \<Rightarrow> current_justified_checkpoint state) in
     and_then (get_block_root P state epoch) (\<lambda>expected_target.
     and_then (get_block_root_at_slot P state (data_slot adata)) (\<lambda>expected_head.
     let is_matching_source = (data_source adata = justified_checkpoint);
         is_matching_target =
           (is_matching_source \<and> cp_root (data_target adata) = expected_target);
         is_matching_head =
           (is_matching_target \<and> data_beacon_block_root adata = expected_head) in
     and_then (ensure is_matching_source (Helper HAttestationSourceMismatch)) (\<lambda>_.
     let flags = 0;
         flags =
           (if is_matching_source \<and> inclusion_delay \<le> ev_sqrt E (SlotsPerEpoch P)
            then Bit_Operations.set_bit TIMELY_SOURCE_FLAG_INDEX flags else flags);
         flags =
           (if is_matching_target
            then Bit_Operations.set_bit TIMELY_TARGET_FLAG_INDEX flags else flags);
         flags =
           (if is_matching_head \<and> inclusion_delay \<le> MIN_ATTESTATION_INCLUSION_DELAY P
            then Bit_Operations.set_bit TIMELY_HEAD_FLAG_INDEX flags else flags)
     in Ok flags))))"

text \<open>\<open>merge_join_by\<close> on two iterators, keeping the elements that occur on both sides.\<close>

fun merge_both :: "nat list \<Rightarrow> nat list \<Rightarrow> nat list" where
  "merge_both (a # as) (b # bs) =
     (if a < b then merge_both as (b # bs)
      else if b < a then merge_both (a # as) bs
      else a # merge_both as bs)"
| "merge_both _ _ = []"

definition slashable_indices :: "attester_slashing \<Rightarrow> validator_index list" where
  "slashable_indices slashing =
     merge_both (ia_attesting_indices (as_attestation_1 slashing))
       (ia_attesting_indices (as_attestation_2 slashing))"

record participation =
  part_previous :: participation_flags
  part_current :: participation_flags

definition combined_participation :: "beacon_state \<Rightarrow> participation list res" where
  "combined_participation state =
     (if length (previous_epoch_participation state) = length (current_epoch_participation state)
      then Ok (map (\<lambda>(previous, current). \<lparr> part_previous = previous, part_current = current \<rparr>)
             (zip (previous_epoch_participation state) (current_epoch_participation state)))
      else Panic)"

text \<open>
  The loop over the members of one committee takes one bit per member from the iterator over the
  aggregation bits; a missing bit counts as unset.
\<close>

fun committee_attesters ::
  "validator_index list \<Rightarrow> bool list \<Rightarrow> validator_index list \<Rightarrow> validator_index list \<times> bool list" where
  "committee_attesters [] bits attesters = (attesters, bits)"
| "committee_attesters (v # vs) [] attesters = committee_attesters vs [] attesters"
| "committee_attesters (v # vs) (b # bits) attesters =
     committee_attesters vs bits (if b then attesters @ [v] else attesters)"

text \<open>
  The body of the loop over the committees: the attesters so far, the bits not yet used and the
  number of members seen.
\<close>

fun attesting_step ::
  "env \<Rightarrow> preset \<Rightarrow> beacon_state \<Rightarrow> slot \<Rightarrow> committee_index
    \<Rightarrow> validator_index list \<times> bool list \<times> nat \<Rightarrow> (validator_index list \<times> bool list \<times> nat) res" where
  "attesting_step E P state s index (attesters, bits, committee_offset) =
     and_then (beacon_committee E P state s index) (\<lambda>committee.
     let committee_start = length attesters;
         (attesters, bits) = committee_attesters committee bits attesters in
     and_then (ensure (committee_start < length attesters) (Helper (NoCommitteeAttesters index))) (\<lambda>_.
     and_then (usize_try_add committee_offset (length committee)) (\<lambda>committee_offset.
     Ok (attesters, bits, committee_offset))))"

definition get_attesting_indices ::
  "env \<Rightarrow> preset \<Rightarrow> beacon_state \<Rightarrow> attestation \<Rightarrow> validator_index list res" where
  "get_attesting_indices E P state att =
     and_then (try_fold (attesting_step E P state (data_slot (att_data att)))
       (get_committee_indices (att_committee_bits att))
       ([], att_aggregation_bits att, 0)) (\<lambda>(attesters, _, committee_offset).
     and_then (ensure (committee_offset = length (att_aggregation_bits att))
        (Helper (ParticipantsCountMismatch (length (att_aggregation_bits att)) committee_offset))) (\<lambda>_.
     Ok attesters))"

definition get_indexed_attestation ::
  "env \<Rightarrow> preset \<Rightarrow> beacon_state \<Rightarrow> attestation \<Rightarrow> indexed_attestation res" where
  "get_indexed_attestation E P state att =
     and_then (get_attesting_indices E P state att) (\<lambda>indices.
     and_then (expect_ok (list_try_from_iter (MaxAttestersPerSlot P) (sort indices))) (\<lambda>indices.
     Ok \<lparr> ia_attesting_indices = indices, ia_data = att_data att, ia_signature = att_signature att \<rparr>))"

subsection \<open>Aggregator selection\<close>

definition TargetAggregatorsPerCommittee :: nat where
  "TargetAggregatorsPerCommittee = 16"

definition is_aggregator_from_committee_length :: "env \<Rightarrow> nat \<Rightarrow> signature_bytes \<Rightarrow> bool" where
  "is_aggregator_from_committee_length E committee_length slot_signature =
     (let dividend = from_le_bytes (take 8 (hash_768 (ev_compress E) slot_signature));
          n = committee_length div TargetAggregatorsPerCommittee;
          modulo = (if n = 0 then 1 else n)
      in modulo dvd dividend)"

definition is_aggregator ::
  "env \<Rightarrow> preset \<Rightarrow> beacon_state \<Rightarrow> slot \<Rightarrow> committee_index \<Rightarrow> signature_bytes \<Rightarrow> bool res" where
  "is_aggregator E P state s index slot_signature =
     map_ok (\<lambda>committee. is_aggregator_from_committee_length E (length committee) slot_signature)
       (beacon_committee E P state s index)"

end
