(* ===== verification/Committees.thy ===== *)
theory Committees
  imports Accessors
begin

text \<open>
  Facts about the accessors that select validators: packing of indices, the committees of an
  epoch, attesting indices, proposers and sync committees.
\<close>

lemma concat_slices:
  assumes "\<And>k. k < m \<Longrightarrow> b k \<le> b (Suc k)" "b 0 = 0" "b m \<le> length xs"
  shows "concat (map (\<lambda>k. take (b (Suc k) - b k) (drop (b k) xs)) [0..<m]) = take (b m) xs"
  using assms
proof (induction m)
  case (Suc m)
  have "concat (map (\<lambda>k. take (b (Suc k) - b k) (drop (b k) xs)) [0..<m]) = take (b m) xs"
    using Suc.prems le_trans [OF Suc.prems(1) [of m] Suc.prems(3)] by (intro Suc.IH) simp_all
  moreover have "take (b m) xs @ take (b (Suc m) - b m) (drop (b m) xs) = take (b (Suc m)) xs"
    using Suc.prems(1) [of m] take_add [of "b m" "b (Suc m) - b m" xs] by simp
  ultimately show ?case by simp
qed simp

lemma concat_blocks:
  "concat (map (\<lambda>s. map (\<lambda>i. s * c + i) [0..<c]) [0..<n]) = [0..<n * c]"
proof (induction n)
  case (Suc n)
  have "map (\<lambda>i. n * c + i) [0..<c] = [n * c..<n * c + c]"
    by (rule nth_equalityI) simp_all
  moreover have "[0..<n * c + c] = [0..<n * c] @ [n * c..<n * c + c]"
    by (rule upt_add_eq_append) simp
  ultimately show ?case using Suc by (simp add: add.commute [of c])
qed simp

lemma pack_one_ok: "n < 2 ^ LENGTH('w::len) \<Longrightarrow> pack_one n = Ok (of_nat n :: 'w word)"
  by (simp add: pack_one_def)

lemma try_map_pack_one:
  "\<forall>n \<in> set xs. n < 2 ^ LENGTH('w::len) \<Longrightarrow>
     try_map pack_one xs = Ok (map of_nat xs :: 'w word list)"
  by (induction xs) (auto simp: pack_one_ok)

lemma map_unat_of_nat:
  "\<forall>n \<in> set xs. n < 2 ^ LENGTH('w::len) \<Longrightarrow> map unat (map of_nat xs :: 'w word list) = xs"
  by (induction xs) (auto simp: unat_of_nat take_bit_nat_eq_self)

lemma sorted_le_last:
  assumes "sorted xs" "x \<in> set xs"
  shows "x \<le> last (xs :: nat list)"
  using assms by (induction xs) auto

lemma pack_indices_unpack:
  assumes "sorted xs" "\<forall>n \<in> set xs. n < u64_bound"
  shows "\<exists>p. pack_indices xs = Ok p \<and> unpack_indices p = xs \<and> packed_len p = length xs"
proof -
  define l where "l = (if xs = [] then 0 else last xs)"
  have bounded: "\<forall>n \<in> set xs. n < B" if "l < B" for B
  proof
    fix n
    assume n: "n \<in> set xs"
    then have "n \<le> l" using sorted_le_last [OF assms(1) n] by (auto simp: l_def)
    with that show "n < B" by simp
  qed
  consider "l < 0x100" | "0x100 \<le> l" "l < 0x10000" | "0x10000 \<le> l" "l < 0x100000000"
    | "0x100000000 \<le> l" by linarith
  then show ?thesis
  proof cases
    case 1
    have b: "\<forall>n \<in> set xs. n < 2 ^ LENGTH(8)" using bounded [OF 1] by simp
    have "pack_indices xs = Ok (PackedU8 (map of_nat xs))"
      using 1 by (simp add: pack_indices_def l_def [symmetric] try_map_pack_one [OF b])
    then show ?thesis using map_unat_of_nat [OF b] by (intro exI conjI) (assumption, simp_all del: map_map)
  next
    case 2
    have b: "\<forall>n \<in> set xs. n < 2 ^ LENGTH(16)" using bounded [OF 2(2)] by simp
    have "pack_indices xs = Ok (PackedU16 (map of_nat xs))"
      using 2 by (simp add: pack_indices_def l_def [symmetric] try_map_pack_one [OF b])
    then show ?thesis using map_unat_of_nat [OF b] by (intro exI conjI) (assumption, simp_all del: map_map)
  next
    case 3
    have b: "\<forall>n \<in> set xs. n < 2 ^ LENGTH(32)" using bounded [OF 3(2)] by simp
    have "pack_indices xs = Ok (PackedU32 (map of_nat xs))"
      using 3 by (simp add: pack_indices_def l_def [symmetric] try_map_pack_one [OF b])
    then show ?thesis using map_unat_of_nat [OF b] by (intro exI conjI) (assumption, simp_all del: map_map)
  next
    case 4
    have b: "\<forall>n \<in> set xs. n < 2 ^ LENGTH(64)" using assms(2) by (simp add: u64_bound_def)
    have "pack_indices xs = Ok (PackedU64 (map of_nat xs))"
      using 4 by (simp add: pack_indices_def l_def [symmetric] try_map_pack_one [OF b])
    then show ?thesis using map_unat_of_nat [OF b] by (intro exI conjI) (assumption, simp_all del: map_map)
  qed
qed

lemma shuffle_indices_unpack:
  assumes "packed_len p \<le> 2 ^ 63"
  shows "\<exists>q. shuffle_indices E P p seed = Ok q \<and> mset (unpack_indices q) = mset (unpack_indices p)
    \<and> packed_len q = packed_len p"
proof (cases p)
  case (PackedU8 ws)
  then show ?thesis
    using assms shuffle_slice_ok [of ws "ev_compress E" "ev_get_bit E" "ev_threads E" P seed]
    by (auto simp: mset_map)
next
  case (PackedU16 ws)
  then show ?thesis
    using assms shuffle_slice_ok [of ws "ev_compress E" "ev_get_bit E" "ev_threads E" P seed]
    by (auto simp: mset_map)
next
  case (PackedU32 ws)
  then show ?thesis
    using assms shuffle_slice_ok [of ws "ev_compress E" "ev_get_bit E" "ev_threads E" P seed]
    by (auto simp: mset_map)
next
  case (PackedU64 ws)
  then show ?thesis
    using assms shuffle_slice_ok [of ws "ev_compress E" "ev_get_bit E" "ev_threads E" P seed]
    by (auto simp: mset_map)
qed

lemma packed_len_unpack: "packed_len p = length (unpack_indices p)"
  by (cases p) simp_all

lemma filter_filter_conj: "filter f (filter g xs) = filter (\<lambda>x. f x \<and> g x) xs"
  by (induction xs) auto

lemma active_indices_sorted:
  "sorted (get_filtered_active_validator_indices_by_epoch state e keep)"
  "distinct (get_filtered_active_validator_indices_by_epoch state e keep)"
proof -
  let ?xs = "enumerate 0 (vl_partial_validators (validators state))"
  have "sorted (map fst ?xs)" "distinct (map fst ?xs)" by (simp_all del: enumerate_map_upt)
  then show "sorted (get_filtered_active_validator_indices_by_epoch state e keep)"
    "distinct (get_filtered_active_validator_indices_by_epoch state e keep)"
    unfolding get_filtered_active_validator_indices_by_epoch_def
    by (simp_all only: sorted_filter distinct_map_filter)
qed

lemma active_indices_set:
  "set (get_filtered_active_validator_indices_by_epoch state e keep) =
     {i. i < length (vl_partial_validators (validators state))
       \<and> is_active_validator (vl_partial_validators (validators state) ! i) e
       \<and> keep (vl_partial_validators (validators state) ! i)}"
  by (auto simp: get_filtered_active_validator_indices_by_epoch_def in_set_enumerate_eq image_iff
      intro!: rev_bexI)

lemma active_indices_length:
  "length (get_filtered_active_validator_indices_by_epoch state e keep)
     \<le> length (vl_partial_validators (validators state))"
  unfolding get_filtered_active_validator_indices_by_epoch_def
  by (simp add: order_trans [OF length_filter_le])

lemma relative_epoch_absolute:
  assumes "relative_epoch_of P state e = Ok rel"
  shows "absolute_epoch P state rel = Ok e"
  using assms
  by (auto simp: relative_epoch_of_def absolute_epoch_def get_next_epoch_def get_previous_epoch_def
      previous_epoch_def checked_sub_def res_simps try_sub_def ok_or_def GENESIS_EPOCH_def
      split: if_splits option.splits)

lemma mod_index_eq: "length xs = N \<Longrightarrow> 0 < N \<Longrightarrow> mod_index N xs i = Ok (xs ! (i mod N))"
  by (simp add: mod_index_def list_get_def validate_index_def not_le)

lemma epoch_window:
  assumes "relative_epoch_of P state e = Ok rel"
  shows "e \<le> get_current_epoch P state + 1"
  using relative_epoch_absolute [OF assms]
  by (auto simp: absolute_epoch_def get_next_epoch_def get_previous_epoch_def previous_epoch_def
      GENESIS_EPOCH_def try_sub_def ok_or_def checked_sub_def res_simps split: relative_epoch.splits)

lemma current_epoch_le_slot: "get_current_epoch P state \<le> slot state"
  by (simp add: get_current_epoch_def compute_epoch_at_slot_def)

lemma epoch_of_slot:
  "r < SlotsPerEpoch P \<Longrightarrow> compute_epoch_at_slot P (e * SlotsPerEpoch P + r) = e"
  by (simp add: compute_epoch_at_slot_def)

lemma slots_since_epoch_start_eq:
  assumes "r < SlotsPerEpoch P" "e * SlotsPerEpoch P < u64_bound"
  shows "slots_since_epoch_start P (e * SlotsPerEpoch P + r) = Ok r"
proof -
  have "min (e * SlotsPerEpoch P) u64_max = e * SlotsPerEpoch P"
    using assms(2) by (simp add: u64_bound_def)
  then show ?thesis
    using assms(1)
    by (simp add: slots_since_epoch_start_def epoch_of_slot compute_start_slot_at_epoch_def
        saturating_mul_def try_sub_def checked_sub_def expect_ok_def ok_or_def)
qed

lemma vec_slice_ok:
  "a \<le> b \<Longrightarrow> b \<le> length xs \<Longrightarrow> vec_slice xs a b = Ok (take (b - a) (drop a xs))"
  by (simp add: vec_slice_def)

lemma committee_count_bounds:
  "committee_count_from_active_validator_count P n \<le> MaxCommitteesPerSlot P"
  "0 < MaxCommitteesPerSlot P \<Longrightarrow> 0 < committee_count_from_active_validator_count P n"
  by (simp_all add: committee_count_from_active_validator_count_def)

context preset_laws
begin

lemma get_seed_by_epoch_ok:
  assumes "vector_sizes P state" "e < 2 ^ 63"
  shows "\<exists>seed. get_seed_by_epoch E P state e d = Ok seed"
  using assms historical_vector historical_vector_small seed_lookahead_small
  by (auto simp: get_seed_by_epoch_def try_add_def try_sub_def checked_add_def checked_sub_def ok_or_def
      u64_bound_def get_randao_mix_def mod_index_eq vector_sizes_def)

lemma shuffled_ok:
  assumes "relative_epoch_of P state e = Ok rel" "state_wf P state" "slot state < 2 ^ 62"
    "vl_len (validators state) \<le> 2 ^ 40"
  defines "active \<equiv> get_active_validator_indices_by_epoch state e"
  shows "\<exists>q. active_validator_indices_shuffled E P state rel = Ok q
    \<and> mset (unpack_indices q) = mset active \<and> packed_len q = length active"
    and "active_validator_count P state rel = Ok (length active)"
proof -
  have len: "length (vl_partial_validators (validators state)) \<le> 2 ^ 40"
    using assms(2,4) by (simp add: state_wf_def raw_wf_def vl_partial_validators_def vl_len_def)
  have "\<forall>n \<in> set active. n < u64_bound"
    using len by (auto simp: active_def get_active_validator_indices_by_epoch_def active_indices_set
        u64_bound_def)
  then obtain p where p: "pack_indices active = Ok p" "unpack_indices p = active" "packed_len p = length active"
    using pack_indices_unpack [of active] active_indices_sorted(1)
    by (auto simp: active_def get_active_validator_indices_by_epoch_def)
  have ordered: "active_validator_indices_ordered P state rel = Ok p"
    using relative_epoch_absolute [OF assms(1)] p(1)
    by (simp add: active_validator_indices_ordered_def get_active_validator_indices_def active_def)
  then show "active_validator_count P state rel = Ok (length active)"
    using p(3) by (simp add: active_validator_count_def)
  have "e < 2 ^ 63"
    using epoch_window [OF assms(1)] current_epoch_le_slot [of P state] assms(3) by simp
  then obtain seed where seed: "get_seed E P state rel DOMAIN_BEACON_ATTESTER = Ok seed"
    using get_seed_by_epoch_ok assms(2) relative_epoch_absolute [OF assms(1)]
    by (fastforce simp: get_seed_def state_wf_def)
  have "length active \<le> 2 ^ 63"
    using active_indices_length [of state e "\<lambda>_. True"] len
    by (simp add: active_def get_active_validator_indices_by_epoch_def)
  then show "\<exists>q. active_validator_indices_shuffled E P state rel = Ok q
    \<and> mset (unpack_indices q) = mset active \<and> packed_len q = length active"
    using shuffle_indices_unpack [of p E P seed] ordered seed p
    by (auto simp: active_validator_indices_shuffled_def)
qed

lemma committee_arith:
  assumes "n \<le> 2 ^ 40" "c \<le> MaxCommitteesPerSlot P" "k < c * SlotsPerEpoch P"
  shows "n * (k + 1) < u64_bound" "c * SlotsPerEpoch P < u64_bound"
proof -
  have "c * SlotsPerEpoch P \<le> 255 * 65535"
    using assms(2) committees_small slots_per_epoch_small by (intro mult_le_mono) auto
  moreover from this have "n * (k + 1) \<le> 2 ^ 40 * (255 * 65535)"
    using assms(1,3) by (intro mult_le_mono) auto
  ultimately show "n * (k + 1) < u64_bound" "c * SlotsPerEpoch P < u64_bound"
    by (auto simp: u64_bound_def)
qed

lemma beacon_committee_ok:
  assumes rel: "relative_epoch_of P state e = Ok rel" and wf: "state_wf P state" "slot state < 2 ^ 62"
    "vl_len (validators state) \<le> 2 ^ 40"
    and small: "e * SlotsPerEpoch P < u64_bound"
  defines "active \<equiv> get_active_validator_indices_by_epoch state e"
  defines "c \<equiv> committee_count_from_active_validator_count P (length active)"
  assumes r: "r < SlotsPerEpoch P" and i: "i < c"
    and q: "active_validator_indices_shuffled E P state rel = Ok q" "packed_len q = length active"
  defines "b \<equiv> \<lambda>k. length active * k div (c * SlotsPerEpoch P)"
  shows "beacon_committee E P state (e * SlotsPerEpoch P + r) i =
    Ok (take (b (Suc (r * c + i)) - b (r * c + i)) (drop (b (r * c + i)) (unpack_indices q)))"
proof -
  let ?k = "r * c + i"
  have c: "0 < c" "c \<le> MaxCommitteesPerSlot P"
    using committee_count_bounds committees_pos by (simp_all add: c_def)
  have "length active \<le> 2 ^ 40"
    using active_indices_length [of state e "\<lambda>_. True"] wf
    by (simp add: active_def get_active_validator_indices_by_epoch_def state_wf_def raw_wf_def
        vl_partial_validators_def vl_len_def)
  moreover have "Suc r * c \<le> SlotsPerEpoch P * c" using r by (intro mult_le_mono) auto
  then have k: "?k < c * SlotsPerEpoch P" using i by (simp add: mult.commute)
  ultimately have bounds: "length active * (?k + 1) < u64_bound" "c * SlotsPerEpoch P < u64_bound"
    using committee_arith c(2) by blast+
  then have small': "length active * ?k < u64_bound" "?k + 1 < u64_bound" "r * c < u64_bound"
    using k by auto
  have "b ?k \<le> b (Suc ?k)" unfolding b_def by (intro div_le_mono mult_le_mono) auto
  moreover have "b (Suc ?k) \<le> length active * (c * SlotsPerEpoch P) div (c * SlotsPerEpoch P)"
    using k unfolding b_def by (intro div_le_mono mult_le_mono) auto
  then have "b (Suc ?k) \<le> length active" using c(1) slots_per_epoch_pos by simp
  ultimately have "vec_slice (unpack_indices q) (b ?k) (b (Suc ?k)) =
      Ok (take (b (Suc ?k) - b ?k) (drop (b ?k) (unpack_indices q)))"
    using q(2) by (intro vec_slice_ok) (simp_all add: packed_len_unpack)
  then show ?thesis
    using bounds small' k rel q i c(1) slots_per_epoch_pos
      shuffled_ok(2) [OF rel wf, folded active_def] slots_since_epoch_start_eq [OF r small]
    by (simp add: beacon_committee_def epoch_of_slot [OF r] get_committee_count_per_slot_def
        c_def [symmetric] try_mul_def try_add_def checked_mul_def checked_add_def checked_div_def ok_or_def
        b_def Let_def)
qed

end

lemma try_map_eq_map: "(\<And>x. x \<in> set xs \<Longrightarrow> f x = Ok (g x)) \<Longrightarrow> try_map f xs = Ok (map g xs)"
  by (induction xs) auto

lemma try_map_map: "try_map f (map g xs) = try_map (\<lambda>x. f (g x)) xs"
  by (induction xs) auto

lemma saturating_mul_exact: "a * b < u64_bound \<Longrightarrow> saturating_mul a b = a * b"
  by (simp add: saturating_mul_def u64_bound_def)

lemma mset_concat_distinct_subset:
  assumes "distinct ks" "set ks \<subseteq> {..<m}"
  shows "mset (concat (map f ks)) \<subseteq># mset (concat (map f [0..<m]))"
proof -
  have "mset (concat (map f xs)) = (\<Sum>k\<in>set xs. mset (f k))" if "distinct xs" for xs :: "nat list"
    using that by (induction xs) auto
  moreover have "(\<Sum>k\<in>{..<m}. mset (f k)) = (\<Sum>k\<in>{..<m} - set ks. mset (f k)) + (\<Sum>k\<in>set ks. mset (f k))"
    using assms(2) by (intro sum.subset_diff) auto
  ultimately show ?thesis using assms(1) by (simp add: atLeast0LessThan)
qed

lemma distinct_sub_mset:
  assumes "mset xs \<subseteq># mset ys" "distinct ys"
  shows "distinct xs"
proof -
  have "count (mset xs) x \<le> 1" for x
    using mset_subset_eq_count [OF assms(1), of x] assms(2)
    by (metis distinct_count_atmost_1 le_trans le_numeral_extra(4) not_one_le_zero nle_le)
  then show ?thesis
    by (metis count_eq_zero_iff distinct_count_atmost_1 le_neq_implies_less less_one set_mset_mset)
qed

lemma committee_attesters_eq:
  "committee_attesters vs bits acc = (acc @ map fst (filter snd (zip vs bits)), drop (length vs) bits)"
  by (induction vs bits acc rule: committee_attesters.induct) auto

context preset_laws
begin

lemma slot_epoch_small:
  assumes "relative_epoch_of P state e = Ok rel" "slot state < 2 ^ 62"
  shows "e * SlotsPerEpoch P < 2 ^ 63" "(e + 1) * SlotsPerEpoch P < 2 ^ 63"
proof -
  have "get_current_epoch P state * SlotsPerEpoch P \<le> slot state"
    by (simp add: get_current_epoch_def compute_epoch_at_slot_def)
  moreover have "(e + 1) * SlotsPerEpoch P \<le> (get_current_epoch P state + 2) * SlotsPerEpoch P"
    using epoch_window [OF assms(1)] by (intro mult_le_mono) auto
  ultimately show "(e + 1) * SlotsPerEpoch P < 2 ^ 63"
    using assms(2) slots_per_epoch_small by (simp add: algebra_simps)
  then show "e * SlotsPerEpoch P < 2 ^ 63" by simp
qed

text \<open>The committees of an epoch are consecutive parts of the shuffled list of active validators.\<close>

lemma epoch_committees:
  assumes rel: "relative_epoch_of P state e = Ok rel" and wf: "state_wf P state" "slot state < 2 ^ 62"
    "vl_len (validators state) \<le> 2 ^ 40"
    and c_def: "c = committee_count_from_active_validator_count P
      (length (get_active_validator_indices_by_epoch state e))"
  obtains part q where "mset (unpack_indices q) = mset (get_active_validator_indices_by_epoch state e)"
    and "\<And>r i. r < SlotsPerEpoch P \<Longrightarrow> i < c \<Longrightarrow>
      beacon_committee E P state (e * SlotsPerEpoch P + r) i = Ok (part (r * c + i))"
    and "concat (map part [0..<SlotsPerEpoch P * c]) = unpack_indices q"
    and "get_committee_count_per_slot P state rel = Ok c"
proof -
  define active where "active = get_active_validator_indices_by_epoch state e"
  note c_def = c_def [folded active_def]
  obtain q where q: "active_validator_indices_shuffled E P state rel = Ok q"
    "mset (unpack_indices q) = mset active" "packed_len q = length active"
    using shuffled_ok(1) [OF rel wf] by (auto simp: active_def)
  let ?b = "\<lambda>k. length active * k div (c * SlotsPerEpoch P)"
  let ?part = "\<lambda>k. take (?b (Suc k) - ?b k) (drop (?b k) (unpack_indices q))"
  have c: "0 < c" using committee_count_bounds committees_pos by (simp add: c_def)
  have all: "length active * (SlotsPerEpoch P * c) div (c * SlotsPerEpoch P) = length active"
    using c slots_per_epoch_pos by (simp add: mult.commute [of c])
  have "concat (map ?part [0..<SlotsPerEpoch P * c]) = take (?b (SlotsPerEpoch P * c)) (unpack_indices q)"
    using q(3) all by (intro concat_slices) (simp_all add: packed_len_unpack div_le_mono)
  then have parts: "concat (map ?part [0..<SlotsPerEpoch P * c]) = unpack_indices q"
    using q(3) all by (simp add: packed_len_unpack)
  have "e * SlotsPerEpoch P < u64_bound"
    using slot_epoch_small(1) [OF rel wf(2)] by (simp add: u64_bound_def)
  then have committee: "beacon_committee E P state (e * SlotsPerEpoch P + r) i = Ok (?part (r * c + i))"
    if "r < SlotsPerEpoch P" "i < c" for r i
    using beacon_committee_ok [OF rel wf, folded active_def, folded c_def, OF _ that q(1,3)] by blast
  moreover have "get_committee_count_per_slot P state rel = Ok c"
    using shuffled_ok(2) [OF rel wf] by (simp add: get_committee_count_per_slot_def c_def active_def)
  ultimately show ?thesis using parts q(2) by (intro that [of q ?part]) (simp_all add: active_def)
qed

lemma beacon_committees_epoch:
  assumes rel: "relative_epoch_of P state e = Ok rel" and wf: "state_wf P state" "slot state < 2 ^ 62"
    "vl_len (validators state) \<le> 2 ^ 40"
  shows "\<exists>slots committees. slots_in_epoch P e = Ok slots
    \<and> try_map (beacon_committees E P state) slots = Ok committees
    \<and> mset (concat (concat committees)) = mset (get_active_validator_indices_by_epoch state e)"
proof -
  define c where "c = committee_count_from_active_validator_count P
      (length (get_active_validator_indices_by_epoch state e))"
  obtain part q
    where mset: "mset (unpack_indices q) = mset (get_active_validator_indices_by_epoch state e)"
    and part: "\<And>r i. r < SlotsPerEpoch P \<Longrightarrow> i < c \<Longrightarrow>
      beacon_committee E P state (e * SlotsPerEpoch P + r) i = Ok (part (r * c + i))"
    and all: "concat (map part [0..<SlotsPerEpoch P * c]) = unpack_indices q"
    and count: "get_committee_count_per_slot P state rel = Ok c"
    by (rule epoch_committees [OF rel wf c_def, of E]) (rule that)
  let ?slots = "map (\<lambda>r. e * SlotsPerEpoch P + r) [0..<SlotsPerEpoch P]"
  have small: "e * SlotsPerEpoch P < u64_bound" "(e + 1) * SlotsPerEpoch P < u64_bound" "e + 1 < u64_bound"
    using slot_epoch_small [OF rel wf(2)] epoch_window [OF rel] current_epoch_le_slot [of P state] wf(2)
    by (auto simp: u64_bound_def)
  have "?slots = [e * SlotsPerEpoch P..<(e + 1) * SlotsPerEpoch P]"
    by (rule nth_equalityI) simp_all
  then have slots: "slots_in_epoch P e = Ok ?slots"
    using small by (simp add: slots_in_epoch_def try_add_def checked_add_def ok_or_def
        compute_start_slot_at_epoch_def saturating_mul_exact)
  have "beacon_committees E P state (e * SlotsPerEpoch P + r) =
      Ok (map (\<lambda>i. part (r * c + i)) [0..<c])" if "r < SlotsPerEpoch P" for r
    using that rel count part
    by (simp add: beacon_committees_def epoch_of_slot, intro try_map_eq_map) (simp add: expect_ok_def)
  then have "try_map (beacon_committees E P state) ?slots =
      Ok (map (\<lambda>r. map (\<lambda>i. part (r * c + i)) [0..<c]) [0..<SlotsPerEpoch P])"
    unfolding try_map_map by (intro try_map_eq_map) simp
  moreover have "concat (concat (map (\<lambda>r. map (\<lambda>i. part (r * c + i)) [0..<c]) [0..<SlotsPerEpoch P])) =
      concat (map part (concat (map (\<lambda>r. map (\<lambda>i. r * c + i) [0..<c]) [0..<SlotsPerEpoch P])))"
    by (simp add: map_concat comp_def)
  ultimately show ?thesis using slots mset all by (simp add: concat_blocks)
qed

end

lemma mset_map_fst_filter_zip: "mset (map fst (filter snd (zip vs bits))) \<subseteq># mset vs"
proof -
  have "mset (map fst (filter snd (zip vs bits))) \<subseteq># mset (map fst (zip vs bits))"
    by (simp add: image_mset_subseteq_mono)
  also have "\<dots> \<subseteq># mset vs"
    unfolding map_fst_zip_take by (metis append_take_drop_id mset_append mset_subset_eq_add_left)
  finally show ?thesis .
qed

lemma attesting_step_Ok:
  "attesting_step E P state s k (acc, bits, off) = Ok (acc', bits', off') \<longleftrightarrow>
     (\<exists>committee. beacon_committee E P state s k = Ok committee
        \<and> acc' = acc @ map fst (filter snd (zip committee bits)) \<and> length acc < length acc'
        \<and> bits' = drop (length committee) bits
        \<and> off' = off + length committee \<and> off' < u64_bound)"
  by (auto simp: committee_attesters_eq Let_def res_simps)

lemma attesting_fold:
  assumes "\<And>i committee. i \<in> set ks \<Longrightarrow> beacon_committee E P state s i = Ok committee \<Longrightarrow> committee = cs i"
    and "try_fold (attesting_step E P state s) ks (acc, bits, off) = Ok (acc', bits', off')"
  shows "mset acc' \<subseteq># mset acc + mset (concat (map cs ks)) \<and> off' = off + length (concat (map cs ks))
    \<and> (\<forall>k \<in> set ks. beacon_committee E P state s k = Ok (cs k))"
  using assms
proof (induction ks arbitrary: acc bits off)
  case (Cons k ks)
  then obtain acc1 bits1 off1 where step: "attesting_step E P state s k (acc, bits, off) = Ok (acc1, bits1, off1)"
    and rest: "try_fold (attesting_step E P state s) ks (acc1, bits1, off1) = Ok (acc', bits', off')"
    by (auto simp: and_then_eq_Ok simp del: attesting_step.simps)
  have acc1: "acc1 = acc @ map fst (filter snd (zip (cs k) bits))" "off1 = off + length (cs k)"
    "beacon_committee E P state s k = Ok (cs k)"
    using step Cons.prems(1) [of k] unfolding attesting_step_Ok by auto
  have "mset acc' \<subseteq># mset acc1 + mset (concat (map cs ks)) \<and> off' = off1 + length (concat (map cs ks))
      \<and> (\<forall>k \<in> set ks. beacon_committee E P state s k = Ok (cs k))"
    using Cons.prems(1) by (intro Cons.IH [OF _ rest]) simp
  moreover have "mset acc1 + mset (concat (map cs ks)) \<subseteq># mset acc + mset (concat (map cs (k # ks)))"
    using mset_map_fst_filter_zip [of "cs k" bits] by (simp add: acc1(1))
  ultimately show ?case by (auto simp: acc1(2,3) intro: subset_mset.order_trans)
qed simp

lemma committee_indices_distinct: "distinct (get_committee_indices bits)"
  unfolding get_committee_indices_def by (intro distinct_map_filter) (simp del: enumerate_map_upt)

lemma nth_rs_set: "nth_rs xs i = Ok x \<Longrightarrow> x \<in> set xs"
  by (auto simp: res_simps)

lemma selection_candidate_in:
  "selection_candidate E P state indices seed attempt = Ok (candidate, accepted) \<Longrightarrow> candidate \<in> set indices"
  by (auto simp: selection_candidate_def res_simps Let_def)

lemma proposer_loop_in: "proposer_loop E P state indices seed attempt = Ok i \<Longrightarrow> i \<in> set indices"
proof (induction E P state indices seed attempt rule: proposer_loop.induct)
  case (1 E P state indices seed attempt)
  then show ?case
    by (subst (asm) (2) proposer_loop.simps)
      (auto simp: res_simps dest: selection_candidate_in split: if_splits)
qed

lemma sync_committee_loop_in:
  "sync_committee_loop E P state indices seed attempt selected = Ok xs \<Longrightarrow> set selected \<subseteq> set indices
   \<Longrightarrow> set xs \<subseteq> set indices"
proof (induction "SELECTION_ATTEMPTS - attempt" arbitrary: attempt selected rule: less_induct)
  case less
  show ?case
  proof (cases "SELECTION_ATTEMPTS \<le> attempt")
    case True
    then show ?thesis using less.prems by (simp add: sync_committee_loop.simps)
  next
    case False
    then have step: "SELECTION_ATTEMPTS - (attempt + 1) < SELECTION_ATTEMPTS - attempt" by simp
    obtain candidate accepted
      where c: "selection_candidate E P state indices seed attempt = Ok (candidate, accepted)"
      using less.prems(1) False by (subst (asm) sync_committee_loop.simps) (auto simp: res_simps)
    then show ?thesis
      using less.prems False less.hyps [OF step, of selected] less.hyps [OF step, of "selected @ [candidate]"]
        selection_candidate_in [OF c]
      by (subst (asm) sync_committee_loop.simps) (auto simp: Let_def split: if_splits)
  qed
qed

lemma beacon_committee_index:
  assumes "beacon_committee E P state s i = Ok committee"
  obtains rel c where "relative_epoch_of P state (compute_epoch_at_slot P s) = Ok rel"
    "get_committee_count_per_slot P state rel = Ok c" "i < c"
  using assms by (auto simp: beacon_committee_def res_simps)

context preset_laws
begin

lemma attesting_indices_distinct:
  assumes wf: "state_wf P state" "slot state < 2 ^ 62" "vl_len (validators state) \<le> 2 ^ 40"
    and ok: "get_attesting_indices E P state att = Ok xs"
  defines "e \<equiv> compute_epoch_at_slot P (data_slot (att_data att))"
  shows "distinct xs \<and> set xs \<subseteq> set (get_active_validator_indices_by_epoch state e)"
proof -
  let ?s = "data_slot (att_data att)" and ?ks = "get_committee_indices (att_committee_bits att)"
  obtain bits off where fold: "try_fold (attesting_step E P state ?s) ?ks
      ([], att_aggregation_bits att, 0) = Ok (xs, bits, off)"
    using ok by (auto simp: get_attesting_indices_def res_simps)
  let ?cs = "\<lambda>i. THE committee. beacon_committee E P state ?s i = Ok committee"
  have ks: "mset xs \<subseteq># mset (concat (map ?cs ?ks))"
    "\<forall>k \<in> set ?ks. beacon_committee E P state ?s k = Ok (?cs k)"
    using attesting_fold [OF _ fold, of ?cs] by auto
  show ?thesis
  proof (cases ?ks)
    case Nil
    with ks(1) show ?thesis by simp
  next
    case (Cons k0 ks')
    then obtain rel where rel: "relative_epoch_of P state e = Ok rel"
      using ks(2) beacon_committee_index [of E P state ?s k0 "?cs k0"] by (auto simp: e_def)
    define c where "c = committee_count_from_active_validator_count P
        (length (get_active_validator_indices_by_epoch state e))"
    obtain part q
      where q: "mset (unpack_indices q) = mset (get_active_validator_indices_by_epoch state e)"
      and part: "\<And>r i. r < SlotsPerEpoch P \<Longrightarrow> i < c \<Longrightarrow>
        beacon_committee E P state (e * SlotsPerEpoch P + r) i = Ok (part (r * c + i))"
      and all: "concat (map part [0..<SlotsPerEpoch P * c]) = unpack_indices q"
      and count: "get_committee_count_per_slot P state rel = Ok c"
      by (rule epoch_committees [OF rel wf c_def, of E]) (rule that)
    define r where "r = ?s mod SlotsPerEpoch P"
    have s: "?s = e * SlotsPerEpoch P + r" and r: "r < SlotsPerEpoch P"
      using slots_per_epoch_pos by (simp_all add: e_def r_def compute_epoch_at_slot_def)
    have less: "k < c" if "k \<in> set ?ks" for k
      using ks(2) that rel count beacon_committee_index [of E P state ?s k "?cs k"]
      by (metis e_def result.inject(1))
    then have "\<forall>k \<in> set ?ks. ?cs k = part (r * c + k)" using part [OF r] by (simp add: s)
    then have "map ?cs ?ks = map part (map (\<lambda>k. r * c + k) ?ks)" by simp
    moreover have "r * c + k < SlotsPerEpoch P * c" if "k < c" for k
      using that r by (metis add.commute mult_Suc le_less_trans less_eq_Suc_le mult_le_mono1 nat_add_left_cancel_less not_le)
    then have "mset (concat (map part (map (\<lambda>k. r * c + k) ?ks))) \<subseteq># mset (concat (map part [0..<SlotsPerEpoch P * c]))"
      using less by (intro mset_concat_distinct_subset) (auto simp: distinct_map committee_indices_distinct)
    ultimately have sub: "mset xs \<subseteq># mset (get_active_validator_indices_by_epoch state e)"
      using ks(1) all q by (metis subset_mset.order_trans)
    then have "set xs \<subseteq> set (get_active_validator_indices_by_epoch state e)"
      by (metis set_mset_mono set_mset_mset)
    with sub show ?thesis
      using distinct_sub_mset active_indices_sorted(2)
      by (metis get_active_validator_indices_by_epoch_def)
  qed
qed

end

lemma from_le_bytes_bound: "from_le_bytes bs < 256 ^ length bs"
proof (induction bs)
  case (Cons b bs)
  have "unat b < 256" using unsigned_less [of b] by simp
  with Cons show ?case by (simp add: from_le_bytes_def)
qed (simp add: from_le_bytes_def)

lemma random_value_bound: "random_value compress seed attempt \<le> 65535"
proof -
  let ?bs = "take 2 (drop (2 * (attempt mod 16)) (hash_256_64 compress seed (attempt div 16)))"
  have "256 ^ length ?bs \<le> (256 :: nat) ^ 2" by (intro power_increasing) auto
  with from_le_bytes_bound [of ?bs] show ?thesis by (simp add: random_value_def)
qed

lemma shuffle_single_ok:
  assumes "i < n" "n \<le> 2 ^ 63"
  shows "\<exists>j < n. shuffle_single compress get_bit P i n seed = Ok j"
  using assms fold_single_less [OF assms] by (auto simp: shuffle_single_def assert_rs_def)

text \<open>The effective balances are at most the maximum.\<close>

definition balances_capped :: "preset \<Rightarrow> beacon_state \<Rightarrow> bool" where
  "balances_capped P state \<longleftrightarrow>
     list_all (\<lambda>b. b \<le> MAX_EFFECTIVE_BALANCE_ELECTRA P) (vl_effective_balances (validators state))"

context preset_laws
begin

lemma selection_candidate_ok:
  assumes "state_wf P state" "balances_capped P state" "indices \<noteq> []" "length indices \<le> 2 ^ 63"
    and "\<forall>i \<in> set indices. i < vl_len (validators state)"
  shows "\<exists>candidate \<in> set indices. \<exists>accepted.
    selection_candidate E P state indices seed attempt = Ok (candidate, accepted)
    \<and> (vl_effective_balances (validators state) ! candidate = MAX_EFFECTIVE_BALANCE_ELECTRA P \<longrightarrow> accepted)"
proof -
  obtain j where j: "j < length indices"
    "compute_shuffled_index E P (attempt mod length indices) (length indices) seed = Ok j"
    using shuffle_single_ok [of "attempt mod length indices" "length indices" "ev_compress E" "ev_get_bit E" P seed]
      assms(3,4)
    by (auto simp: compute_shuffled_index_def)
  let ?c = "indices ! j" and ?b = "vl_effective_balances (validators state) ! (indices ! j)"
  have c: "?c \<in> set indices" using j(1) by simp
  then have "?c < vl_len (validators state)" using assms(5) by blast
  then have b: "vl_effective_balance (validators state) ?c = Ok ?b" "?b \<le> MAX_EFFECTIVE_BALANCE_ELECTRA P"
    using assms(1,2)
    by (auto simp: vl_effective_balance_def raw_effective_balance_def raw_validate_index_def vl_len_def
        state_wf_def raw_wf_def vl_effective_balances_def balances_capped_def list_all_length)
  have small: "x * y < u64_bound" if "x \<le> MAX_EFFECTIVE_BALANCE_ELECTRA P" "y \<le> 65535" for x y
  proof -
    have "x * y \<le> (2 ^ 48 - 1) * 65535"
      using that max_effective_small by (intro mult_le_mono) auto
    then show ?thesis by (simp add: u64_bound_def)
  qed
  have "selection_candidate E P state indices seed attempt =
      Ok (?c, MAX_EFFECTIVE_BALANCE_ELECTRA P * random_value (ev_compress E) seed attempt \<le> ?b * 65535)"
    using j b small [OF b(2), of 65535] small [OF _ random_value_bound, of "MAX_EFFECTIVE_BALANCE_ELECTRA P"]
    by (simp add: selection_candidate_def Let_def expect_ok_def try_mul_def checked_mul_def ok_or_def)
  then show ?thesis using c random_value_bound by (auto intro!: bexI [of _ ?c] mult_le_mono)
qed

lemma proposer_loop_safe:
  assumes "state_wf P state" "balances_capped P state" "indices \<noteq> []" "length indices \<le> 2 ^ 63"
    and "\<forall>i \<in> set indices. i < vl_len (validators state)"
  shows "(\<exists>i \<in> set indices. proposer_loop E P state indices seed attempt = Ok i)
    \<or> proposer_loop E P state indices seed attempt = Err (Helper FailedToSelectProposer)"
proof (induction "SELECTION_ATTEMPTS - attempt" arbitrary: attempt rule: less_induct)
  case less
  show ?case
  proof (cases "SELECTION_ATTEMPTS \<le> attempt")
    case True
    then show ?thesis by (simp add: proposer_loop.simps)
  next
    case False
    then have step: "SELECTION_ATTEMPTS - (attempt + 1) < SELECTION_ATTEMPTS - attempt" by simp
    obtain candidate accepted where c: "candidate \<in> set indices"
      "selection_candidate E P state indices seed attempt = Ok (candidate, accepted)"
      using selection_candidate_ok [OF assms] by blast
    then have "proposer_loop E P state indices seed attempt =
        (if accepted then Ok candidate else proposer_loop E P state indices seed (attempt + 1))"
      using False by (subst proposer_loop.simps) simp
    then show ?thesis using less.hyps [OF step] c(1) by auto
  qed
qed

end

lemma relative_epoch_current:
  assumes "slot state < 2 ^ 62"
  shows "relative_epoch_of P state (get_current_epoch P state) = Ok RCurrent"
  using assms current_epoch_le_slot [of P state]
  by (simp add: relative_epoch_of_def get_next_epoch_def try_add_def checked_add_def checked_sub_def ok_or_def
      u64_bound_def)

lemma ordered_ok:
  assumes "relative_epoch_of P state e = Ok rel" "state_wf P state" "vl_len (validators state) \<le> 2 ^ 40"
  obtains p where "active_validator_indices_ordered P state rel = Ok p"
    "unpack_indices p = get_active_validator_indices_by_epoch state e"
    "length (unpack_indices p) \<le> 2 ^ 40" "\<forall>i \<in> set (unpack_indices p). i < vl_len (validators state)"
proof -
  let ?active = "get_active_validator_indices_by_epoch state e"
  have len: "length (vl_partial_validators (validators state)) = vl_len (validators state)"
    using assms(2) by (simp add: state_wf_def raw_wf_def vl_partial_validators_def vl_len_def)
  have less: "\<forall>n \<in> set ?active. n < vl_len (validators state)"
    using len by (auto simp: get_active_validator_indices_by_epoch_def active_indices_set)
  then have "\<forall>n \<in> set ?active. n < u64_bound" using assms(3) by (auto simp: u64_bound_def)
  then obtain p where p: "pack_indices ?active = Ok p" "unpack_indices p = ?active"
    using pack_indices_unpack [of ?active] active_indices_sorted(1)
    by (auto simp: get_active_validator_indices_by_epoch_def)
  moreover have "length ?active \<le> 2 ^ 40"
    using active_indices_length [of state e "\<lambda>_. True"] len assms(3)
    by (simp add: get_active_validator_indices_by_epoch_def)
  moreover have "active_validator_indices_ordered P state rel = Ok p"
    using relative_epoch_absolute [OF assms(1)] p(1)
    by (simp add: active_validator_indices_ordered_def get_active_validator_indices_def)
  ultimately show ?thesis using less by (intro that [of p]) simp_all
qed

context preset_laws
begin

lemma proposer_index_safe:
  assumes wf: "state_wf P state" "slot state < 2 ^ 62" "vl_len (validators state) \<le> 2 ^ 40"
    and capped: "balances_capped P state"
    and nonempty: "get_active_validator_indices_by_epoch state (get_current_epoch P state) \<noteq> []"
  shows "(\<exists>i \<in> set (get_active_validator_indices_by_epoch state (get_current_epoch P state)).
      get_beacon_proposer_index E P state = Ok i)
    \<or> get_beacon_proposer_index E P state = Err (Helper FailedToSelectProposer)"
proof -
  note rel = relative_epoch_current [OF wf(2), of P]
  obtain p where p: "active_validator_indices_ordered P state RCurrent = Ok p"
    "unpack_indices p = get_active_validator_indices_by_epoch state (get_current_epoch P state)"
    "length (unpack_indices p) \<le> 2 ^ 40" "\<forall>i \<in> set (unpack_indices p). i < vl_len (validators state)"
    by (rule ordered_ok [OF rel wf(1,3)])
  have "get_current_epoch P state < 2 ^ 63" using current_epoch_le_slot [of P state] wf(2) by simp
  then obtain seed where seed: "get_seed E P state RCurrent DOMAIN_BEACON_PROPOSER = Ok seed"
    using get_seed_by_epoch_ok wf(1) by (fastforce simp: get_seed_def absolute_epoch_def state_wf_def)
  let ?seed = "hash_256_64 (ev_compress E) seed (slot state)"
  have "get_beacon_proposer_index E P state = proposer_loop E P state (unpack_indices p) ?seed 0"
    using rel p(1,2) seed nonempty
    by (simp add: get_beacon_proposer_index_def get_beacon_proposer_index_at_slot_def
        compute_proposer_index_def packed_len_unpack get_current_epoch_def)
  moreover have "length (unpack_indices p) \<le> 2 ^ 63" using p(3) by simp
  ultimately show ?thesis
    using proposer_loop_safe [OF wf(1) capped _ _ p(4), of E ?seed 0] nonempty p(2) by simp
qed

end

definition sample_attestation :: attestation where
  "sample_attestation =
     \<lparr> att_aggregation_bits = [True],
       att_data =
         \<lparr> data_slot = 66, data_index = 0, data_beacon_block_root = replicate 32 0,
           data_source = sample_checkpoint,
           data_target = \<lparr> cp_epoch = 8, cp_root = replicate 32 0 \<rparr> \<rparr>,
       att_signature = [], att_committee_bits = [True, False, False, False] \<rparr>"

text \<open>The minimal preset without shuffling rounds, on which committees can be evaluated.\<close>

definition sample_preset :: preset where
  "sample_preset = MinimalPreset\<lparr> SHUFFLE_ROUND_COUNT := 0 \<rparr>"

interpretation sample_preset: preset_laws sample_preset
  by unfold_locales (simp_all add: sample_preset_def MinimalPreset_def MainnetPreset_def)

lemma sample_preset_simps [simp]:
  "SlotsPerEpoch sample_preset = 8" "TARGET_COMMITTEE_SIZE sample_preset = 4"
  "MaxCommitteesPerSlot sample_preset = 4" "SHUFFLE_ROUND_COUNT sample_preset = 0"
  "EpochsPerHistoricalVector sample_preset = 64" "MinSeedLookahead sample_preset = 1"
  by (simp_all add: sample_preset_def MinimalPreset_def MainnetPreset_def)

lemma sample_state_simps [simp]:
  "slot (sample_state n) = 70" "validators (sample_state n) = sample_registry n"
  "randao_mixes (sample_state n) = replicate 64 (replicate 32 0)"
  by (simp_all add: sample_state_def)

lemma sample_active:
  "e < FAR_FUTURE_EPOCH \<Longrightarrow> get_active_validator_indices_by_epoch (sample_state n) e = [0..<n]"
proof -
  have "filter (\<lambda>(_, v). is_active_validator v e) (enumerate k (replicate n v)) = enumerate k (replicate n v)"
    if "is_active_validator v e" for k n v
    using that by (induction n arbitrary: k) auto
  then show "e < FAR_FUTURE_EPOCH \<Longrightarrow> ?thesis"
    by (simp add: get_active_validator_indices_by_epoch_def get_filtered_active_validator_indices_by_epoch_def
      vl_partial_validators_def sample_registry_def is_active_validator_def)
qed

lemma sample_attesting: "get_attesting_indices sample_env sample_preset (sample_state 8) sample_attestation = Ok [2]"
  by (simp add: get_attesting_indices_def sample_attestation_def get_committee_indices_def beacon_committee_def
   relative_epoch_of_def get_next_epoch_def get_current_epoch_def compute_epoch_at_slot_def try_add_def checked_add_def checked_sub_def
        ok_or_def u64_bound_def get_committee_count_per_slot_def active_validator_count_def active_validator_indices_ordered_def
   get_active_validator_indices_def absolute_epoch_def sample_active FAR_FUTURE_EPOCH_def pack_indices_def pack_one_def upt_rec
    committee_count_from_active_validator_count_def active_validator_indices_shuffled_def get_seed_def get_seed_by_epoch_def
   get_randao_mix_def mod_index_def list_get_def validate_index_def try_sub_def Let_def shuffle_slice_def shuffle_rounds_def MIN_PARALLEL_LEN_def
   slots_since_epoch_start_def compute_start_slot_at_epoch_def saturating_mul_def expect_ok_def try_mul_def checked_mul_def checked_div_def
   vec_slice_def usize_try_add_def)


lemma adjacent_sorted:
  "(\<forall>(a, b) \<in> set (zip xs (tl xs)). a < b) \<longleftrightarrow> sorted_wrt (<) (xs :: nat list)"
proof (induction xs)
  case (Cons x xs)
  then show ?case by (cases xs) (auto dest: less_trans)
qed simp

text \<open>
  C10. The beacon committees of an epoch partition the active validators: for an epoch in the
  window of the state, no call for one of its slots fails or panics, and the committees of all
  its slots together contain every validator active in the epoch exactly once and nobody else.
\<close>

theorem beacon_committees_partition:
  assumes "preset_laws P" "relative_epoch_of P state e = Ok rel" "state_wf P state"
    and "slot state < 2 ^ 62" "vl_len (validators state) \<le> 2 ^ 40"
  shows "\<exists>slots committees. slots_in_epoch P e = Ok slots
    \<and> try_map (beacon_committees E P state) slots = Ok committees
    \<and> mset (concat (concat committees)) = mset (get_active_validator_indices_by_epoch state e)"
  using preset_laws.beacon_committees_epoch [OF assms] .

theorem beacon_committees_partition_witness:
  "\<exists>slots committees. slots_in_epoch MinimalPreset 8 = Ok slots
    \<and> try_map (beacon_committees sample_env MinimalPreset (sample_state 64)) slots = Ok committees
    \<and> mset (concat (concat committees)) = mset (get_active_validator_indices_by_epoch (sample_state 64) 8)"
proof (rule beacon_committees_partition)
  show "preset_laws MinimalPreset" ..
  show "relative_epoch_of MinimalPreset (sample_state 64) 8 = Ok RCurrent"
    by (simp add: relative_epoch_of_def get_next_epoch_def get_current_epoch_def compute_epoch_at_slot_def
        sample_state_def MinimalPreset_def MainnetPreset_def try_add_def checked_add_def checked_sub_def
        ok_or_def u64_bound_def)
qed (simp_all add: sample_state_wf)

text \<open>
  C28. The attesting indices of an attestation are distinct and were active in the epoch of the
  attestation, so nothing needs to be deduplicated.
\<close>

theorem get_attesting_indices_distinct:
  assumes "preset_laws P" "state_wf P state" "slot state < 2 ^ 62" "vl_len (validators state) \<le> 2 ^ 40"
    and "get_attesting_indices E P state att = Ok indices"
  shows "distinct indices \<and> set indices \<subseteq>
    set (get_active_validator_indices_by_epoch state (compute_epoch_at_slot P (data_slot (att_data att))))"
  using preset_laws.attesting_indices_distinct [OF assms] .

theorem get_attesting_indices_distinct_witness:
  "distinct [2 :: nat] \<and> set [2] \<subseteq> set (get_active_validator_indices_by_epoch (sample_state 8)
     (compute_epoch_at_slot sample_preset (data_slot (att_data sample_attestation))))"
proof (rule get_attesting_indices_distinct [OF _ _ _ _ sample_attesting])
  show "preset_laws sample_preset" ..
  show "state_wf sample_preset (sample_state 8)"
    using sample_state_wf [of 8]
    by (simp add: sample_preset_def state_wf_def vector_sizes_def SlotsPerHistoricalRoot_def)
qed simp_all

text \<open>
  C29. Proposer selection is safe: on a state with an active validator and capped effective
  balances it never panics, and it returns an active validator, unless all of its
  \<open>2 ^ 64 - 16\<close> attempts are rejected and it reports \<open>FailedToSelectProposer\<close>.
\<close>

theorem proposer_selection_safe:
  assumes "preset_laws P" "state_wf P state" "slot state < 2 ^ 62" "vl_len (validators state) \<le> 2 ^ 40"
    and "balances_capped P state"
    and "get_active_validator_indices_by_epoch state (get_current_epoch P state) \<noteq> []"
  shows "(\<exists>i \<in> set (get_active_validator_indices_by_epoch state (get_current_epoch P state)).
      get_beacon_proposer_index E P state = Ok i)
    \<or> get_beacon_proposer_index E P state = Err (Helper FailedToSelectProposer)"
  using preset_laws.proposer_index_safe [OF assms] .

theorem proposer_selection_safe_witness:
  "(\<exists>i \<in> set (get_active_validator_indices_by_epoch (sample_state 64) 8).
      get_beacon_proposer_index sample_env MinimalPreset (sample_state 64) = Ok i)
    \<or> get_beacon_proposer_index sample_env MinimalPreset (sample_state 64) = Err (Helper FailedToSelectProposer)"
proof -
  have epoch: "get_current_epoch MinimalPreset (sample_state 64) = 8"
    by (simp add: get_current_epoch_def compute_epoch_at_slot_def MinimalPreset_def MainnetPreset_def)
  have "balances_capped MinimalPreset (sample_state 64)"
    by (simp add: balances_capped_def vl_effective_balances_def sample_registry_def MinimalPreset_def
        MainnetPreset_def list_all_iff)
  moreover have "get_active_validator_indices_by_epoch (sample_state 64) 8 \<noteq> []"
    by (simp add: sample_active FAR_FUTURE_EPOCH_def u64_bound_def)
  ultimately show ?thesis
    using proposer_selection_safe [OF minimal_preset.preset_laws_axioms sample_state_wf, of 64 sample_env]
    by (simp add: epoch)
qed



text \<open>
  C31. An indexed attestation received from the network passes validation only if its indices are
  not empty, strictly increasing, at most \<open>MaxAttestersPerSlot\<close> many and all in the registry.
\<close>

theorem received_attestation_checked:
  assumes "validate_received_indexed_attestation E config P state indexed v = Ok ()"
  shows "ia_attesting_indices indexed \<noteq> [] \<and> sorted_wrt (<) (ia_attesting_indices indexed)
    \<and> length (ia_attesting_indices indexed) \<le> MaxAttestersPerSlot P
    \<and> list_all (\<lambda>i. i < vl_len (validators state)) (ia_attesting_indices indexed)"
  using assms
  by (auto simp: validate_received_indexed_attestation_def validate_indexed_attestation_def Let_def res_simps
      adjacent_sorted find_None_iff list_all_iff split: option.splits)

theorem received_attestation_checked_witness:
  "validate_received_indexed_attestation sample_env config_minimal MinimalPreset (sample_state 8)
     \<lparr> ia_attesting_indices = [1, 4, 6], ia_data = att_data sample_attestation, ia_signature = [] \<rparr>
     SingleVerifier = Ok ()
   \<and> list_all (\<lambda>i. i < 8) [1, 4, 6 :: nat]"
proof -
  let ?indexed = "\<lparr> ia_attesting_indices = [1, 4, 6], ia_data = att_data sample_attestation, ia_signature = [] \<rparr>"
  have ok: "validate_received_indexed_attestation sample_env config_minimal MinimalPreset (sample_state 8)
     ?indexed SingleVerifier = Ok ()"
    by (simp add: validate_received_indexed_attestation_def validate_indexed_attestation_def
        validator_key_def public_key_def vl_pubkey_def raw_pubkey_def raw_validate_index_def
        sample_registry_def raw_len_def pubkeys_len_def pubkeys_get_def pubkeys_from_iter_def expect_def
        sample_env_def vl_len_def MaxAttestersPerSlot_def MinimalPreset_def MainnetPreset_def)
  show ?thesis using received_attestation_checked [OF ok] ok by simp
qed

end
