(* ===== verification/Mutators.thy ===== *)
theory Mutators
  imports Committees
begin

text \<open>
  The functions that change the state (\<open>helper_functions/src/mutators.rs\<close>) and those of
  \<open>helper_functions/src/electra.rs\<close> that initiate exits and slash validators.  A function with an
  argument \<open>&mut state\<close> returns the new state; after an error the source drops the state, so
  errors carry none.  The slot report of \<open>slash_validator\<close> is the null report.
\<close>

subsection \<open>Balances\<close>

definition increase_balance :: "gwei \<Rightarrow> gwei \<Rightarrow> gwei res" where
  "increase_balance balance delta = try_add balance delta"

definition decrease_balance :: "gwei \<Rightarrow> gwei \<Rightarrow> gwei" where
  "decrease_balance balance delta = saturating_sub balance delta"

definition clamp_balance :: "preset \<Rightarrow> gwei \<Rightarrow> gwei" where
  "clamp_balance P balance = max (EFFECTIVE_BALANCE_INCREMENT P) balance"

text \<open>
  \<open>balance\<close> returns a mutable reference to a balance; its callers apply one of the functions
  above to it.
\<close>

definition update_balance ::
  "beacon_state \<Rightarrow> validator_index \<Rightarrow> (gwei \<Rightarrow> gwei res) \<Rightarrow> beacon_state res" where
  "update_balance state index f =
     and_then (list_get (balances state) index) (\<lambda>b.
     and_then (f b) (\<lambda>b'.
     Ok (state\<lparr> balances := (balances state)[index := b'] \<rparr>)))"

definition update_partial_validator ::
  "beacon_state \<Rightarrow> validator_index \<Rightarrow> (partial_validator \<Rightarrow> partial_validator) \<Rightarrow> beacon_state res" where
  "update_partial_validator state index f =
     and_then (vl_partial_validator_mut (validators state) index f) (\<lambda>vs.
     Ok (state\<lparr> validators := vs \<rparr>))"

subsection \<open>Exits before Electra\<close>

text \<open>The loop over the registry that finds the last epoch of the exit queue and its length.\<close>

fun exit_queue_step :: "partial_validator \<Rightarrow> epoch \<times> nat \<Rightarrow> (epoch \<times> nat) res" where
  "exit_queue_step validator (exit_queue_epoch, exit_queue_churn) =
     (let exit_epoch = pv_exit_epoch validator
      in if exit_epoch = FAR_FUTURE_EPOCH then Ok (exit_queue_epoch, exit_queue_churn)
         else if exit_epoch < exit_queue_epoch then Ok (exit_queue_epoch, exit_queue_churn)
         else if exit_epoch = exit_queue_epoch
         then map_ok (\<lambda>churn. (exit_queue_epoch, churn)) (try_add exit_queue_churn 1)
         else Ok (exit_epoch, 1))"

definition phase0_initiate_validator_exit ::
  "config \<Rightarrow> preset \<Rightarrow> beacon_state \<Rightarrow> validator_index \<Rightarrow> beacon_state res" where
  "phase0_initiate_validator_exit config P state index =
     and_then (vl_partial_validator (validators state) index) (\<lambda>validator.
     if pv_exit_epoch validator \<noteq> FAR_FUTURE_EPOCH then Ok state
     else
       and_then (compute_activation_exit_epoch P (get_current_epoch P state)) (\<lambda>exit_queue_epoch.
       and_then (try_fold exit_queue_step (vl_partial_validators (validators state)) (exit_queue_epoch, 0))
         (\<lambda>(exit_queue_epoch, exit_queue_churn).
       and_then (get_validator_churn_limit config P state) (\<lambda>churn_limit.
       and_then (if churn_limit \<le> exit_queue_churn then try_add exit_queue_epoch 1
                 else Ok exit_queue_epoch) (\<lambda>exit_queue_epoch.
       and_then (ok_or (checked_add exit_queue_epoch (cfg_min_validator_withdrawability_delay config))
                   (Helper EpochOverflow)) (\<lambda>withdrawable_epoch.
       update_partial_validator state index (\<lambda>v.
         v\<lparr> pv_exit_epoch := exit_queue_epoch, pv_withdrawable_epoch := withdrawable_epoch \<rparr>)))))))"

subsection \<open>Compounding\<close>

definition queue_excess_active_balance ::
  "preset \<Rightarrow> beacon_state \<Rightarrow> validator_index \<Rightarrow> beacon_state res" where
  "queue_excess_active_balance P state index =
     and_then (list_get (balances state) index) (\<lambda>balance.
     if MIN_ACTIVATION_BALANCE P < balance then
       and_then (try_sub balance (MIN_ACTIVATION_BALANCE P)) (\<lambda>excess_balance.
       and_then (list_modify (balances state) index (\<lambda>_. MIN_ACTIVATION_BALANCE P)) (\<lambda>bs.
       and_then (vl_pubkey (validators state) index) (\<lambda>pubkey.
       and_then (vl_partial_validator (validators state) index) (\<lambda>validator.
       and_then (list_push (PendingDepositsLimit P) (pending_deposits state)
          \<lparr> pd_pubkey = pubkey,
            pd_withdrawal_credentials = pv_withdrawal_credentials validator,
            pd_amount = excess_balance,
            pd_signature = signature_empty,
            pd_slot = GENESIS_SLOT \<rparr>) (\<lambda>deposits.
       Ok (state\<lparr> balances := bs, pending_deposits := deposits \<rparr>))))))
     else Ok state)"

definition switch_to_compounding_validator ::
  "preset \<Rightarrow> beacon_state \<Rightarrow> validator_index \<Rightarrow> beacon_state res" where
  "switch_to_compounding_validator P state index =
     and_then (update_partial_validator state index (\<lambda>v.
       v\<lparr> pv_withdrawal_credentials :=
            copy_from_slice 0 COMPOUNDING_WITHDRAWAL_PREFIX (pv_withdrawal_credentials v) \<rparr>)) (\<lambda>state.
     queue_excess_active_balance P state index)"

subsection \<open>Churn\<close>

definition compute_exit_epoch_and_update_churn ::
  "config \<Rightarrow> preset \<Rightarrow> beacon_state \<Rightarrow> gwei \<Rightarrow> (epoch \<times> beacon_state) res" where
  "compute_exit_epoch_and_update_churn config P state exit_balance =
     and_then (compute_activation_exit_epoch P (get_current_epoch P state)) (\<lambda>activation_exit_epoch.
     let earliest = max (earliest_exit_epoch state) activation_exit_epoch in
     and_then (get_activation_exit_churn_limit config P state) (\<lambda>per_epoch_churn.
     let to_consume =
           (if earliest_exit_epoch state < earliest then per_epoch_churn
            else exit_balance_to_consume state) in
     and_then
       (if to_consume < exit_balance then
          and_then (try_sub exit_balance to_consume) (\<lambda>balance_to_process.
          and_then (try_sub balance_to_process 1) (\<lambda>n.
          and_then (try_div n per_epoch_churn) (\<lambda>n.
          and_then (try_add n 1) (\<lambda>additional_epochs.
          and_then (try_add earliest additional_epochs) (\<lambda>earliest.
          and_then (try_mul additional_epochs per_epoch_churn) (\<lambda>n.
          and_then (try_add to_consume n) (\<lambda>to_consume.
          Ok (earliest, to_consume))))))))
        else Ok (earliest, to_consume)) (\<lambda>(earliest, to_consume).
     and_then (try_sub to_consume exit_balance) (\<lambda>remaining.
     Ok (earliest, state\<lparr> exit_balance_to_consume := remaining, earliest_exit_epoch := earliest \<rparr>)))))"

definition compute_consolidation_epoch_and_update_churn ::
  "config \<Rightarrow> preset \<Rightarrow> beacon_state \<Rightarrow> gwei \<Rightarrow> (epoch \<times> beacon_state) res" where
  "compute_consolidation_epoch_and_update_churn config P state consolidation_balance =
     and_then (compute_activation_exit_epoch P (get_current_epoch P state)) (\<lambda>activation_exit_epoch.
     let earliest = max (earliest_consolidation_epoch state) activation_exit_epoch in
     and_then (get_consolidation_churn_limit config P state) (\<lambda>per_epoch_churn.
     let to_consume =
           (if earliest_consolidation_epoch state < earliest then per_epoch_churn
            else consolidation_balance_to_consume state) in
     and_then
       (if to_consume < consolidation_balance then
          and_then (try_sub consolidation_balance to_consume) (\<lambda>balance_to_process.
          and_then (try_sub balance_to_process 1) (\<lambda>n.
          and_then (try_div n per_epoch_churn) (\<lambda>n.
          and_then (try_add n 1) (\<lambda>additional_epochs.
          and_then (try_add earliest additional_epochs) (\<lambda>earliest.
          and_then (try_mul additional_epochs per_epoch_churn) (\<lambda>n.
          and_then (try_add to_consume n) (\<lambda>to_consume.
          Ok (earliest, to_consume))))))))
        else Ok (earliest, to_consume)) (\<lambda>(earliest, to_consume).
     and_then (try_sub to_consume consolidation_balance) (\<lambda>remaining.
     Ok (earliest,
         state\<lparr> consolidation_balance_to_consume := remaining,
           earliest_consolidation_epoch := earliest \<rparr>)))))"

subsection \<open>Exits and slashings in Electra\<close>

definition initiate_validator_exit ::
  "config \<Rightarrow> preset \<Rightarrow> beacon_state \<Rightarrow> validator_index \<Rightarrow> beacon_state res" where
  "initiate_validator_exit config P state index =
     and_then (vl_partial_validator (validators state) index) (\<lambda>validator.
     if pv_exit_epoch validator \<noteq> FAR_FUTURE_EPOCH then Ok state
     else
       and_then (vl_effective_balance (validators state) index) (\<lambda>effective_balance.
       and_then (compute_exit_epoch_and_update_churn config P state effective_balance)
         (\<lambda>(exit_queue_epoch, state).
       and_then (ok_or (checked_add exit_queue_epoch (cfg_min_validator_withdrawability_delay config))
                   (Helper EpochOverflow)) (\<lambda>withdrawable_epoch.
       update_partial_validator state index (\<lambda>v.
         v\<lparr> pv_exit_epoch := exit_queue_epoch, pv_withdrawable_epoch := withdrawable_epoch \<rparr>)))))"

definition slash_validator ::
  "env \<Rightarrow> config \<Rightarrow> preset \<Rightarrow> beacon_state \<Rightarrow> validator_index \<Rightarrow> validator_index option \<Rightarrow> beacon_state res" where
  "slash_validator E config P state slashed_index whistleblower_index =
     and_then (initiate_validator_exit config P state slashed_index) (\<lambda>state.
     let epoch = get_current_epoch P state in
     and_then (vl_effective_balance (validators state) slashed_index) (\<lambda>effective_balance.
     let slashing_penalty = effective_balance div MIN_SLASHING_PENALTY_QUOTIENT_ELECTRA P in
     and_then (try_add epoch (EpochsPerSlashingsVector P)) (\<lambda>slashings_end.
     and_then (update_partial_validator state slashed_index (\<lambda>v.
       v\<lparr> pv_slashed := True,
          pv_withdrawable_epoch := max (pv_withdrawable_epoch v) slashings_end \<rparr>)) (\<lambda>state.
     and_then (mod_index (EpochsPerSlashingsVector P) (slashings state) epoch) (\<lambda>s.
     and_then (try_add s effective_balance) (\<lambda>s.
     and_then (mod_index_mut (EpochsPerSlashingsVector P) (slashings state) epoch (\<lambda>_. s)) (\<lambda>ss.
     let state = state\<lparr> slashings := ss \<rparr> in
     and_then (update_balance state slashed_index (\<lambda>b. Ok (decrease_balance b slashing_penalty))) (\<lambda>state.
     and_then (get_beacon_proposer_index E P state) (\<lambda>proposer_index.
     let whistleblower_index =
           (case whistleblower_index of None \<Rightarrow> proposer_index | Some i \<Rightarrow> i);
         whistleblower_reward = effective_balance div WHISTLEBLOWER_REWARD_QUOTIENT_ELECTRA P in
     and_then (try_mul whistleblower_reward PROPOSER_WEIGHT) (\<lambda>n.
     let proposer_reward = n div WEIGHT_DENOMINATOR in
     and_then (try_sub whistleblower_reward proposer_reward) (\<lambda>remaining_reward.
     and_then (update_balance state proposer_index (\<lambda>b. increase_balance b proposer_reward)) (\<lambda>state.
     update_balance state whistleblower_index (\<lambda>b. increase_balance b remaining_reward)))))))))))))"

subsection \<open>The churn queues\<close>

text \<open>
  A churn queue assigns epochs to amounts: \<open>earliest\<close> is the epoch that is being filled and
  \<open>remaining\<close> what still fits in it, \<open>limit\<close> is the capacity of an epoch and \<open>first\<close> the first
  epoch that may be used.  The laws say that an update fills the epochs without a gap, moving on
  only when an epoch is full, and leaves the first epoch and the limit alone.
\<close>

fun run_updates ::
  "('s \<Rightarrow> gwei \<Rightarrow> (epoch \<times> 's) res) \<Rightarrow> gwei list \<Rightarrow> 's \<Rightarrow> (epoch list \<times> 's) res" where
  "run_updates update [] s = Ok ([], s)"
| "run_updates update (b # bs) s =
     and_then (update s b) (\<lambda>(e, s). map_ok (\<lambda>(es, s). (e # es, s)) (run_updates update bs s))"

locale churn_queue =
  fixes update :: "'s \<Rightarrow> gwei \<Rightarrow> (epoch \<times> 's) res"
    and earliest :: "'s \<Rightarrow> epoch" and remaining :: "'s \<Rightarrow> gwei"
    and first :: "'s \<Rightarrow> epoch res" and limit :: "'s \<Rightarrow> gwei res"
  assumes update_first: "update s b = Ok (e, s') \<Longrightarrow> first s' = first s \<and> (\<exists>a. first s = Ok a)"
    and update_limit: "update s b = Ok (e, s') \<Longrightarrow> limit s' = limit s \<and> (\<exists>c. limit s = Ok c)"
    and update_earliest: "update s b = Ok (e, s') \<Longrightarrow> earliest s' = e"
    and update_from: "update s b = Ok (e, s') \<Longrightarrow> first s = Ok a \<Longrightarrow> max (earliest s) a \<le> e"
    and update_fills: "update s b = Ok (e, s') \<Longrightarrow> first s = Ok a \<Longrightarrow> limit s = Ok c \<Longrightarrow>
      b + remaining s' =
        (if earliest s < a then c else remaining s) + (e - max (earliest s) a) * c"
    and update_least: "update s b = Ok (e, s') \<Longrightarrow> first s = Ok a \<Longrightarrow> limit s = Ok c \<Longrightarrow>
      max (earliest s) a < e \<Longrightarrow> remaining s' < c"
begin

text \<open>The capacity of the epochs from the current one up to \<open>e\<close>.\<close>

definition capacity :: "'s \<Rightarrow> epoch \<Rightarrow> gwei \<Rightarrow> epoch \<Rightarrow> gwei" where
  "capacity s a c e = (if earliest s < a then c else remaining s) + (e - max (earliest s) a) * c"

lemma run_bound:
  assumes "run_updates update bs s = Ok (es, s')" "first s = Ok a" "limit s = Ok c"
  shows "length es = length bs \<and> sorted es \<and> (\<forall>x \<in> set es. max (earliest s) a \<le> x)
    \<and> (\<forall>e \<ge> max (earliest s) a.
          sum_list (map fst (filter (\<lambda>(b, x). x \<le> e) (zip bs es))) \<le> capacity s a c e)"
  using assms
proof (induction bs arbitrary: s es)
  case (Cons b bs)
  then obtain e1 s1 es1 where step: "update s b = Ok (e1, s1)" "run_updates update bs s1 = Ok (es1, s')"
    and es: "es = e1 # es1"
    by (auto simp: res_simps)
  have s1: "first s1 = Ok a" "limit s1 = Ok c" "earliest s1 = e1" "max (earliest s) a \<le> e1"
    "b + remaining s1 = capacity s a c e1"
    using update_first [OF step(1)] update_limit [OF step(1)] update_earliest [OF step(1)]
      update_from [OF step(1)] update_fills [OF step(1)] Cons.prems by (simp_all add: capacity_def)
  note IH = Cons.IH [OF step(2) s1(1,2)]
  have e1: "max (earliest s1) a = e1" "\<not> earliest s1 < a" using s1(3,4) by auto
  have "sum_list (map fst (filter (\<lambda>(b, x). x \<le> e) (zip (b # bs) es))) \<le> capacity s a c e"
    if e: "max (earliest s) a \<le> e" for e
  proof (cases "e1 \<le> e")
    case True
    have "capacity s a c e = capacity s a c e1 + (e - e1) * c"
    proof -
      have "e - max (earliest s) a = (e1 - max (earliest s) a) + (e - e1)" using s1(4) True by linarith
      then show ?thesis by (simp add: capacity_def algebra_simps)
    qed
    moreover have "capacity s1 a c e = remaining s1 + (e - e1) * c" using e1 by (simp add: capacity_def)
    ultimately show ?thesis using IH True s1(5) e1(1) es by auto
  next
    case False
    then have "filter (\<lambda>(b, x). x \<le> e) (zip (b # bs) es) = []"
      using IH e1(1) es by (fastforce simp: filter_empty_conv dest: set_zip_rightD)
    then show ?thesis by simp
  qed
  then show ?case using IH es e1(1) s1(4) by fastforce
qed simp

text \<open>No update waits longer than necessary: the epochs before the assigned one cannot hold the amount.\<close>

lemma update_no_delay:
  assumes "update s b = Ok (e, s')" "first s = Ok a" "limit s = Ok c"
    and "max (earliest s) a \<le> e'" "e' < e"
  shows "capacity s a c e' < b"
proof -
  have "remaining s' < c" "b + remaining s' = capacity s a c e"
    using update_least [OF assms(1-3)] update_fills [OF assms(1-3)] assms(4,5)
    by (simp_all add: capacity_def)
  moreover have "e - max (earliest s) a = (e' - max (earliest s) a) + (e - e')" using assms(4,5) by linarith
  then have "capacity s a c e = capacity s a c e' + (e - e') * c"
    by (simp add: capacity_def algebra_simps)
  moreover have "c \<le> (e - e') * c" using assms(5) by (cases "e - e'") auto
  ultimately show ?thesis by linarith
qed

end

text \<open>Both queues of the state compute the new epoch and what remains of it in the same way.\<close>

definition churn_step :: "epoch \<Rightarrow> gwei \<Rightarrow> gwei \<Rightarrow> gwei \<Rightarrow> (epoch \<times> gwei) res" where
  "churn_step earliest to_consume churn amount =
     and_then
       (if to_consume < amount then
          and_then (try_sub amount to_consume) (\<lambda>balance_to_process.
          and_then (try_sub balance_to_process 1) (\<lambda>n.
          and_then (try_div n churn) (\<lambda>n.
          and_then (try_add n 1) (\<lambda>additional_epochs.
          and_then (try_add earliest additional_epochs) (\<lambda>earliest.
          and_then (try_mul additional_epochs churn) (\<lambda>n.
          and_then (try_add to_consume n) (\<lambda>to_consume.
          Ok (earliest, to_consume))))))))
        else Ok (earliest, to_consume)) (\<lambda>(earliest, to_consume).
     and_then (try_sub to_consume amount) (\<lambda>remaining.
     Ok (earliest, remaining)))"

lemma churn_step_Ok:
  assumes "churn_step e0 t c b = Ok (e, r)"
  shows "e0 \<le> e" "b + r = t + (e - e0) * c" "e0 < e \<Longrightarrow> r < c"
proof -
  have *: "e0 \<le> e \<and> b + r = t + (e - e0) * c \<and> (e0 < e \<longrightarrow> r < c)"
  proof (cases "t < b")
    case True
    let ?k = "(b - t - 1) div c + 1"
    have e: "e = e0 + ?k" and r: "r = t + ?k * c - b" and le: "b \<le> t + ?k * c" and c: "c \<noteq> 0"
      using assms True by (auto simp: churn_step_def res_simps)
    have "(b - t - 1) div c * c \<le> b - t - 1" by simp
    then have "?k * c \<le> b - t - 1 + c" by (simp add: algebra_simps)
    then have "r < c" using True r c by linarith
    then show ?thesis using e r le by simp
  next
    case False
    then show ?thesis using assms by (auto simp: churn_step_def res_simps)
  qed
  then show "e0 \<le> e" "b + r = t + (e - e0) * c" "e0 < e \<Longrightarrow> r < c" by auto
qed

definition exit_queue_first :: "preset \<Rightarrow> beacon_state \<Rightarrow> epoch res" where
  "exit_queue_first P state = compute_activation_exit_epoch P (get_current_epoch P state)"

lemma compute_exit_epoch_eq:
  "compute_exit_epoch_and_update_churn config P state b =
     and_then (exit_queue_first P state) (\<lambda>a.
     and_then (get_activation_exit_churn_limit config P state) (\<lambda>c.
     and_then (churn_step (max (earliest_exit_epoch state) a)
        (if earliest_exit_epoch state < max (earliest_exit_epoch state) a then c
         else exit_balance_to_consume state) c b) (\<lambda>(e, r).
     Ok (e, state\<lparr> exit_balance_to_consume := r, earliest_exit_epoch := e \<rparr>))))"
  by (simp only: compute_exit_epoch_and_update_churn_def churn_step_def exit_queue_first_def Let_def
      and_then_assoc split_def and_then.simps fst_conv snd_conv)

lemma compute_exit_epoch_step:
  "compute_exit_epoch_and_update_churn config P state b = Ok (e, state') \<longleftrightarrow>
     (\<exists>a c r. exit_queue_first P state = Ok a \<and> get_activation_exit_churn_limit config P state = Ok c
        \<and> churn_step (max (earliest_exit_epoch state) a)
             (if earliest_exit_epoch state < a then c else exit_balance_to_consume state) c b = Ok (e, r)
        \<and> state\<lparr> exit_balance_to_consume := r, earliest_exit_epoch := e \<rparr> = state')"
  by (simp add: compute_exit_epoch_eq and_then_eq_Ok less_max_iff_disj split_paired_Ex)

lemma compute_consolidation_epoch_eq:
  "compute_consolidation_epoch_and_update_churn config P state b =
     and_then (exit_queue_first P state) (\<lambda>a.
     and_then (get_consolidation_churn_limit config P state) (\<lambda>c.
     and_then (churn_step (max (earliest_consolidation_epoch state) a)
        (if earliest_consolidation_epoch state < max (earliest_consolidation_epoch state) a then c
         else consolidation_balance_to_consume state) c b) (\<lambda>(e, r).
     Ok (e, state\<lparr> consolidation_balance_to_consume := r, earliest_consolidation_epoch := e \<rparr>))))"
  by (simp only: compute_consolidation_epoch_and_update_churn_def churn_step_def exit_queue_first_def Let_def
      and_then_assoc split_def and_then.simps fst_conv snd_conv)

lemma compute_consolidation_epoch_step:
  "compute_consolidation_epoch_and_update_churn config P state b = Ok (e, state') \<longleftrightarrow>
     (\<exists>a c r. exit_queue_first P state = Ok a \<and> get_consolidation_churn_limit config P state = Ok c
        \<and> churn_step (max (earliest_consolidation_epoch state) a)
             (if earliest_consolidation_epoch state < a then c else consolidation_balance_to_consume state) c b
             = Ok (e, r)
        \<and> state\<lparr> consolidation_balance_to_consume := r, earliest_consolidation_epoch := e \<rparr> = state')"
  by (simp add: compute_consolidation_epoch_eq and_then_eq_Ok less_max_iff_disj split_paired_Ex)

lemma total_active_balance_cong:
  "slot state' = slot state \<Longrightarrow> validators state' = validators state \<Longrightarrow>
     total_active_balance P state' = total_active_balance P state"
  by (simp add: total_active_balance_def get_current_epoch_def)

lemma churn_limits_cong:
  assumes "slot state' = slot state" "validators state' = validators state"
  shows "get_activation_exit_churn_limit config P state' = get_activation_exit_churn_limit config P state"
    and "get_consolidation_churn_limit config P state' = get_consolidation_churn_limit config P state"
    and "exit_queue_first P state' = exit_queue_first P state"
  using total_active_balance_cong [OF assms] assms
  by (simp_all add: get_activation_exit_churn_limit_def get_consolidation_churn_limit_def
      get_balance_churn_limit_def exit_queue_first_def get_current_epoch_def)

lemma churn_limits_exit_update [simp]:
  fixes state :: beacon_state and r :: gwei and e :: epoch
  defines "state' \<equiv> state\<lparr> exit_balance_to_consume := r, earliest_exit_epoch := e \<rparr>"
  shows "get_activation_exit_churn_limit config P state' = get_activation_exit_churn_limit config P state"
    and "get_consolidation_churn_limit config P state' = get_consolidation_churn_limit config P state"
    and "exit_queue_first P state' = exit_queue_first P state"
  by (rule churn_limits_cong; simp add: state'_def)+

lemma churn_limits_consolidation_update [simp]:
  fixes state :: beacon_state and r :: gwei and e :: epoch
  defines "state' \<equiv> state\<lparr> consolidation_balance_to_consume := r, earliest_consolidation_epoch := e \<rparr>"
  shows "get_activation_exit_churn_limit config P state' = get_activation_exit_churn_limit config P state"
    and "get_consolidation_churn_limit config P state' = get_consolidation_churn_limit config P state"
    and "exit_queue_first P state' = exit_queue_first P state"
  by (rule churn_limits_cong; simp add: state'_def)+

interpretation exit_queue: churn_queue "compute_exit_epoch_and_update_churn config P"
  earliest_exit_epoch exit_balance_to_consume "exit_queue_first P" "get_activation_exit_churn_limit config P"
  for config P
proof (unfold_locales, goal_cases)
  case (1 s b e s')
  then show ?case by (auto simp: compute_exit_epoch_step)
next
  case (2 s b e s')
  then show ?case by (auto simp: compute_exit_epoch_step)
next
  case (3 s b e s')
  then show ?case by (auto simp: compute_exit_epoch_step)
next
  case (4 s b e s' a)
  then show ?case using churn_step_Ok(1) by (fastforce simp: compute_exit_epoch_step)
next
  case (5 s b e s' a c)
  then obtain r where "churn_step (max (earliest_exit_epoch s) a)
      (if earliest_exit_epoch s < a then c else exit_balance_to_consume s) c b = Ok (e, r)" "exit_balance_to_consume s' = r"
    by (auto simp: compute_exit_epoch_step)
  then show ?case using churn_step_Ok(2) by blast
next
  case (6 s b e s' a c)
  then obtain r where "churn_step (max (earliest_exit_epoch s) a)
      (if earliest_exit_epoch s < a then c else exit_balance_to_consume s) c b = Ok (e, r)" "exit_balance_to_consume s' = r"
    by (auto simp: compute_exit_epoch_step)
  then show ?case using churn_step_Ok(3) 6(4) by blast
qed

interpretation consolidation_queue: churn_queue "compute_consolidation_epoch_and_update_churn config P"
  earliest_consolidation_epoch consolidation_balance_to_consume "exit_queue_first P" "get_consolidation_churn_limit config P"
  for config P
proof (unfold_locales, goal_cases)
  case (1 s b e s')
  then show ?case by (auto simp: compute_consolidation_epoch_step)
next
  case (2 s b e s')
  then show ?case by (auto simp: compute_consolidation_epoch_step)
next
  case (3 s b e s')
  then show ?case by (auto simp: compute_consolidation_epoch_step)
next
  case (4 s b e s' a)
  then show ?case using churn_step_Ok(1) by (fastforce simp: compute_consolidation_epoch_step)
next
  case (5 s b e s' a c)
  then obtain r where "churn_step (max (earliest_consolidation_epoch s) a)
      (if earliest_consolidation_epoch s < a then c else consolidation_balance_to_consume s) c b = Ok (e, r)" "consolidation_balance_to_consume s' = r"
    by (auto simp: compute_consolidation_epoch_step)
  then show ?case using churn_step_Ok(2) by blast
next
  case (6 s b e s' a c)
  then obtain r where "churn_step (max (earliest_consolidation_epoch s) a)
      (if earliest_consolidation_epoch s < a then c else consolidation_balance_to_consume s) c b = Ok (e, r)" "consolidation_balance_to_consume s' = r"
    by (auto simp: compute_consolidation_epoch_step)
  then show ?case using churn_step_Ok(3) 6(4) by blast
qed

lemma sample_churn_simps [simp]:
  "earliest_exit_epoch (sample_state n) = 0" "exit_balance_to_consume (sample_state n) = 0"
  "earliest_consolidation_epoch (sample_state n) = 0" "consolidation_balance_to_consume (sample_state n) = 0"
  by (simp_all add: sample_state_def)

lemma sample_total_active_balance:
  assumes "n \<le> 1000"
  shows "total_active_balance MinimalPreset (sample_state n) = Ok (max (n * 32000000000) 1000000000)"
proof -
  have "sum_list (map snd (filter (\<lambda>(v, _). is_active_validator v 8)
      (zip (vl_partial_validators (sample_registry n)) (vl_effective_balances (sample_registry n)))))
    = n * 32000000000"
    by (simp add: vl_partial_validators_def vl_effective_balances_def sample_registry_def zip_replicate
        is_active_validator_def FAR_FUTURE_EPOCH_def u64_bound_def sum_list_replicate)
  then show ?thesis
    using assms
    by (simp add: total_active_balance_def get_current_epoch_def compute_epoch_at_slot_def sum_rs_eq
        MinimalPreset_def MainnetPreset_def u64_bound_def Let_def)
qed

lemma sample_exit_queue:
  "get_activation_exit_churn_limit config_minimal MinimalPreset (sample_state 200) = Ok 128000000000"
  "get_consolidation_churn_limit config_minimal MinimalPreset (sample_state 200) = Ok 72000000000"
  "exit_queue_first MinimalPreset (sample_state 200) = Ok 13"
  using sample_total_active_balance [of 200]
  by (simp_all add: get_activation_exit_churn_limit_def get_consolidation_churn_limit_def
      get_balance_churn_limit_def exit_queue_first_def compute_activation_exit_epoch_def get_current_epoch_def
      compute_epoch_at_slot_def config_minimal_def config_default_def MinimalPreset_def MainnetPreset_def
      prev_multiple_of_def saturating_sub_def try_add_def try_sub_def checked_add_def checked_sub_def ok_or_def
      u64_bound_def)

lemma sample_exit_run:
  "\<exists>state'. run_updates (compute_exit_epoch_and_update_churn config_minimal MinimalPreset)
     [32000000000, 32000000000, 2048000000000] (sample_state 200) = Ok ([13, 13, 29], state')"
  by (simp add: compute_exit_epoch_eq sample_exit_queue churn_step_def try_add_def try_sub_def try_mul_def
      try_div_def checked_add_def checked_sub_def checked_mul_def checked_div_def ok_or_def u64_bound_def)

lemma sample_consolidation_run:
  "\<exists>state'. run_updates (compute_consolidation_epoch_and_update_churn config_minimal MinimalPreset)
     [32000000000, 2048000000000] (sample_state 200) = Ok ([13, 41], state')"
  by (simp add: compute_consolidation_epoch_eq sample_exit_queue churn_step_def try_add_def try_sub_def try_mul_def
      try_div_def checked_add_def checked_sub_def checked_mul_def checked_div_def ok_or_def u64_bound_def)

text \<open>
  C13. Exits respect the churn limit.  When amounts are entered one after the other into the exit
  queue, the assigned epochs never decrease and never lie before the first possible epoch, and
  for every epoch the total of the amounts that leave up to it is at most what was left of the
  current epoch plus the churn limit for each further epoch.
\<close>

theorem exit_churn_bounded:
  assumes "run_updates (compute_exit_epoch_and_update_churn config P) amounts state = Ok (epochs, state')"
    and "compute_activation_exit_epoch P (get_current_epoch P state) = Ok a"
    and "get_activation_exit_churn_limit config P state = Ok churn"
    and "max (earliest_exit_epoch state) a \<le> e"
  shows "sorted epochs \<and> list_all (\<lambda>x. max (earliest_exit_epoch state) a \<le> x) epochs
    \<and> sum_list (map fst (filter (\<lambda>(b, x). x \<le> e) (zip amounts epochs)))
        \<le> (if earliest_exit_epoch state < a then churn else exit_balance_to_consume state)
          + (e - max (earliest_exit_epoch state) a) * churn"
  using exit_queue.run_bound [OF assms(1) _ assms(3), of a] assms(2,4)
  by (auto simp: exit_queue_first_def exit_queue.capacity_def list_all_iff)

theorem exit_churn_bounded_witness:
  "sum_list (map fst (filter (\<lambda>(b, x). x \<le> 14)
     (zip [32000000000, 32000000000, 2048000000000] [13, 13, 29 :: nat]))) \<le> (256000000000 :: nat)"
proof -
  obtain state' where run: "run_updates (compute_exit_epoch_and_update_churn config_minimal MinimalPreset)
     [32000000000, 32000000000, 2048000000000] (sample_state 200) = Ok ([13, 13, 29], state')"
    using sample_exit_run by blast
  show ?thesis
    using exit_churn_bounded [OF run sample_exit_queue(3) [unfolded exit_queue_first_def] sample_exit_queue(1),
        of 14] by simp
qed

text \<open>
  C32. The exit queue delays nobody without need: the epochs before the assigned one do not have
  room for the amount.
\<close>

theorem exit_epoch_earliest:
  assumes "compute_exit_epoch_and_update_churn config P state amount = Ok (e, state')"
    and "compute_activation_exit_epoch P (get_current_epoch P state) = Ok a"
    and "get_activation_exit_churn_limit config P state = Ok churn"
    and "max (earliest_exit_epoch state) a \<le> e'" "e' < e"
  shows "(if earliest_exit_epoch state < a then churn else exit_balance_to_consume state)
    + (e' - max (earliest_exit_epoch state) a) * churn < amount"
  using exit_queue.update_no_delay [OF assms(1) _ assms(3,4,5)] assms(2)
  by (simp add: exit_queue_first_def exit_queue.capacity_def)

theorem exit_epoch_earliest_witness:
  "\<exists>state'. compute_exit_epoch_and_update_churn config_minimal MinimalPreset (sample_state 200) 2048000000000
      = Ok (28, state')
    \<and> 128000000000 + (27 - 13) * 128000000000 < (2048000000000 :: nat)"
proof -
  obtain state' where step: "compute_exit_epoch_and_update_churn config_minimal MinimalPreset
      (sample_state 200) 2048000000000 = Ok (28, state')"
    by (simp add: compute_exit_epoch_eq sample_exit_queue churn_step_def try_add_def try_sub_def try_mul_def
        try_div_def checked_add_def checked_sub_def checked_mul_def checked_div_def ok_or_def u64_bound_def)
  show ?thesis
    using exit_epoch_earliest [OF step sample_exit_queue(3) [unfolded exit_queue_first_def] sample_exit_queue(1),
        of 27] step by simp
qed

text \<open>
  C33. Consolidations respect their churn limit in the same way: the amounts consolidated up to an
  epoch fit into the capacity of the epochs up to it.
\<close>

theorem consolidation_churn_bounded:
  assumes "run_updates (compute_consolidation_epoch_and_update_churn config P) amounts state = Ok (epochs, state')"
    and "compute_activation_exit_epoch P (get_current_epoch P state) = Ok a"
    and "get_consolidation_churn_limit config P state = Ok churn"
    and "max (earliest_consolidation_epoch state) a \<le> e"
  shows "sorted epochs
    \<and> sum_list (map fst (filter (\<lambda>(b, x). x \<le> e) (zip amounts epochs)))
        \<le> (if earliest_consolidation_epoch state < a then churn else consolidation_balance_to_consume state)
          + (e - max (earliest_consolidation_epoch state) a) * churn"
  using consolidation_queue.run_bound [OF assms(1) _ assms(3), of a] assms(2,4)
  by (auto simp: exit_queue_first_def consolidation_queue.capacity_def)

theorem consolidation_churn_bounded_witness:
  "sum_list (map fst (filter (\<lambda>(b, x). x \<le> 40) (zip [32000000000, 2048000000000] [13, 41 :: nat])))
    \<le> 72000000000 + (40 - 13) * (72000000000 :: nat)"
proof -
  obtain state' where run: "run_updates (compute_consolidation_epoch_and_update_churn config_minimal MinimalPreset)
     [32000000000, 2048000000000] (sample_state 200) = Ok ([13, 41], state')"
    using sample_consolidation_run by blast
  show ?thesis
    using consolidation_churn_bounded
      [OF run sample_exit_queue(3) [unfolded exit_queue_first_def] sample_exit_queue(2), of 40] by simp
qed

end
