(* ===== verification/Duties.thy ===== *)
theory Duties
  imports Mutators
begin

text \<open>
  What the cache of the state may keep: the values that exits, slashings and balance changes do
  not affect within an epoch, and the effect of exits and slashings on a validator.
\<close>

subsection \<open>Updates of one validator\<close>

lemma invalidate_index_buf: "invalidate_index vs i = Ok vs' \<Longrightarrow> vl_buf vs' = vl_buf vs"
  by (auto simp: invalidate_index_def Let_def res_simps split: if_splits option.splits)

lemma update_partial_validator_Ok:
  assumes "update_partial_validator state i f = Ok state'"
  obtains vs where "state' = state\<lparr> validators := vs \<rparr>" "i < vl_len (validators state)"
    "i < length (vl_partial_validators (validators state))"
    "vl_partial_validators vs = (vl_partial_validators (validators state))[i := f (vl_partial_validators (validators state) ! i)]"
    "vl_effective_balances vs = vl_effective_balances (validators state)"
    "vl_pubkeys vs = vl_pubkeys (validators state)"
proof -
  from assms obtain vs1 where vs1: "invalidate_index (validators state) i = Ok vs1"
    "i < raw_len (vl_buf vs1)" "i < length (rv_items (vl_buf vs1))"
    "state' = state\<lparr> validators := vs1\<lparr> vl_buf := (vl_buf vs1)\<lparr> rv_items :=
        (rv_items (vl_buf vs1))[i := f (rv_items (vl_buf vs1) ! i)] \<rparr> \<rparr> \<rparr>"
    unfolding update_partial_validator_def vl_partial_validator_mut_def raw_partial_validator_mut_def
      raw_validate_index_def by (auto simp: res_simps split: if_splits)
  with invalidate_index_buf [OF vs1(1)] show ?thesis
    by (intro that [OF vs1(4)])
      (simp_all add: vl_len_def vl_partial_validators_def vl_effective_balances_def vl_pubkeys_def)
qed

lemma vl_len_pubkeys: "vl_pubkeys vs = vl_pubkeys vs' \<Longrightarrow> vl_len vs = vl_len vs'"
  by (simp add: vl_len_def raw_len_def vl_pubkeys_def)

subsection \<open>Values that may be cached\<close>

text \<open>
  The cache of the state keeps the total active balance, the active and shuffled indices and the
  proposer.  They depend only on the slot, the validators active in the epochs up to the next
  one, their effective balances and the seeds of these epochs.  Two states with \<open>same_duties\<close>
  agree on all of that.
\<close>

definition same_duties :: "preset \<Rightarrow> beacon_state \<Rightarrow> beacon_state \<Rightarrow> bool" where
  "same_duties P s s' \<longleftrightarrow>
     slot s' = slot s \<and> vl_len (validators s) \<le> vl_len (validators s')
     \<and> (\<forall>i < vl_len (validators s).
          vl_effective_balance (validators s') i = vl_effective_balance (validators s) i)
     \<and> (\<forall>e \<le> get_current_epoch P s + 1.
          get_active_validator_indices_by_epoch s' e = get_active_validator_indices_by_epoch s e
          \<and> get_randao_mix P s' (e + EpochsPerHistoricalVector P - MinSeedLookahead P - 1)
            = get_randao_mix P s (e + EpochsPerHistoricalVector P - MinSeedLookahead P - 1))"

lemma same_duties_refl: "same_duties P s s"
  by (simp add: same_duties_def)

lemma same_duties_trans:
  assumes "same_duties P s1 s2" "same_duties P s2 s3"
  shows "same_duties P s1 s3"
proof -
  have "get_current_epoch P s2 = get_current_epoch P s1"
    using assms(1) by (simp add: same_duties_def get_current_epoch_def)
  then show ?thesis using assms unfolding same_duties_def by auto
qed

lemma active_balances_by_index:
  assumes "length pvs = length ebs"
  shows "map snd (filter (\<lambda>(v, _). Q v) (zip pvs ebs)) =
    map ((!) ebs) (map fst (filter (\<lambda>(_, v). Q v) (enumerate 0 pvs)))"
proof -
  have "zip pvs ebs = map (\<lambda>i. (pvs ! i, ebs ! i)) [0..<length pvs]"
    using assms by (intro nth_equalityI) auto
  moreover have "enumerate 0 pvs = map (\<lambda>i. (i, pvs ! i)) [0..<length pvs]"
    by (intro nth_equalityI) (auto simp: nth_enumerate_eq)
  ultimately show ?thesis by (simp add: filter_map comp_def)
qed

lemma vl_effective_balance_eq:
  assumes "raw_wf (vl_buf vs)" "i < vl_len vs"
  shows "vl_effective_balance vs i = Ok (vl_effective_balances vs ! i)"
  using assms
  by (simp add: vl_effective_balance_def raw_effective_balance_def raw_validate_index_def vl_len_def
      raw_wf_def vl_effective_balances_def)

lemma active_indices_less:
  assumes "raw_wf (vl_buf (validators s))" "i \<in> set (get_active_validator_indices_by_epoch s e)"
  shows "i < vl_len (validators s)"
  using assms
  by (auto simp: get_active_validator_indices_by_epoch_def active_indices_set raw_wf_def
      vl_partial_validators_def vl_len_def)

lemma same_duties_total_active_balance:
  assumes "same_duties P s s'" "raw_wf (vl_buf (validators s))" "raw_wf (vl_buf (validators s'))"
  shows "total_active_balance P s' = total_active_balance P s"
proof -
  let ?e = "get_current_epoch P s"
  have epoch: "get_current_epoch P s' = ?e" using assms(1) by (simp add: same_duties_def get_current_epoch_def)
  have active: "get_active_validator_indices_by_epoch s' ?e = get_active_validator_indices_by_epoch s ?e"
    using assms(1) by (simp add: same_duties_def)
  have eq: "total_active_balance P t = map_ok (\<lambda>total. max total (EFFECTIVE_BALANCE_INCREMENT P))
      (sum_rs (map ((!) (vl_effective_balances (validators t))) (get_active_validator_indices_by_epoch t ?e)))"
    if "raw_wf (vl_buf (validators t))" "get_current_epoch P t = ?e" for t
    using that active_balances_by_index [of "vl_partial_validators (validators t)"
        "vl_effective_balances (validators t)" "\<lambda>v. is_active_validator v ?e"]
    by (simp add: total_active_balance_def raw_wf_def vl_partial_validators_def vl_effective_balances_def
        get_active_validator_indices_by_epoch_def get_filtered_active_validator_indices_by_epoch_def)
  have "vl_effective_balances (validators s') ! i = vl_effective_balances (validators s) ! i"
    if "i \<in> set (get_active_validator_indices_by_epoch s ?e)" for i
    using active_indices_less [OF assms(2) that] assms vl_effective_balance_eq
    by (auto simp: same_duties_def)
  then have same: "map ((!) (vl_effective_balances (validators s'))) (get_active_validator_indices_by_epoch s ?e)
      = map ((!) (vl_effective_balances (validators s))) (get_active_validator_indices_by_epoch s ?e)"
    by simp
  show ?thesis by (simp only: eq [OF assms(2) refl] eq [OF assms(3) epoch] active same)
qed

lemma selection_candidate_cong:
  assumes "\<And>i. i \<in> set indices \<Longrightarrow>
    vl_effective_balance (validators s') i = vl_effective_balance (validators s) i"
  shows "selection_candidate E P s' indices seed k = selection_candidate E P s indices seed k"
  unfolding selection_candidate_def Let_def
  by (intro and_then_cong refl) (auto simp: assms dest: nth_rs_set)

lemma proposer_loop_cong:
  assumes "\<And>i. i \<in> set indices \<Longrightarrow>
    vl_effective_balance (validators s') i = vl_effective_balance (validators s) i"
  shows "proposer_loop E P s' indices seed k = proposer_loop E P s indices seed k"
proof (induction "SELECTION_ATTEMPTS - k" arbitrary: k rule: less_induct)
  case less
  have candidate: "selection_candidate E P s' indices seed k = selection_candidate E P s indices seed k"
    by (rule selection_candidate_cong) (rule assms)
  show ?case
  proof (cases "SELECTION_ATTEMPTS \<le> k")
    case False
    then have "proposer_loop E P s' indices seed (k + 1) = proposer_loop E P s indices seed (k + 1)"
      by (intro less.hyps) linarith
    then show ?thesis
      by (simp only: proposer_loop.simps [of E P s' indices seed k] proposer_loop.simps [of E P s indices seed k]
          candidate)
  qed (simp add: proposer_loop.simps)
qed

lemma same_duties_epochs:
  assumes "same_duties P s s'"
  shows "get_current_epoch P s' = get_current_epoch P s" "absolute_epoch P s' = absolute_epoch P s"
    "relative_epoch_of P s' = relative_epoch_of P s"
  using assms
  by (simp_all add: same_duties_def fun_eq_iff get_current_epoch_def absolute_epoch_def get_next_epoch_def
      get_previous_epoch_def relative_epoch_of_def split: relative_epoch.splits)

lemma same_duties_seed:
  assumes "same_duties P s s'" "e \<le> get_current_epoch P s + 1"
  shows "get_seed_by_epoch E P s' e d = get_seed_by_epoch E P s e d"
  using assms unfolding get_seed_by_epoch_def
  by (intro and_then_cong refl) (auto simp: res_simps same_duties_def)

lemma absolute_epoch_bound: "absolute_epoch P s rel = Ok e \<Longrightarrow> e \<le> get_current_epoch P s + 1"
  by (auto simp: absolute_epoch_def get_next_epoch_def get_previous_epoch_def previous_epoch_def try_sub_def
      checked_sub_def ok_or_def GENESIS_EPOCH_def res_simps split: relative_epoch.splits)

lemma same_duties_ordered:
  assumes "same_duties P s s'"
  shows "active_validator_indices_ordered P s' rel = active_validator_indices_ordered P s rel"
    "get_seed E P s' rel d = get_seed E P s rel d"
  using same_duties_epochs [OF assms] assms absolute_epoch_bound [of P s rel] same_duties_seed [OF assms]
  unfolding active_validator_indices_ordered_def get_active_validator_indices_def get_seed_def
  by (cases "absolute_epoch P s rel"; simp add: same_duties_def)+

lemma same_duties_committee:
  assumes "same_duties P s s'"
  shows "beacon_committee E P s' sl i = beacon_committee E P s sl i"
  using same_duties_ordered [OF assms] same_duties_epochs [OF assms]
  by (simp add: beacon_committee_def get_committee_count_per_slot_def active_validator_count_def
      active_validator_indices_shuffled_def)

lemma try_map_pack_one_unat: "try_map pack_one xs = Ok ws \<Longrightarrow> map unat ws = xs"
proof (induction xs arbitrary: ws)
  case (Cons x xs)
  then show ?case
    by (auto simp: res_simps pack_one_def unat_of_nat take_bit_nat_eq_self split: if_splits)
qed simp

lemma pack_indices_Ok: "pack_indices xs = Ok p \<Longrightarrow> unpack_indices p = xs"
  by (auto simp: pack_indices_def Let_def res_simps try_map_pack_one_unat split: if_splits)

lemma same_duties_proposer:
  assumes "same_duties P s s'" "raw_wf (vl_buf (validators s))"
  shows "get_beacon_proposer_index E P s' = get_beacon_proposer_index E P s"
proof -
  have loop: "compute_proposer_index E P s' p seed = compute_proposer_index E P s p seed"
    if "active_validator_indices_ordered P s rel = Ok p" for p seed rel
  proof -
    from that obtain e where "pack_indices (get_active_validator_indices_by_epoch s e) = Ok p"
      by (auto simp: active_validator_indices_ordered_def get_active_validator_indices_def res_simps)
    then have "unpack_indices p = get_active_validator_indices_by_epoch s e" by (rule pack_indices_Ok)
    then have "proposer_loop E P s' (unpack_indices p) seed 0 = proposer_loop E P s (unpack_indices p) seed 0"
      using assms active_indices_less [OF assms(2)]
      by (intro proposer_loop_cong) (simp add: same_duties_def)
    then show ?thesis by (simp add: compute_proposer_index_def)
  qed
  have "slot s' = slot s" using assms(1) by (simp add: same_duties_def)
  then show ?thesis
    using same_duties_ordered [OF assms(1)] same_duties_epochs [OF assms(1)] loop
    unfolding get_beacon_proposer_index_def get_beacon_proposer_index_at_slot_def
    by (auto intro!: and_then_cong)
qed

lemma active_indices_cong:
  assumes "length (vl_partial_validators (validators s')) = length (vl_partial_validators (validators s))"
    and "\<And>i. i < length (vl_partial_validators (validators s)) \<Longrightarrow>
      is_active_validator (vl_partial_validators (validators s') ! i) e
      = is_active_validator (vl_partial_validators (validators s) ! i) e"
  shows "get_active_validator_indices_by_epoch s' e = get_active_validator_indices_by_epoch s e"
proof -
  have "enumerate 0 pvs = map (\<lambda>i. (i, pvs ! i)) [0..<length pvs]" for pvs :: "partial_validator list"
    by (intro nth_equalityI) (auto simp: nth_enumerate_eq)
  then show ?thesis
    using assms
    by (simp add: get_active_validator_indices_by_epoch_def get_filtered_active_validator_indices_by_epoch_def
        filter_map comp_def) (auto intro: filter_cong)
qed

text \<open>The frame of an operation that changes partial validators without affecting their activity.\<close>

lemma same_duties_frame:
  assumes "slot s' = slot s" "randao_mixes s' = randao_mixes s"
    and "vl_effective_balances (validators s') = vl_effective_balances (validators s)"
    and "vl_pubkeys (validators s') = vl_pubkeys (validators s)"
    and "length (vl_partial_validators (validators s')) = length (vl_partial_validators (validators s))"
    and "\<And>i e. i < length (vl_partial_validators (validators s)) \<Longrightarrow> e \<le> get_current_epoch P s + 1 \<Longrightarrow>
      is_active_validator (vl_partial_validators (validators s') ! i) e
      = is_active_validator (vl_partial_validators (validators s) ! i) e"
  shows "same_duties P s s'"
proof -
  have "vl_len (validators s') = vl_len (validators s)" by (rule vl_len_pubkeys) (rule assms(4))
  moreover from this have "vl_effective_balance (validators s') i = vl_effective_balance (validators s) i" for i
    using assms(3)
    by (simp add: vl_effective_balance_def raw_effective_balance_def raw_validate_index_def vl_len_def
        vl_effective_balances_def)
  moreover have "get_active_validator_indices_by_epoch s' e = get_active_validator_indices_by_epoch s e"
    if "e \<le> get_current_epoch P s + 1" for e
    by (rule active_indices_cong [OF assms(5) assms(6)]) (use that in simp_all)
  ultimately show ?thesis
    using assms(1,2) by (simp add: same_duties_def get_randao_mix_def)
qed

lemma same_duties_update_partial:
  assumes "update_partial_validator state i f = Ok state'"
    and "\<And>e. e \<le> get_current_epoch P state + 1 \<Longrightarrow>
      is_active_validator (f (vl_partial_validators (validators state) ! i)) e
      = is_active_validator (vl_partial_validators (validators state) ! i) e"
  shows "same_duties P state state'"
proof (rule update_partial_validator_Ok [OF assms(1)], goal_cases)
  case (1 vs)
  have "is_active_validator (vl_partial_validators vs ! j) e
      = is_active_validator (vl_partial_validators (validators state) ! j) e"
    if "j < length (vl_partial_validators (validators state))" "e \<le> get_current_epoch P state + 1" for j e
    using assms(2) [OF that(2)] 1(3,4) that(1) by (cases "j = i") simp_all
  with 1 show ?case by (intro same_duties_frame) simp_all
qed

lemma same_duties_same:
  assumes "slot s' = slot s" "randao_mixes s' = randao_mixes s" "validators s' = validators s"
  shows "same_duties P s s'"
  by (rule same_duties_frame) (simp_all add: assms)

context preset_laws
begin

lemma activation_exit_epoch_gt:
  "compute_activation_exit_epoch P e = Ok a \<Longrightarrow> e + 2 \<le> a"
  using max_seed_lookahead_pos by (auto simp: compute_activation_exit_epoch_def res_simps)

end

lemma update_balance_Ok:
  "update_balance state i f = Ok state' \<longleftrightarrow>
     i < length (balances state) \<and> (\<exists>b. f (balances state ! i) = Ok b
       \<and> state\<lparr> balances := (balances state)[i := b] \<rparr> = state')"
  by (auto simp: update_balance_def res_simps)

lemma vl_partial_validator_Ok:
  "vl_partial_validator vs i = Ok v \<Longrightarrow> i < vl_len vs \<and> i < length (vl_partial_validators vs) \<and> v = vl_partial_validators vs ! i"
  by (auto simp: vl_partial_validator_def raw_partial_validator_def raw_validate_index_def vl_len_def
      vl_partial_validators_def res_simps split: if_splits)

lemma compute_exit_epoch_frame:
  assumes "compute_exit_epoch_and_update_churn config P state b = Ok (e, state')"
  obtains a r where "compute_activation_exit_epoch P (get_current_epoch P state) = Ok a" "a \<le> e"
    "state' = state\<lparr> exit_balance_to_consume := r, earliest_exit_epoch := e \<rparr>"
  using assms churn_step_Ok(1)
  by (fastforce simp: compute_exit_epoch_step exit_queue_first_def)

lemma initiate_validator_exit_cases:
  assumes "initiate_validator_exit config P state i = Ok state'"
  obtains (already) "state' = state" "i < vl_len (validators state)"
      "pv_exit_epoch (vl_partial_validators (validators state) ! i) \<noteq> FAR_FUTURE_EPOCH"
    | (queued) a e r where "pv_exit_epoch (vl_partial_validators (validators state) ! i) = FAR_FUTURE_EPOCH"
      "compute_activation_exit_epoch P (get_current_epoch P state) = Ok a" "a \<le> e"
      "e + cfg_min_validator_withdrawability_delay config < u64_bound"
      "update_partial_validator (state\<lparr> exit_balance_to_consume := r, earliest_exit_epoch := e \<rparr>) i (\<lambda>v.
         v\<lparr> pv_exit_epoch := e, pv_withdrawable_epoch := e + cfg_min_validator_withdrawability_delay config \<rparr>)
        = Ok state'"
proof -
  from assms obtain v where v: "vl_partial_validator (validators state) i = Ok v"
    by (auto simp: initiate_validator_exit_def res_simps)
  note v' = vl_partial_validator_Ok [OF v]
  show ?thesis
  proof (cases "pv_exit_epoch v = FAR_FUTURE_EPOCH")
    case True
    with assms v obtain b p w where *: "compute_exit_epoch_and_update_churn config P state b = Ok p"
      "checked_add (fst p) (cfg_min_validator_withdrawability_delay config) = Some w"
      "update_partial_validator (snd p) i (\<lambda>v. v\<lparr> pv_exit_epoch := fst p, pv_withdrawable_epoch := w \<rparr>) = Ok state'"
      unfolding initiate_validator_exit_def by (clarsimp simp: and_then_eq_Ok ok_or_eq_Ok split_def)
    obtain a r where ar: "compute_activation_exit_epoch P (get_current_epoch P state) = Ok a" "a \<le> fst p"
      "snd p = state\<lparr> exit_balance_to_consume := r, earliest_exit_epoch := fst p \<rparr>"
      using compute_exit_epoch_frame [of config P state b "fst p" "snd p"] *(1) by auto
    have "w = fst p + cfg_min_validator_withdrawability_delay config"
      "fst p + cfg_min_validator_withdrawability_delay config < u64_bound"
      using *(2) by (auto simp: checked_add_def split: if_splits)
    with queued [OF _ ar(1,2)] *(3) ar(3) True v' show ?thesis by simp
  next
    case False
    with assms v v' show ?thesis using already by (simp add: initiate_validator_exit_def)
  qed
qed

context preset_laws
begin

lemma initiate_validator_exit_duties:
  assumes "initiate_validator_exit config P state i = Ok state'"
  shows "same_duties P state state'"
  using assms
proof (cases rule: initiate_validator_exit_cases)
  case already
  then show ?thesis by (simp add: same_duties_refl)
next
  case (queued a e r)
  let ?state = "state\<lparr> exit_balance_to_consume := r, earliest_exit_epoch := e \<rparr>"
  have "same_duties P ?state state'"
    using queued(1,3,4) activation_exit_epoch_gt [OF queued(2)]
    by (intro same_duties_update_partial [OF queued(5)])
      (auto simp: is_active_validator_def FAR_FUTURE_EPOCH_def get_current_epoch_def u64_bound_def)
  moreover have "same_duties P state ?state" by (rule same_duties_same) simp_all
  ultimately show ?thesis by (rule same_duties_trans [rotated])
qed

end

lemma and_then_OkE:
  assumes "and_then m f = Ok b"
  obtains a where "m = Ok a" "f a = Ok b"
  using assms by (auto simp: and_then_eq_Ok)

lemma state_wf_frame:
  assumes "state_wf P s"
    and "vl_pubkeys (validators s') = vl_pubkeys (validators s)"
    and "length (vl_effective_balances (validators s')) = length (vl_effective_balances (validators s))"
    and "length (vl_partial_validators (validators s')) = length (vl_partial_validators (validators s))"
    and "length (balances s') = length (balances s)"
    and "length (previous_epoch_participation s') = length (previous_epoch_participation s)"
    and "length (current_epoch_participation s') = length (current_epoch_participation s)"
    and "length (inactivity_scores s') = length (inactivity_scores s)"
    and "length (block_roots s') = length (block_roots s)" "length (state_roots s') = length (state_roots s)"
    and "length (randao_mixes s') = length (randao_mixes s)" "length (slashings s') = length (slashings s)"
    and "length (justification_bits s') = length (justification_bits s)"
  shows "state_wf P s'"
proof -
  have "raw_len (vl_buf (validators s')) = raw_len (vl_buf (validators s))"
    using vl_len_pubkeys [OF assms(2)] by (simp add: vl_len_def)
  with assms show ?thesis
    by (simp add: state_wf_def raw_wf_def per_validator_lists_def vector_sizes_def vl_len_def Let_def
        vl_effective_balances_def vl_partial_validators_def)
qed

lemma update_partial_validator_wf:
  assumes "update_partial_validator state i f = Ok state'" "state_wf P state"
  shows "state_wf P state'"
proof (rule update_partial_validator_Ok [OF assms(1)], goal_cases)
  case (1 vs)
  then show ?case by (intro state_wf_frame [OF assms(2)]) simp_all
qed

lemma update_balance_wf: "update_balance state i f = Ok state' \<Longrightarrow> state_wf P state \<Longrightarrow> state_wf P state'"
  by (elim state_wf_frame; clarsimp simp: update_balance_Ok)

lemma initiate_validator_exit_wf:
  assumes "initiate_validator_exit config P state i = Ok state'" "state_wf P state"
  shows "state_wf P state'"
  using assms(1)
proof (cases rule: initiate_validator_exit_cases)
  case (queued a e r)
  then show ?thesis
    using state_wf_frame [OF assms(2), of "state\<lparr> exit_balance_to_consume := r, earliest_exit_epoch := e \<rparr>"]
    by (intro update_partial_validator_wf [OF queued(5)]) simp
qed (simp add: assms(2))

text \<open>What \<open>slash_validator\<close> does, step by step.\<close>

lemma slash_validator_steps:
  assumes "slash_validator E config P state i w = Ok state'"
  obtains s1 s2 s3 s4 s5 eb sl proposer where
    "initiate_validator_exit config P state i = Ok s1"
    "vl_effective_balance (validators s1) i = Ok eb"
    "get_current_epoch P s1 + EpochsPerSlashingsVector P < u64_bound"
    "update_partial_validator s1 i (\<lambda>v. v\<lparr> pv_slashed := True,
       pv_withdrawable_epoch := max (pv_withdrawable_epoch v) (get_current_epoch P s1 + EpochsPerSlashingsVector P) \<rparr>)
     = Ok s2"
    "get_current_epoch P s1 mod EpochsPerSlashingsVector P < length (slashings s2)"
    "sl = (slashings s2)[get_current_epoch P s1 mod EpochsPerSlashingsVector P :=
       slashings s2 ! (get_current_epoch P s1 mod EpochsPerSlashingsVector P) + eb]"
    "s3 = s2\<lparr> slashings := sl \<rparr>"
    "update_balance s3 i (\<lambda>b. Ok (decrease_balance b (eb div MIN_SLASHING_PENALTY_QUOTIENT_ELECTRA P))) = Ok s4"
    "get_beacon_proposer_index E P s4 = Ok proposer"
    "update_balance s4 proposer (\<lambda>b. increase_balance b
       (eb div WHISTLEBLOWER_REWARD_QUOTIENT_ELECTRA P * PROPOSER_WEIGHT div WEIGHT_DENOMINATOR)) = Ok s5"
    "update_balance s5 (case w of None \<Rightarrow> proposer | Some j \<Rightarrow> j) (\<lambda>b. increase_balance b
       (eb div WHISTLEBLOWER_REWARD_QUOTIENT_ELECTRA P
        - eb div WHISTLEBLOWER_REWARD_QUOTIENT_ELECTRA P * PROPOSER_WEIGHT div WEIGHT_DENOMINATOR)) = Ok state'"
  using assms unfolding slash_validator_def Let_def
  by (elim and_then_OkE, unfold try_add_Ok try_mul_Ok try_sub_Ok mod_index_Ok mod_index_mut_Ok, elim conjE)
    (rule that; (assumption | (simp; fail)))

lemma update_balance_duties: "update_balance s i f = Ok s' \<Longrightarrow> same_duties P s s'"
  by (rule same_duties_same; clarsimp simp: update_balance_Ok)

lemma slash_validator_wf:
  assumes "slash_validator E config P state i w = Ok state'" "state_wf P state"
  shows "state_wf P state'"
proof (rule slash_validator_steps [OF assms(1)], goal_cases)
  case (1 s1 s2 s3 s4 s5 eb sl proposer)
  have "state_wf P s2"
    using 1(1,4) assms(2) initiate_validator_exit_wf update_partial_validator_wf by blast
  then have "state_wf P s3" by (rule state_wf_frame) (simp_all add: 1(6,7))
  then show ?case using 1(8,10,11) update_balance_wf by blast
qed

context preset_laws
begin

lemma slash_validator_duties:
  assumes "slash_validator E config P state i w = Ok state'"
  shows "same_duties P state state'"
proof (rule slash_validator_steps [OF assms(1)], goal_cases)
  case (1 s1 s2 s3 s4 s5 eb sl proposer)
  have "same_duties P s1 s2"
    by (rule same_duties_update_partial [OF 1(4)]) (simp add: is_active_validator_def)
  moreover have "same_duties P s2 s3" by (rule same_duties_same) (simp_all add: 1(7))
  ultimately show ?case
    using initiate_validator_exit_duties [OF 1(1)] 1(8,10,11) update_balance_duties same_duties_trans by meson
qed

end

lemma same_duties_summary:
  assumes "same_duties P s s'" "state_wf P s" "state_wf P s'"
  shows "total_active_balance P s' = total_active_balance P s"
    "get_beacon_proposer_index E P s' = get_beacon_proposer_index E P s"
    "beacon_committee E P s' sl i = beacon_committee E P s sl i"
  using assms same_duties_total_active_balance same_duties_proposer same_duties_committee
  by (simp_all add: state_wf_def)

lemma sum_list_update_add:
  "i < length xs \<Longrightarrow> sum_list (xs[i := b]) + xs ! i = sum_list xs + (b :: nat)"
  by (induction xs arbitrary: i) (auto split: nat.splits)

lemma update_balance_sum:
  assumes "update_balance s i f = Ok s'" "f (balances s ! i) = Ok b"
  shows "sum_list (balances s') + balances s ! i = sum_list (balances s) + b"
  using assms sum_list_update_add [of i "balances s" b] by (auto simp: update_balance_Ok)

lemma initiate_validator_exit_frame:
  assumes "initiate_validator_exit config P state i = Ok state'"
  shows "balances state' = balances state" "slashings state' = slashings state" "slot state' = slot state"
    "vl_effective_balances (validators state') = vl_effective_balances (validators state)"
    "vl_pubkeys (validators state') = vl_pubkeys (validators state)"
    "length (vl_partial_validators (validators state')) = length (vl_partial_validators (validators state))"
    "j \<noteq> i \<Longrightarrow> vl_partial_validators (validators state') ! j = vl_partial_validators (validators state) ! j"
proof (atomize (full), rule initiate_validator_exit_cases [OF assms], goal_cases)
  case (2 a e r)
  show ?case by (rule update_partial_validator_Ok [OF 2(5)]) simp
qed simp

lemma update_balance_frame:
  assumes "update_balance s i f = Ok s'"
  shows "validators s' = validators s" "slashings s' = slashings s" "slot s' = slot s"
  using assms by (auto simp: update_balance_Ok)

lemma slash_balances_arith:
  fixes s0 s1 s2 s3 :: nat
  assumes "s1 + b = s0 + (b - p)" "s2 + x = s1 + (x + r)" "s3 + y = s2 + (y + (w - r))" "r \<le> w"
  shows "s3 + min b p = s0 + w"
proof -
  have "min b p + (b - p) = b" by simp
  with assms show ?thesis by linarith
qed

lemma proposer_share_le: "n * PROPOSER_WEIGHT div WEIGHT_DENOMINATOR \<le> n"
  by (simp add: PROPOSER_WEIGHT_def WEIGHT_DENOMINATOR_def div_le_mono [THEN order_trans])

lemma slash_validator_balances:
  assumes "slash_validator E config P state i w = Ok state'" "vl_effective_balance (validators state) i = Ok eb"
  shows "sum_list (balances state') + min (balances state ! i) (eb div MIN_SLASHING_PENALTY_QUOTIENT_ELECTRA P)
    = sum_list (balances state) + eb div WHISTLEBLOWER_REWARD_QUOTIENT_ELECTRA P"
proof (rule slash_validator_steps [OF assms(1)], goal_cases)
  case (1 s1 s2 s3 s4 s5 eb' sl proposer)
  note exit = initiate_validator_exit_frame [OF 1(1)]
  have len: "vl_len (validators s1) = vl_len (validators state)" by (rule vl_len_pubkeys) (rule exit(5))
  have eb: "eb' = eb"
    using 1(2) assms(2) len exit(4)
    by (simp add: vl_effective_balance_def raw_effective_balance_def raw_validate_index_def vl_len_def
        vl_effective_balances_def split: if_splits)
  have s3: "balances s3 = balances state"
    by (rule update_partial_validator_Ok [OF 1(4)]) (simp add: 1(7) exit(1))
  note b4 = update_balance_sum [OF 1(8) refl]
  obtain x where x: "increase_balance (balances s4 ! proposer)
       (eb' div WHISTLEBLOWER_REWARD_QUOTIENT_ELECTRA P * PROPOSER_WEIGHT div WEIGHT_DENOMINATOR) = Ok x"
    using 1(10) by (auto simp: update_balance_Ok)
  obtain y where y: "increase_balance (balances s5 ! (case w of None \<Rightarrow> proposer | Some j \<Rightarrow> j))
       (eb' div WHISTLEBLOWER_REWARD_QUOTIENT_ELECTRA P
        - eb' div WHISTLEBLOWER_REWARD_QUOTIENT_ELECTRA P * PROPOSER_WEIGHT div WEIGHT_DENOMINATOR) = Ok y"
    using 1(11) by (auto simp: update_balance_Ok)
  note b5 = update_balance_sum [OF 1(10) x] and b6 = update_balance_sum [OF 1(11) y]
  show ?case
    unfolding s3 [symmetric] eb [symmetric]
    by (rule slash_balances_arith [OF _ _ _ proposer_share_le])
      (use b4 b5 b6 x y in \<open>simp_all add: decrease_balance_def saturating_sub_def increase_balance_def try_add_Ok\<close>)
qed

lemma slash_validator_effect:
  assumes "slash_validator E config P state i w = Ok state'"
  shows "i < length (vl_partial_validators (validators state))"
    "pv_slashed (vl_partial_validators (validators state') ! i)"
    "get_current_epoch P state + EpochsPerSlashingsVector P
      \<le> pv_withdrawable_epoch (vl_partial_validators (validators state') ! i)"
    "j \<noteq> i \<Longrightarrow> vl_partial_validators (validators state') ! j = vl_partial_validators (validators state) ! j"
    "vl_effective_balance (validators state) i = Ok eb \<Longrightarrow> slashings state' =
      (slashings state)[get_current_epoch P state mod EpochsPerSlashingsVector P :=
         slashings state ! (get_current_epoch P state mod EpochsPerSlashingsVector P) + eb]"
proof (atomize (full), rule slash_validator_steps [OF assms(1)], goal_cases)
  case (1 s1 s2 s3 s4 s5 eb' sl proposer)
  note exit = initiate_validator_exit_frame [OF 1(1)]
  have epoch: "get_current_epoch P s1 = get_current_epoch P state" using exit(3) by (simp add: get_current_epoch_def)
  have eb: "vl_effective_balance (validators state) i = Ok eb'"
    using 1(2) vl_len_pubkeys [OF exit(5)] exit(4)
    by (simp add: vl_effective_balance_def raw_effective_balance_def raw_validate_index_def vl_len_def
        vl_effective_balances_def split: if_splits)
  have state': "validators state' = validators s2" "slashings state' = sl"
    using update_balance_frame [OF 1(8)] update_balance_frame [OF 1(10)] update_balance_frame [OF 1(11)] 1(7)
    by simp_all
  show ?case
  proof (rule update_partial_validator_Ok [OF 1(4)], goal_cases)
    case (1 vs)
    then show ?case
      using state' exit epoch eb \<open>sl = _\<close> by (auto simp: nth_list_update)
  qed
qed

lemma sample_preset_more [simp]:
  "MAX_SEED_LOOKAHEAD sample_preset = 4" "EFFECTIVE_BALANCE_INCREMENT sample_preset = 1000000000"
  "EpochsPerSlashingsVector sample_preset = 64" "MIN_SLASHING_PENALTY_QUOTIENT_ELECTRA sample_preset = 4096"
  "WHISTLEBLOWER_REWARD_QUOTIENT_ELECTRA sample_preset = 4096" "MAX_EFFECTIVE_BALANCE_ELECTRA sample_preset = 2048000000000"
  by (simp_all add: sample_preset_def MinimalPreset_def MainnetPreset_def)

lemma sample_total_active_balance_preset:
  "total_active_balance sample_preset (sample_state n) = total_active_balance MinimalPreset (sample_state n)"
  by (simp add: total_active_balance_def get_current_epoch_def compute_epoch_at_slot_def Let_def MinimalPreset_def MainnetPreset_def)

lemma sample_churn: "get_activation_exit_churn_limit config_minimal sample_preset (sample_state 8) = Ok 64000000000"
  using sample_total_active_balance [of 8]
  by (simp add: get_activation_exit_churn_limit_def sample_total_active_balance_preset
      get_balance_churn_limit_def config_minimal_def config_default_def 
      prev_multiple_of_def saturating_sub_def)

lemma sample_exit: "compute_exit_epoch_and_update_churn config_minimal sample_preset (sample_state 8) 32000000000 =
   Ok (13, (sample_state 8)\<lparr> exit_balance_to_consume := 32000000000, earliest_exit_epoch := 13 \<rparr>)"
  by (simp add: compute_exit_epoch_eq sample_churn exit_queue_first_def compute_activation_exit_epoch_def get_current_epoch_def
      compute_epoch_at_slot_def churn_step_def try_add_def try_sub_def checked_add_def checked_sub_def ok_or_def u64_bound_def)

definition sample_exited :: "beacon_state" where "sample_exited = 
  (sample_state 8)\<lparr> exit_balance_to_consume := 32000000000, earliest_exit_epoch := 13, validators := (sample_registry 8)\<lparr> vl_buf := (vl_buf (sample_registry 8))
    \<lparr> rv_items := (rv_items (vl_buf (sample_registry 8)))[3 := (rv_items (vl_buf (sample_registry 8)) ! 3)\<lparr> pv_exit_epoch := 13, pv_withdrawable_epoch := 269 \<rparr>]\<rparr>\<rparr>\<rparr>"

lemma sample_delay [simp]: "cfg_min_validator_withdrawability_delay config_minimal = 256"
  by (simp add: config_minimal_def config_default_def)

lemma sample_initiate: "initiate_validator_exit config_minimal sample_preset (sample_state 8) 3 = Ok sample_exited"
  by (simp add: initiate_validator_exit_def sample_exited_def sample_exit vl_partial_validator_def raw_partial_validator_def raw_validate_index_def
    vl_effective_balance_def raw_effective_balance_def update_partial_validator_def vl_partial_validator_mut_def invalidate_index_def raw_partial_validator_mut_def
    raw_len_def pubkeys_len_def sample_registry_def vl_len_def Let_def FAR_FUTURE_EPOCH_def u64_bound_def ok_or_def checked_add_def)

lemma sample_hash: "from_le_bytes (take 2 (sha256_output (replicate 8 0))) = 0"
proof -
  have eight: "replicate 8 x = x # replicate 7 x" for x :: 'a
    by (simp flip: replicate_Suc)
  have "word_to_be_bytes 0 = [0, 0, 0, 0]" by (simp add: word_to_be_bytes_def to_be_bytes_def to_le_bytes_def upt_rec)
  then show ?thesis by (simp add: sha256_output_def eight from_le_bytes_def)
qed

lemma sample_proposer: "get_beacon_proposer_index sample_env sample_preset (sample_state 8) = Ok 0"
proof -
  have active: "get_active_validator_indices_by_epoch (sample_state 8) 8 = [0..<8]"
    by (rule sample_active) (simp add: FAR_FUTURE_EPOCH_def u64_bound_def)
  have "[0..<8] = [0, 1, 2, 3, 4, 5, 6, 7 :: nat]" by (simp add: upt_rec)
  then obtain p where p: "active_validator_indices_ordered sample_preset (sample_state 8) RCurrent = Ok p"
    "unpack_indices p = [0, 1, 2, 3, 4, 5, 6, 7]"
    by (simp add: active_validator_indices_ordered_def get_active_validator_indices_def absolute_epoch_def
        get_current_epoch_def compute_epoch_at_slot_def active pack_indices_def pack_one_def)
  have zero: "random_value (ev_compress sample_env) seed 0 = 0" for seed
    by (simp add: random_value_def hash_256_64_def compress_single_def compress_multiple_def sample_env_def
        sample_hash)
  have "selection_candidate sample_env sample_preset (sample_state 8) (unpack_indices p) seed 0 = Ok (0, True)" for seed
    by (simp add: selection_candidate_def p(2) zero compute_shuffled_index_def shuffle_single_def assert_rs_def
        expect_ok_def vl_effective_balance_def raw_effective_balance_def raw_validate_index_def sample_registry_def
        raw_len_def pubkeys_len_def try_mul_def checked_mul_def ok_or_def u64_bound_def)
  then have "proposer_loop sample_env sample_preset (sample_state 8) (unpack_indices p) seed 0 = Ok 0" for seed
    by (subst proposer_loop.simps) (simp add: SELECTION_ATTEMPTS_def u64_bound_def)
  then show ?thesis
    using p
    by (simp add: get_beacon_proposer_index_def get_beacon_proposer_index_at_slot_def relative_epoch_of_def
        get_next_epoch_def get_current_epoch_def compute_epoch_at_slot_def try_add_def checked_add_def
        checked_sub_def ok_or_def u64_bound_def get_seed_def absolute_epoch_def get_seed_by_epoch_def try_sub_def
        get_randao_mix_def mod_index_def list_get_def validate_index_def compute_proposer_index_def packed_len_unpack)
qed

lemma update_partial_validator_uncached:
  assumes "vl_cache (validators s) = None" "raw_wf (vl_buf (validators s))" "i < vl_len (validators s)"
  shows "\<exists>s'. update_partial_validator s i f = Ok s'"
  using assms
  by (simp add: update_partial_validator_def vl_partial_validator_mut_def invalidate_index_def
      raw_partial_validator_mut_def raw_validate_index_def raw_wf_def vl_len_def Let_def)

lemma sample_state_wf_preset: "state_wf sample_preset (sample_state n)"
  using sample_state_wf [of n]
  by (simp add: sample_preset_def state_wf_def vector_sizes_def SlotsPerHistoricalRoot_def)

lemma sample_effective_balance: "vl_effective_balance (validators (sample_state 8)) 3 = Ok 32000000000"
  by (simp add: vl_effective_balance_def raw_effective_balance_def raw_validate_index_def
      sample_registry_def raw_len_def pubkeys_len_def)

lemma sample_slash:
  "\<exists>state'. slash_validator sample_env config_minimal sample_preset (sample_state 8) 3 None = Ok state'"
proof -
  have exited: "vl_cache (validators sample_exited) = None" "slot sample_exited = 70"
    "balances sample_exited = replicate 8 32000000000" "slashings sample_exited = replicate 64 0"
    "vl_len (validators sample_exited) = 8"
    by (simp_all add: sample_exited_def sample_registry_def vl_len_def raw_len_def pubkeys_len_def)
     (simp_all add: sample_state_def)
  note wf = sample_state_wf_preset [of 8]
  have wf1: "state_wf sample_preset sample_exited" by (rule initiate_validator_exit_wf [OF sample_initiate wf])
  have eb: "vl_effective_balance (validators sample_exited) 3 = Ok 32000000000"
    by (simp add: sample_exited_def vl_effective_balance_def raw_effective_balance_def raw_validate_index_def
        sample_registry_def raw_len_def pubkeys_len_def)
  let ?f = "\<lambda>v. v\<lparr> pv_slashed := True, pv_withdrawable_epoch := max (pv_withdrawable_epoch v) 72 \<rparr>"
  obtain s2 where s2: "update_partial_validator sample_exited 3 ?f = Ok s2"
    using update_partial_validator_uncached [OF exited(1), of 3 ?f] wf1 exited(5) by (auto simp: state_wf_def)
  have s2': "balances s2 = replicate 8 32000000000" "slashings s2 = replicate 64 0"
    by (rule update_partial_validator_Ok [OF s2]; simp add: exited)+
  let ?s4 = "s2\<lparr> slashings := (replicate 64 0)[8 := 32000000000],
    balances := (replicate 8 32000000000)[3 := 32000000000 - 7812500] \<rparr>"
  have "same_duties sample_preset sample_exited s2"
    by (rule same_duties_update_partial [OF s2]) (simp add: is_active_validator_def)
  moreover have "same_duties sample_preset s2 ?s4" by (rule same_duties_same) simp_all
  ultimately have "same_duties sample_preset (sample_state 8) ?s4"
    using sample_preset.initiate_validator_exit_duties [OF sample_initiate] same_duties_trans by blast
  then have "get_beacon_proposer_index sample_env sample_preset ?s4 = Ok 0"
    using same_duties_proposer wf sample_proposer by (simp add: state_wf_def)
  then show ?thesis
    using sample_initiate eb s2 s2' exited(2)
    by (simp add: slash_validator_def get_current_epoch_def compute_epoch_at_slot_def try_add_def checked_add_def
        ok_or_def u64_bound_def mod_index_def mod_index_mut_def list_get_def list_modify_def validate_index_def
        update_balance_def decrease_balance_def saturating_sub_def increase_balance_def try_mul_def checked_mul_def
        try_sub_def checked_sub_def PROPOSER_WEIGHT_def WEIGHT_DENOMINATOR_def)
qed

text \<open>
  C34. Slashing a validator does not invalidate the cached values: the total active balance, the
  proposer and every committee of the previous, current and next epoch computed from the state
  after \<open>slash_validator\<close> are those computed before it.
\<close>

theorem slashing_keeps_caches:
  assumes "preset_laws P" "state_wf P state" "slash_validator E config P state i w = Ok state'"
  shows "total_active_balance P state' = total_active_balance P state
    \<and> get_beacon_proposer_index E P state' = get_beacon_proposer_index E P state
    \<and> (\<forall>s c. beacon_committee E P state' s c = beacon_committee E P state s c)"
  using same_duties_summary [OF preset_laws.slash_validator_duties [OF assms(1,3)] assms(2)
      slash_validator_wf [OF assms(3,2)]] by blast

theorem slashing_keeps_caches_witness:
  "\<exists>state'. slash_validator sample_env config_minimal sample_preset (sample_state 8) 3 None = Ok state'
    \<and> get_beacon_proposer_index sample_env sample_preset state' = Ok 0"
  using slashing_keeps_caches [OF sample_preset.preset_laws_axioms sample_state_wf_preset] sample_slash
    sample_proposer by metis

text \<open>
  C35. The effect of \<open>slash_validator\<close> on the registry: the validator is marked as slashed, cannot be
  slashed again, stays unable to withdraw for \<open>EpochsPerSlashingsVector\<close> epochs, its effective
  balance is added to the slashings of the epoch, and no other validator changes.
\<close>

theorem slash_validator_marks:
  assumes "slash_validator E config P state i w = Ok state'" "vl_effective_balance (validators state) i = Ok eb"
  shows "let pvs = vl_partial_validators (validators state);
      pvs' = vl_partial_validators (validators state');
      epoch = get_current_epoch P state;
      k = epoch mod EpochsPerSlashingsVector P
    in pv_slashed (pvs' ! i) \<and> \<not> is_slashable_validator (pvs' ! i) e
      \<and> epoch + EpochsPerSlashingsVector P \<le> pv_withdrawable_epoch (pvs' ! i)
      \<and> slashings state' = (slashings state)[k := slashings state ! k + eb]
      \<and> (\<forall>j. j \<noteq> i \<longrightarrow> pvs' ! j = pvs ! j)"
  using slash_validator_effect [OF assms(1)] assms(2) by (simp add: Let_def is_slashable_validator_def)

theorem slash_validator_marks_witness:
  "\<exists>state'. slash_validator sample_env config_minimal sample_preset (sample_state 8) 3 None = Ok state'
    \<and> pv_slashed (vl_partial_validators (validators state') ! 3)"
proof -
  obtain state' where "slash_validator sample_env config_minimal sample_preset (sample_state 8) 3 None = Ok state'"
    using sample_slash by blast
  from slash_validator_marks [OF this sample_effective_balance] this show ?thesis by (auto simp: Let_def)
qed

text \<open>
  C36. Slashing moves value in a fixed way: the balances lose the penalty (or all that the validator
  has) and gain exactly the whistleblower reward, which the proposer and the whistleblower share.
\<close>

theorem slash_validator_conserves:
  assumes "slash_validator E config P state i w = Ok state'" "vl_effective_balance (validators state) i = Ok eb"
  shows "sum_list (balances state') + min (balances state ! i) (eb div MIN_SLASHING_PENALTY_QUOTIENT_ELECTRA P)
    = sum_list (balances state) + eb div WHISTLEBLOWER_REWARD_QUOTIENT_ELECTRA P"
  using slash_validator_balances [OF assms] .

theorem slash_validator_conserves_witness:
  "\<exists>state'. slash_validator sample_env config_minimal sample_preset (sample_state 8) 3 None = Ok state'
    \<and> sum_list (balances state') = 8 * 32000000000"
proof -
  obtain state' where "slash_validator sample_env config_minimal sample_preset (sample_state 8) 3 None = Ok state'"
    using sample_slash by blast
  from slash_validator_conserves [OF this sample_effective_balance] this show ?thesis
    by (auto simp: sum_list_replicate) (simp add: sample_state_def sum_list_replicate)
qed

end
