(* ===== verification/Epoch_Intermediates.thy ===== *)
theory Epoch_Intermediates
  imports Duties
begin

text \<open>
  What epoch processing computes from the registry before it changes the state
  (\<open>transition_functions/src/altair/epoch_intermediates.rs\<close>,
  \<open>transition_functions/src/electra/epoch_intermediates.rs\<close>): a summary per validator, the
  participating balances, and the rewards and penalties.

  The source computes the rewards and penalties for any type that implements the trait
  \<open>AltairEpochDeltas\<close>; the record \<open>deltas_impl\<close> is an implementation of that trait, and
  \<open>for_transition\<close> and \<open>for_report\<close> are the two of the source.
\<close>

subsection \<open>Summaries and statistics\<close>

record validator_summary =
  vs_effective_balance :: gwei
  vs_slashed :: bool
  vs_withdrawable_epoch :: epoch
  vs_active_in_previous_epoch :: bool
  vs_eligible_for_penalties :: bool

definition update_from :: "validator_summary \<Rightarrow> validator \<Rightarrow> validator_summary" where
  "update_from summary validator =
     summary\<lparr> vs_effective_balance := val_effective_balance validator,
       vs_slashed := val_slashed validator,
       vs_withdrawable_epoch := val_withdrawable_epoch validator \<rparr>"

record statistics =
  previous_epoch_source_participating_balance :: gwei
  previous_epoch_target_participating_balance :: gwei
  previous_epoch_head_participating_balance :: gwei
  current_epoch_target_participating_balance :: gwei

definition statistics_default :: statistics where
  "statistics_default =
     \<lparr> previous_epoch_source_participating_balance = 0,
       previous_epoch_target_participating_balance = 0,
       previous_epoch_head_participating_balance = 0,
       current_epoch_target_participating_balance = 0 \<rparr>"

definition clamp_balances :: "preset \<Rightarrow> statistics \<Rightarrow> statistics" where
  "clamp_balances P stats =
     \<lparr> previous_epoch_source_participating_balance =
         clamp_balance P (previous_epoch_source_participating_balance stats),
       previous_epoch_target_participating_balance =
         clamp_balance P (previous_epoch_target_participating_balance stats),
       previous_epoch_head_participating_balance =
         clamp_balance P (previous_epoch_head_participating_balance stats),
       current_epoch_target_participating_balance =
         clamp_balance P (current_epoch_target_participating_balance stats) \<rparr>"

definition previous_epoch_matching_source :: "participation \<Rightarrow> bool" where
  "previous_epoch_matching_source p = bit (part_previous p) TIMELY_SOURCE_FLAG_INDEX"

definition previous_epoch_matching_target :: "participation \<Rightarrow> bool" where
  "previous_epoch_matching_target p = bit (part_previous p) TIMELY_TARGET_FLAG_INDEX"

definition previous_epoch_matching_head :: "participation \<Rightarrow> bool" where
  "previous_epoch_matching_head p = bit (part_previous p) TIMELY_HEAD_FLAG_INDEX"

definition current_epoch_matching_target :: "participation \<Rightarrow> bool" where
  "current_epoch_matching_target p = bit (part_current p) TIMELY_TARGET_FLAG_INDEX"

text \<open>A balance that is increased only if a condition holds.\<close>

definition add_if :: "bool \<Rightarrow> gwei \<Rightarrow> gwei \<Rightarrow> gwei res" where
  "add_if c balance amount = (if c then try_add balance amount else Ok balance)"

definition add_participating ::
  "bool \<Rightarrow> bool \<Rightarrow> gwei \<Rightarrow> participation \<Rightarrow> statistics \<Rightarrow> statistics res" where
  "add_participating active_in_previous active_in_current effective_balance p stats =
     and_then (add_if (active_in_previous \<and> previous_epoch_matching_source p)
        (previous_epoch_source_participating_balance stats) effective_balance) (\<lambda>source.
     and_then (add_if (active_in_previous \<and> previous_epoch_matching_target p)
        (previous_epoch_target_participating_balance stats) effective_balance) (\<lambda>target.
     and_then (add_if (active_in_previous \<and> previous_epoch_matching_head p)
        (previous_epoch_head_participating_balance stats) effective_balance) (\<lambda>head.
     and_then (add_if (active_in_current \<and> current_epoch_matching_target p)
        (current_epoch_target_participating_balance stats) effective_balance) (\<lambda>current_target.
     Ok \<lparr> previous_epoch_source_participating_balance = source,
          previous_epoch_target_participating_balance = target,
          previous_epoch_head_participating_balance = head,
          current_epoch_target_participating_balance = current_target \<rparr>))))"

text \<open>The body of the loop over the registry.\<close>

fun summarize ::
  "epoch \<Rightarrow> epoch \<Rightarrow> partial_validator \<times> gwei \<times> participation
    \<Rightarrow> statistics \<times> validator_summary list \<Rightarrow> (statistics \<times> validator_summary list) res" where
  "summarize current previous (validator, effective_balance, p) (stats, summaries) =
     (let active_in_previous = is_active_validator validator previous;
          active_in_current = is_active_validator validator current in
      and_then (is_eligible_for_penalties validator previous) (\<lambda>eligible.
      and_then (if \<not> pv_slashed validator
                then add_participating active_in_previous active_in_current effective_balance p stats
                else Ok stats) (\<lambda>stats.
      Ok (stats, summaries @
          [\<lparr> vs_effective_balance = effective_balance, vs_slashed = pv_slashed validator,
             vs_withdrawable_epoch = pv_withdrawable_epoch validator,
             vs_active_in_previous_epoch = active_in_previous,
             vs_eligible_for_penalties = eligible \<rparr>]))))"

definition statistics_and_summaries ::
  "preset \<Rightarrow> beacon_state \<Rightarrow> (statistics \<times> validator_summary list \<times> participation list) res" where
  "statistics_and_summaries P state =
     and_then (combined_participation state) (\<lambda>participation.
     and_then (try_fold (summarize (get_current_epoch P state) (get_previous_epoch P state))
        (zip (vl_partial_validators (validators state))
           (zip (vl_effective_balances (validators state)) participation))
        (statistics_default, [])) (\<lambda>(stats, summaries).
     Ok (clamp_balances P stats, summaries, participation)))"

text \<open>
  \<open>statistics\<close>, which serves fork choice and the metrics, computes the balances in a loop of its
  own, from the two participation lists and without building summaries.
\<close>

fun add_statistics ::
  "epoch \<Rightarrow> epoch \<Rightarrow> partial_validator \<times> gwei \<times> participation_flags \<times> participation_flags
    \<Rightarrow> statistics \<Rightarrow> statistics res" where
  "add_statistics current previous (validator, effective_balance, previous_flags, current_flags) stats =
     (let active_in_previous = is_active_validator validator previous;
          active_in_current = is_active_validator validator current in
      and_then
        (if active_in_previous then
           and_then (add_if (bit previous_flags TIMELY_SOURCE_FLAG_INDEX)
              (previous_epoch_source_participating_balance stats) effective_balance) (\<lambda>source.
           and_then (add_if (bit previous_flags TIMELY_TARGET_FLAG_INDEX)
              (previous_epoch_target_participating_balance stats) effective_balance) (\<lambda>target.
           and_then (add_if (bit previous_flags TIMELY_HEAD_FLAG_INDEX)
              (previous_epoch_head_participating_balance stats) effective_balance) (\<lambda>head.
           Ok (stats\<lparr> previous_epoch_source_participating_balance := source,
                      previous_epoch_target_participating_balance := target,
                      previous_epoch_head_participating_balance := head \<rparr>))))
         else Ok stats) (\<lambda>stats.
      and_then (add_if (active_in_current \<and> bit current_flags TIMELY_TARGET_FLAG_INDEX)
         (current_epoch_target_participating_balance stats) effective_balance) (\<lambda>current_target.
      Ok (stats\<lparr> current_epoch_target_participating_balance := current_target \<rparr>))))"

definition epoch_statistics :: "preset \<Rightarrow> beacon_state \<Rightarrow> statistics res" where
  "epoch_statistics P state =
     map_ok (clamp_balances P)
       (try_fold (add_statistics (get_current_epoch P state) (get_previous_epoch P state))
          (filter (\<lambda>(validator, _). \<not> pv_slashed validator)
             (zip (vl_partial_validators (validators state))
                (zip (vl_effective_balances (validators state))
                   (zip (previous_epoch_participation state) (current_epoch_participation state)))))
          statistics_default)"

subsection \<open>Rewards and penalties\<close>

record 'd deltas_impl =
  deltas_default :: 'd
  add_source_reward :: "'d \<Rightarrow> gwei \<Rightarrow> 'd res"
  add_source_penalty :: "'d \<Rightarrow> gwei \<Rightarrow> 'd res"
  add_target_reward :: "'d \<Rightarrow> gwei \<Rightarrow> 'd res"
  add_target_penalty :: "'d \<Rightarrow> gwei \<Rightarrow> 'd res"
  add_head_reward :: "'d \<Rightarrow> gwei \<Rightarrow> 'd res"
  add_inactivity_penalty :: "'d \<Rightarrow> gwei \<Rightarrow> 'd res"
  combined_reward :: "'d \<Rightarrow> gwei res"
  combined_penalty :: "'d \<Rightarrow> gwei res"

record deltas_for_transition =
  dt_reward :: gwei
  dt_penalty :: gwei

definition transition_add_reward ::
  "deltas_for_transition \<Rightarrow> gwei \<Rightarrow> deltas_for_transition res" where
  "transition_add_reward d v = map_ok (\<lambda>r. d\<lparr> dt_reward := r \<rparr>) (try_add (dt_reward d) v)"

definition transition_add_penalty ::
  "deltas_for_transition \<Rightarrow> gwei \<Rightarrow> deltas_for_transition res" where
  "transition_add_penalty d v = map_ok (\<lambda>p. d\<lparr> dt_penalty := p \<rparr>) (try_add (dt_penalty d) v)"

definition for_transition :: "deltas_for_transition deltas_impl" where
  "for_transition =
     \<lparr> deltas_default = \<lparr> dt_reward = 0, dt_penalty = 0 \<rparr>,
       add_source_reward = transition_add_reward,
       add_source_penalty = transition_add_penalty,
       add_target_reward = transition_add_reward,
       add_target_penalty = transition_add_penalty,
       add_head_reward = transition_add_reward,
       add_inactivity_penalty = transition_add_penalty,
       combined_reward = (\<lambda>d. Ok (dt_reward d)),
       combined_penalty = (\<lambda>d. Ok (dt_penalty d)) \<rparr>"

record deltas_for_report =
  dr_source_reward :: gwei
  dr_source_penalty :: gwei
  dr_target_reward :: gwei
  dr_target_penalty :: gwei
  dr_head_reward :: gwei
  dr_inactivity_penalty :: gwei

definition report_combined_reward :: "deltas_for_report \<Rightarrow> gwei res" where
  "report_combined_reward d =
     and_then (try_add (dr_source_reward d) (dr_target_reward d)) (\<lambda>r. try_add r (dr_head_reward d))"

definition report_combined_penalty :: "deltas_for_report \<Rightarrow> gwei res" where
  "report_combined_penalty d =
     and_then (try_add (dr_source_penalty d) (dr_target_penalty d)) (\<lambda>p.
     try_add p (dr_inactivity_penalty d))"

definition for_report :: "deltas_for_report deltas_impl" where
  "for_report =
     \<lparr> deltas_default =
         \<lparr> dr_source_reward = 0, dr_source_penalty = 0, dr_target_reward = 0, dr_target_penalty = 0,
           dr_head_reward = 0, dr_inactivity_penalty = 0 \<rparr>,
       add_source_reward =
         (\<lambda>d v. map_ok (\<lambda>x. d\<lparr> dr_source_reward := x \<rparr>) (try_add (dr_source_reward d) v)),
       add_source_penalty =
         (\<lambda>d v. map_ok (\<lambda>x. d\<lparr> dr_source_penalty := x \<rparr>) (try_add (dr_source_penalty d) v)),
       add_target_reward =
         (\<lambda>d v. map_ok (\<lambda>x. d\<lparr> dr_target_reward := x \<rparr>) (try_add (dr_target_reward d) v)),
       add_target_penalty =
         (\<lambda>d v. map_ok (\<lambda>x. d\<lparr> dr_target_penalty := x \<rparr>) (try_add (dr_target_penalty d) v)),
       add_head_reward =
         (\<lambda>d v. map_ok (\<lambda>x. d\<lparr> dr_head_reward := x \<rparr>) (try_add (dr_head_reward d) v)),
       add_inactivity_penalty =
         (\<lambda>d v. map_ok (\<lambda>x. d\<lparr> dr_inactivity_penalty := x \<rparr>) (try_add (dr_inactivity_penalty d) v)),
       combined_reward = report_combined_reward,
       combined_penalty = report_combined_penalty \<rparr>"

text \<open>
  The values that are computed once for all validators.
\<close>

record deltas_context =
  dx_leak :: bool
  dx_base_reward_per_increment :: gwei
  dx_source_increments :: nat
  dx_target_increments :: nat
  dx_head_increments :: nat
  dx_active_increments :: nat

definition participation_component_reward ::
  "deltas_context \<Rightarrow> gwei \<Rightarrow> nat \<Rightarrow> nat \<Rightarrow> gwei res" where
  "participation_component_reward cx base_reward weight increments =
     and_then (try_mul base_reward weight) (\<lambda>n.
     and_then (try_mul n increments) (\<lambda>reward_numerator.
     and_then (try_mul (dx_active_increments cx) WEIGHT_DENOMINATOR) (\<lambda>reward_denominator.
     try_div reward_numerator reward_denominator)))"

definition participation_component_penalty :: "gwei \<Rightarrow> nat \<Rightarrow> gwei res" where
  "participation_component_penalty base_reward weight =
     map_ok (\<lambda>n. n div WEIGHT_DENOMINATOR) (try_mul base_reward weight)"

definition inactivity_penalty :: "config \<Rightarrow> preset \<Rightarrow> gwei \<Rightarrow> nat \<Rightarrow> gwei res" where
  "inactivity_penalty config P effective_balance inactivity_score =
     and_then (try_mul effective_balance inactivity_score) (\<lambda>penalty_numerator.
     and_then (nonzero_try_mul (cfg_inactivity_score_bias config)
        (INACTIVITY_PENALTY_QUOTIENT_BELLATRIX P)) (\<lambda>penalty_denominator.
     Ok (penalty_numerator div penalty_denominator)))"

definition source_deltas ::
  "'d deltas_impl \<Rightarrow> deltas_context \<Rightarrow> bool \<Rightarrow> participation \<Rightarrow> gwei \<Rightarrow> 'd \<Rightarrow> 'd res" where
  "source_deltas D cx slashed p base_reward deltas =
     (if \<not> slashed \<and> previous_epoch_matching_source p then
        if \<not> dx_leak cx then
          and_then (participation_component_reward cx base_reward TIMELY_SOURCE_WEIGHT
             (dx_source_increments cx)) (add_source_reward D deltas)
        else Ok deltas
      else
        and_then (participation_component_penalty base_reward TIMELY_SOURCE_WEIGHT)
          (add_source_penalty D deltas))"

definition target_deltas ::
  "'d deltas_impl \<Rightarrow> config \<Rightarrow> preset \<Rightarrow> deltas_context \<Rightarrow> bool \<Rightarrow> participation \<Rightarrow> gwei \<Rightarrow> gwei \<Rightarrow> nat
    \<Rightarrow> 'd \<Rightarrow> 'd res" where
  "target_deltas D config P cx slashed p base_reward effective_balance inactivity_score deltas =
     (if \<not> slashed \<and> previous_epoch_matching_target p then
        if \<not> dx_leak cx then
          and_then (participation_component_reward cx base_reward TIMELY_TARGET_WEIGHT
             (dx_target_increments cx)) (add_target_reward D deltas)
        else Ok deltas
      else
        and_then (participation_component_penalty base_reward TIMELY_TARGET_WEIGHT) (\<lambda>penalty.
        and_then (add_target_penalty D deltas penalty) (\<lambda>deltas.
        and_then (inactivity_penalty config P effective_balance inactivity_score)
          (add_inactivity_penalty D deltas))))"

definition head_deltas ::
  "'d deltas_impl \<Rightarrow> deltas_context \<Rightarrow> bool \<Rightarrow> participation \<Rightarrow> gwei \<Rightarrow> 'd \<Rightarrow> 'd res" where
  "head_deltas D cx slashed p base_reward deltas =
     (if \<not> slashed \<and> previous_epoch_matching_head p \<and> \<not> dx_leak cx then
        and_then (participation_component_reward cx base_reward TIMELY_HEAD_WEIGHT
           (dx_head_increments cx)) (add_head_reward D deltas)
      else Ok deltas)"

fun validator_deltas ::
  "'d deltas_impl \<Rightarrow> config \<Rightarrow> preset \<Rightarrow> deltas_context
    \<Rightarrow> validator_summary \<times> participation \<times> nat \<Rightarrow> 'd res" where
  "validator_deltas D config P cx (summary, p, inactivity_score) =
     (if \<not> vs_eligible_for_penalties summary then Ok (deltas_default D)
      else
        let effective_balance = vs_effective_balance summary;
            slashed = vs_slashed summary in
        and_then (compute_base_reward P effective_balance (dx_base_reward_per_increment cx)) (\<lambda>base_reward.
        and_then (source_deltas D cx slashed p base_reward (deltas_default D)) (\<lambda>deltas.
        and_then (target_deltas D config P cx slashed p base_reward effective_balance inactivity_score
           deltas) (\<lambda>deltas.
        head_deltas D cx slashed p base_reward deltas))))"

definition epoch_deltas ::
  "'d deltas_impl \<Rightarrow> env \<Rightarrow> config \<Rightarrow> preset \<Rightarrow> beacon_state \<Rightarrow> statistics
    \<Rightarrow> validator_summary list \<Rightarrow> participation list \<Rightarrow> 'd list res" where
  "epoch_deltas D E config P state stats summaries participation =
     and_then (is_in_inactivity_leak P state) (\<lambda>leak.
     and_then (get_base_reward_per_increment E P state) (\<lambda>base_reward_per_increment.
     let increment = EFFECTIVE_BALANCE_INCREMENT P in
     and_then (total_active_balance P state) (\<lambda>total.
     try_map (validator_deltas D config P
         \<lparr> dx_leak = leak, dx_base_reward_per_increment = base_reward_per_increment,
           dx_source_increments = previous_epoch_source_participating_balance stats div increment,
           dx_target_increments = previous_epoch_target_participating_balance stats div increment,
           dx_head_increments = previous_epoch_head_participating_balance stats div increment,
           dx_active_increments = total div increment \<rparr>)
       (zip summaries (zip participation (inactivity_scores state))))))"

subsection \<open>Summaries\<close>

definition with_participation ::
  "partial_validator \<times> gwei \<times> participation_flags \<times> participation_flags
    \<Rightarrow> partial_validator \<times> gwei \<times> participation" where
  "with_participation = (\<lambda>(v, b, p, c). (v, b, \<lparr> part_previous = p, part_current = c \<rparr>))"

lemma zip_with_participation:
  "zip vs (zip bs (map (\<lambda>(p, c). \<lparr> part_previous = p, part_current = c \<rparr>) ps)) =
     map with_participation (zip vs (zip bs ps))"
  by (simp add: zip_map2 with_participation_def case_prod_unfold)

lemma add_if_False [simp]: "add_if False balance amount = Ok balance"
  by (simp add: add_if_def)

lemma add_statistics_participating:
  "add_statistics current previous (v, b, p, c) stats =
     add_participating (is_active_validator v previous) (is_active_validator v current) b
       \<lparr> part_previous = p, part_current = c \<rparr> stats"
  by (cases stats; cases "is_active_validator v previous")
    (simp_all add: add_participating_def previous_epoch_matching_source_def
      previous_epoch_matching_target_def previous_epoch_matching_head_def
      current_epoch_matching_target_def and_then_assoc)

lemma summarize_statistics:
  "try_fold (summarize current previous) (map with_participation xs) (stats, sums) = Ok (stats', sums') \<Longrightarrow>
     try_fold (add_statistics current previous) (filter (\<lambda>(v, _). \<not> pv_slashed v) xs) stats = Ok stats'"
proof (induction xs arbitrary: stats sums)
  case (Cons x xs)
  obtain v b p c where x: "x = (v, b, p, c)" by (metis prod_cases4)
  from Cons.prems obtain mid sums1 where
    mid: "(if \<not> pv_slashed v then add_participating (is_active_validator v previous) (is_active_validator v current)
        b \<lparr> part_previous = p, part_current = c \<rparr> stats else Ok stats) = Ok mid"
    and rest: "try_fold (summarize current previous) (map with_participation xs) (mid, sums1) = Ok (stats', sums')"
    by (auto simp: x with_participation_def and_then_eq_Ok Let_def)
  show ?case using Cons.IH [OF rest] mid
    by (auto simp: x add_statistics_participating simp del: add_statistics.simps split: if_splits)
qed simp

text \<open>
  C38. The statistics that the state transition uses for justification and rewards and the ones
  computed in a separate loop for fork choice and the metrics are the same: whenever the transition
  computes its statistics, \<open>statistics\<close> returns exactly these balances.
\<close>

theorem statistics_agree:
  assumes "statistics_and_summaries P state = Ok (stats, summaries, parts)"
  shows "epoch_statistics P state = Ok stats"
  using assms
  by (auto simp: statistics_and_summaries_def epoch_statistics_def combined_participation_def
      and_then_eq_Ok zip_with_participation dest: summarize_statistics split: if_splits)

lemma summarize_length:
  "try_fold (summarize current previous) xs (stats, sums) = Ok (stats', sums') \<Longrightarrow>
     length sums' = length sums + length xs"
proof (induction xs arbitrary: stats sums)
  case (Cons x xs)
  obtain v b p where x: "x = (v, b, p)" by (metis prod_cases3)
  show ?case using Cons by (fastforce simp: x and_then_eq_Ok Let_def)
qed simp

lemma sample_statistics_and_summaries:
  "statistics_and_summaries sample_preset (sample_state 1\<lparr> previous_epoch_participation := [7] \<rparr>) =
     Ok (\<lparr> previous_epoch_source_participating_balance = 32000000000,
           previous_epoch_target_participating_balance = 32000000000,
           previous_epoch_head_participating_balance = 32000000000,
           current_epoch_target_participating_balance = 1000000000 \<rparr>,
         [\<lparr> vs_effective_balance = 32000000000, vs_slashed = False, vs_withdrawable_epoch = FAR_FUTURE_EPOCH,
            vs_active_in_previous_epoch = True, vs_eligible_for_penalties = True \<rparr>],
         [\<lparr> part_previous = 7, part_current = 0 \<rparr>])"
proof -
  have "vl_partial_validators (sample_registry 1) = [\<lparr> pv_withdrawal_credentials = 1 # replicate 31 0, pv_slashed = False,
               pv_activation_eligibility_epoch = 0, pv_activation_epoch = 0,
               pv_exit_epoch = FAR_FUTURE_EPOCH, pv_withdrawable_epoch = FAR_FUTURE_EPOCH \<rparr>]"
     "vl_effective_balances (sample_registry 1) = [32000000000]"
    by (simp_all add: vl_partial_validators_def vl_effective_balances_def sample_registry_def)
  then show ?thesis
    by (simp add: statistics_and_summaries_def combined_participation_def sample_state_def Let_def
        is_active_validator_def is_eligible_for_penalties_def add_participating_def add_if_def statistics_default_def
        clamp_balances_def clamp_balance_def get_current_epoch_def get_previous_epoch_def previous_epoch_def
        compute_epoch_at_slot_def previous_epoch_matching_source_def previous_epoch_matching_target_def
        previous_epoch_matching_head_def current_epoch_matching_target_def
        TIMELY_SOURCE_FLAG_INDEX_def TIMELY_TARGET_FLAG_INDEX_def TIMELY_HEAD_FLAG_INDEX_def
        arith_defs ok_or_def u64_bound_def FAR_FUTURE_EPOCH_def GENESIS_EPOCH_def bit_numeral_rec)
qed

theorem statistics_agree_witness:
  "epoch_statistics sample_preset (sample_state 1\<lparr> previous_epoch_participation := [7] \<rparr>) =
     Ok \<lparr> previous_epoch_source_participating_balance = 32000000000,
          previous_epoch_target_participating_balance = 32000000000,
          previous_epoch_head_participating_balance = 32000000000,
          current_epoch_target_participating_balance = 1000000000 \<rparr>"
  by (rule statistics_agree [OF sample_statistics_and_summaries])

subsection \<open>The two implementations of the deltas\<close>

text \<open>
  An implementation of the trait simulates \<open>for_transition\<close>: with \<open>rel\<close> relating deltas of the
  two, every addition that succeeds for the transition succeeds and keeps them related, and
  the combined values of related deltas are those of the transition.
\<close>

locale deltas_simulation =
  fixes D :: "'d deltas_impl" and rel :: "deltas_for_transition \<Rightarrow> 'd \<Rightarrow> bool"
  assumes rel_default: "rel (deltas_default for_transition) (deltas_default D)"
    and source_reward: "rel a d \<Longrightarrow> add_source_reward for_transition a v = Ok b \<Longrightarrow>
      \<exists>e. add_source_reward D d v = Ok e \<and> rel b e"
    and source_penalty: "rel a d \<Longrightarrow> add_source_penalty for_transition a v = Ok b \<Longrightarrow>
      \<exists>e. add_source_penalty D d v = Ok e \<and> rel b e"
    and target_reward: "rel a d \<Longrightarrow> add_target_reward for_transition a v = Ok b \<Longrightarrow>
      \<exists>e. add_target_reward D d v = Ok e \<and> rel b e"
    and target_penalty: "rel a d \<Longrightarrow> add_target_penalty for_transition a v = Ok b \<Longrightarrow>
      \<exists>e. add_target_penalty D d v = Ok e \<and> rel b e"
    and head_reward: "rel a d \<Longrightarrow> add_head_reward for_transition a v = Ok b \<Longrightarrow>
      \<exists>e. add_head_reward D d v = Ok e \<and> rel b e"
    and inactivity: "rel a d \<Longrightarrow> add_inactivity_penalty for_transition a v = Ok b \<Longrightarrow>
      \<exists>e. add_inactivity_penalty D d v = Ok e \<and> rel b e"
    and combined: "rel a d \<Longrightarrow> dt_reward a < u64_bound \<Longrightarrow> dt_penalty a < u64_bound \<Longrightarrow>
      combined_reward D d = Ok (dt_reward a) \<and> combined_penalty D d = Ok (dt_penalty a)"
begin

lemma source_step:
  "rel a d \<Longrightarrow> source_deltas for_transition cx sl p base a = Ok b \<Longrightarrow>
     \<exists>e. source_deltas D cx sl p base d = Ok e \<and> rel b e"
  by (auto simp: source_deltas_def and_then_eq_Ok split: if_splits dest: source_reward source_penalty)

lemma target_step:
  "rel a d \<Longrightarrow> target_deltas for_transition config P cx sl p base eb n a = Ok b \<Longrightarrow>
     \<exists>e. target_deltas D config P cx sl p base eb n d = Ok e \<and> rel b e"
  by (fastforce simp: target_deltas_def and_then_eq_Ok split: if_splits
      dest: target_reward target_penalty inactivity)

lemma head_step:
  "rel a d \<Longrightarrow> head_deltas for_transition cx sl p base a = Ok b \<Longrightarrow>
     \<exists>e. head_deltas D cx sl p base d = Ok e \<and> rel b e"
  by (auto simp: head_deltas_def and_then_eq_Ok split: if_splits dest: head_reward)

lemma simulates:
  assumes "validator_deltas for_transition config P cx x = Ok a"
  shows "\<exists>d. validator_deltas D config P cx x = Ok d \<and> rel a d"
proof -
  obtain s p n where x: "x = (s, p, n)" by (metis prod_cases3)
  show ?thesis
  proof (cases "vs_eligible_for_penalties s")
    case False
    then show ?thesis using assms x rel_default by simp
  next
    case True
    with assms x obtain base a1 a2
      where "compute_base_reward P (vs_effective_balance s) (dx_base_reward_per_increment cx) = Ok base"
        "source_deltas for_transition cx (vs_slashed s) p base (deltas_default for_transition) = Ok a1"
        "target_deltas for_transition config P cx (vs_slashed s) p base (vs_effective_balance s) n a1 = Ok a2"
        "head_deltas for_transition cx (vs_slashed s) p base a2 = Ok a"
      by (auto simp: and_then_eq_Ok Let_def)
    moreover from this obtain d1 d2 d
      where "source_deltas D cx (vs_slashed s) p base (deltas_default D) = Ok d1"
        "target_deltas D config P cx (vs_slashed s) p base (vs_effective_balance s) n d1 = Ok d2"
        "head_deltas D cx (vs_slashed s) p base d2 = Ok d" "rel a d"
      by (meson rel_default source_step target_step head_step)
    ultimately show ?thesis using x True by (simp add: Let_def)
  qed
qed

lemma simulates_all:
  "epoch_deltas for_transition E config P state stats summaries parts = Ok as \<Longrightarrow>
     \<exists>ds. epoch_deltas D E config P state stats summaries parts = Ok ds \<and> list_all2 rel as ds"
proof -
  have "try_map (validator_deltas for_transition config P cx) xs = Ok as \<Longrightarrow>
      \<exists>ds. try_map (validator_deltas D config P cx) xs = Ok ds \<and> list_all2 rel as ds" for cx xs as
  proof (induction xs arbitrary: as)
    case (Cons x xs)
    then show ?case by (fastforce simp: and_then_eq_Ok simp del: validator_deltas.simps dest: simulates)
  qed simp
  then show "epoch_deltas for_transition E config P state stats summaries parts = Ok as \<Longrightarrow> ?thesis"
    unfolding epoch_deltas_def Let_def
    by (elim and_then_OkE) (simp del: validator_deltas.simps)
qed

end


definition report_rel :: "deltas_for_transition \<Rightarrow> deltas_for_report \<Rightarrow> bool" where
  "report_rel a d \<longleftrightarrow>
     dt_reward a = dr_source_reward d + dr_target_reward d + dr_head_reward d
     \<and> dt_penalty a = dr_source_penalty d + dr_target_penalty d + dr_inactivity_penalty d"

interpretation report_deltas: deltas_simulation for_report report_rel
  by unfold_locales
    (auto simp: report_rel_def for_transition_def for_report_def transition_add_reward_def
      transition_add_penalty_def report_combined_reward_def report_combined_penalty_def
      res_simps)

definition small_deltas :: "deltas_for_transition \<Rightarrow> bool" where
  "small_deltas a \<longleftrightarrow> dt_reward a < u64_bound \<and> dt_penalty a < u64_bound"

lemma transition_small_default: "small_deltas (deltas_default for_transition)"
  by (simp add: small_deltas_def for_transition_def u64_bound_def)

lemma transition_small:
  "small_deltas a \<Longrightarrow> source_deltas for_transition cx sl p base a = Ok b \<Longrightarrow> small_deltas b"
  "small_deltas a \<Longrightarrow> target_deltas for_transition config P cx sl p base eb n a = Ok b \<Longrightarrow> small_deltas b"
  "small_deltas a \<Longrightarrow> head_deltas for_transition cx sl p base a = Ok b \<Longrightarrow> small_deltas b"
  by (auto simp: small_deltas_def source_deltas_def target_deltas_def head_deltas_def for_transition_def
      transition_add_reward_def transition_add_penalty_def res_simps split: if_splits)

lemma transition_deltas_small:
  "validator_deltas for_transition config P cx x = Ok a \<Longrightarrow> small_deltas a"
  by (cases x)
    (auto simp: and_then_eq_Ok transition_small_default Let_def split: if_splits
      elim!: transition_small [rotated])

text \<open>
  C37. The rewards and penalties shown in an epoch report are those that the state transition
  applies: when the deltas for the transition are computed without an error, so are those for
  the report, validator by validator, and the combined reward and the combined penalty of the
  report are the two numbers of the transition.
\<close>

theorem report_deltas_agree:
  assumes "epoch_deltas for_transition E config P state stats summaries parts = Ok as"
  shows "\<exists>ds. epoch_deltas for_report E config P state stats summaries parts = Ok ds
    \<and> length ds = length as
    \<and> (\<forall>i < length as. combined_reward for_report (ds ! i) = combined_reward for_transition (as ! i)
        \<and> combined_penalty for_report (ds ! i) = combined_penalty for_transition (as ! i))"
proof -
  obtain ds where ds: "epoch_deltas for_report E config P state stats summaries parts = Ok ds"
      "list_all2 report_rel as ds"
    using report_deltas.simulates_all [OF assms] by blast
  obtain cx xs where "try_map (validator_deltas for_transition config P cx) xs = Ok as"
    using assms unfolding epoch_deltas_def Let_def by (elim and_then_OkE)
  then have "small_deltas (as ! i)" if "i < length as" for i
    using that try_map_nth try_map_length transition_deltas_small by metis
  then have "combined_reward for_report (ds ! i) = combined_reward for_transition (as ! i)
      \<and> combined_penalty for_report (ds ! i) = combined_penalty for_transition (as ! i)"
    if "i < length as" for i
    using report_deltas.combined [of "as ! i" "ds ! i"] list_all2_nthD [OF ds(2) that] that
    by (simp add: for_transition_def small_deltas_def)
  then show ?thesis using ds list_all2_lengthD [OF ds(2)] by auto
qed

definition sample_summary :: validator_summary where
  "sample_summary =
     \<lparr> vs_effective_balance = 32000000000, vs_slashed = False, vs_withdrawable_epoch = FAR_FUTURE_EPOCH,
       vs_active_in_previous_epoch = True, vs_eligible_for_penalties = True \<rparr>"

definition sample_statistics :: statistics where
  "sample_statistics =
     \<lparr> previous_epoch_source_participating_balance = 256000000000,
       previous_epoch_target_participating_balance = 256000000000,
       previous_epoch_head_participating_balance = 256000000000,
       current_epoch_target_participating_balance = 256000000000 \<rparr>"

definition sample_finalizing :: beacon_state where
  "sample_finalizing = (sample_state 8)\<lparr> finalized_checkpoint := \<lparr> cp_epoch = 6, cp_root = replicate 32 0 \<rparr> \<rparr>"

lemma sample_finalizing_total: "total_active_balance sample_preset sample_finalizing = Ok 256000000000"
proof -
  have "total_active_balance sample_preset sample_finalizing = total_active_balance sample_preset (sample_state 8)"
    by (simp add: sample_finalizing_def total_active_balance_def get_current_epoch_def)
  then show ?thesis
    using sample_total_active_balance [of 8] by (simp add: sample_total_active_balance_preset)
qed

lemmas sample_delta_defs =
  is_in_inactivity_leak_def get_finality_delay_def get_previous_epoch_def previous_epoch_def
  get_current_epoch_def compute_epoch_at_slot_def get_base_reward_per_increment_def
  compute_base_reward_def source_deltas_def target_deltas_def head_deltas_def
  participation_component_reward_def participation_component_penalty_def inactivity_penalty_def
  previous_epoch_matching_source_def previous_epoch_matching_target_def
  previous_epoch_matching_head_def TIMELY_SOURCE_FLAG_INDEX_def TIMELY_TARGET_FLAG_INDEX_def
  TIMELY_HEAD_FLAG_INDEX_def TIMELY_SOURCE_WEIGHT_def TIMELY_TARGET_WEIGHT_def TIMELY_HEAD_WEIGHT_def
  WEIGHT_DENOMINATOR_def

lemma sample_epoch_deltas:
  "epoch_deltas for_transition (sample_env\<lparr> ev_sqrt := \<lambda>_. 505964 \<rparr>) config_minimal sample_preset sample_finalizing
     sample_statistics [sample_summary, sample_summary\<lparr> vs_slashed := True \<rparr>]
     [\<lparr> part_previous = 7, part_current = 0 \<rparr>, \<lparr> part_previous = 7, part_current = 0 \<rparr>]
   = Ok [\<lparr> dt_reward = 3415257, dt_penalty = 0 \<rparr>, \<lparr> dt_reward = 0, dt_penalty = 2529820 \<rparr>]"
proof -
  have "inactivity_scores sample_finalizing = 0 # 0 # replicate 6 0"
    by (simp add: sample_finalizing_def sample_state_def flip: replicate_Suc)
  moreover have "cp_epoch (finalized_checkpoint sample_finalizing) = 6" "slot sample_finalizing = 70"
    by (simp_all add: sample_finalizing_def sample_state_def)
  moreover have "MIN_EPOCHS_TO_INACTIVITY_PENALTY sample_preset = 4" "BASE_REWARD_FACTOR sample_preset = 64"
    "INACTIVITY_PENALTY_QUOTIENT_BELLATRIX sample_preset = 16777216"
    "cfg_inactivity_score_bias config_minimal = 4"
    by (simp_all add: sample_preset_def MinimalPreset_def MainnetPreset_def config_minimal_def config_default_def)
  ultimately show ?thesis
    by (simp add: epoch_deltas_def sample_delta_defs sample_finalizing_total sample_summary_def sample_statistics_def
        for_transition_def transition_add_reward_def transition_add_penalty_def arith_defs ok_or_def u64_bound_def
        GENESIS_EPOCH_def bit_numeral_rec)
qed

theorem report_deltas_agree_witness:
  "\<exists>ds. epoch_deltas for_report (sample_env\<lparr> ev_sqrt := \<lambda>_. 505964 \<rparr>) config_minimal sample_preset sample_finalizing
      sample_statistics [sample_summary, sample_summary\<lparr> vs_slashed := True \<rparr>]
      [\<lparr> part_previous = 7, part_current = 0 \<rparr>, \<lparr> part_previous = 7, part_current = 0 \<rparr>] = Ok ds
    \<and> combined_reward for_report (ds ! 0) = Ok 3415257 \<and> combined_penalty for_report (ds ! 1) = Ok 2529820"
  using report_deltas_agree [OF sample_epoch_deltas] by (auto simp: for_transition_def)

end
