(* ===== verification/Bit_Vector.thy ===== *)
theory Bit_Vector
  imports Ssz_List
begin

unbundle bit_operations_syntax

text \<open>
  Bit vectors of a fixed size (\<open>ssz/src/bit_vector.rs\<close>).  The source stores \<open>N\<close> bits in
  \<open>(N + 7) / 8\<close> bytes and reads and writes single bits with the crate \<open>bit_field\<close>, whose functions
  on arrays are the parameters \<open>gb\<close> and \<open>sb\<close> here.  The model of the state transition uses lists of
  booleans with the operations \<open>bits_index\<close>, \<open>bits_range\<close>, \<open>bits_set\<close> and \<open>bits_shift_up\<close>; the
  operations on bytes refine them.
\<close>

subsection \<open>Operations on bytes\<close>

type_synonym get_bit_fn = "bytes \<Rightarrow> nat \<Rightarrow> bool"
type_synonym set_bit_fn = "bytes \<Rightarrow> nat \<Rightarrow> bool \<Rightarrow> bytes"

definition bv_get :: "get_bit_fn \<Rightarrow> nat \<Rightarrow> bytes \<Rightarrow> nat \<Rightarrow> bool option" where
  "bv_get gb N bs index = (if index < N then Some (gb bs index) else None)"

definition bv_index :: "get_bit_fn \<Rightarrow> nat \<Rightarrow> bytes \<Rightarrow> nat \<Rightarrow> bool res" where
  "bv_index gb N bs index = expect (bv_get gb N bs index)"

text \<open>\<open>Range::all\<close> stops at the first bit that is not set.\<close>

fun all_rs :: "(nat \<Rightarrow> bool res) \<Rightarrow> nat list \<Rightarrow> bool res" where
  "all_rs f [] = Ok True"
| "all_rs f (i # is) = and_then (f i) (\<lambda>b. if b then all_rs f is else Ok False)"

definition bv_range :: "get_bit_fn \<Rightarrow> nat \<Rightarrow> bytes \<Rightarrow> nat \<Rightarrow> nat \<Rightarrow> bool res" where
  "bv_range gb N bs start stop = all_rs (bv_index gb N bs) [start..<stop]"

definition bv_any :: "bytes \<Rightarrow> bool" where
  "bv_any bs = list_ex (\<lambda>b. 0 < b) bs"

definition bv_none :: "bytes \<Rightarrow> bool" where
  "bv_none bs = list_all (\<lambda>b. b = 0) bs"

definition bv_is_subset_of :: "bytes \<Rightarrow> bytes \<Rightarrow> bool" where
  "bv_is_subset_of bs other = list_all (\<lambda>(b, c). b AND NOT c = 0) (zip bs other)"

definition bv_set :: "set_bit_fn \<Rightarrow> nat \<Rightarrow> bytes \<Rightarrow> nat \<Rightarrow> bool \<Rightarrow> bytes res" where
  "bv_set sb N bs index v = and_then (assert_rs (index < N)) (\<lambda>_. Ok (sb bs index v))"

text \<open>
  The loop of \<open>shift_up_by_1\<close> over all bytes but the last, which is masked; indexing the last byte
  panics if there are no bytes.
\<close>

fun shift_loop :: "byte \<Rightarrow> byte \<Rightarrow> bytes \<Rightarrow> bytes res" where
  "shift_loop last_mask carry [] = Panic"
| "shift_loop last_mask carry [old] = Ok [(push_bit 1 old OR carry) AND last_mask]"
| "shift_loop last_mask carry (old # b # bs) =
     and_then (shift_loop last_mask (drop_bit 7 old) (b # bs)) (\<lambda>rest.
     Ok ((push_bit 1 old OR carry) # rest))"

definition bv_shift_up_by_1 :: "nat \<Rightarrow> bytes \<Rightarrow> bytes res" where
  "bv_shift_up_by_1 N bs =
     (let last_byte_mask = drop_bit (N mod 8) (NOT 0)
      in shift_loop last_byte_mask 0 bs)"

text \<open>
  \<open>validate_length\<close> on the bytes of a serialized vector; \<open>leading_zeros\<close> is the number of unset
  bits above the highest set one.
\<close>

definition leading_zeros :: "byte \<Rightarrow> nat" where
  "leading_zeros b = (if b = 0 then 8 else 7 - ilog2_nat (unat b))"

definition bv_validate_length :: "nat \<Rightarrow> bytes \<Rightarrow> unit res" where
  "bv_validate_length N bs =
     (if bs = [] then Panic
      else
        let bits_in_last_byte_lower_bound = saturating_sub 8 (leading_zeros (last bs));
            actual = saturating_add (saturating_mul (saturating_sub (length bs) 1) 8)
              bits_in_last_byte_lower_bound
        in if N < actual then Err (Read (BitVectorTooLong N actual)) else Ok ())"

subsection \<open>Operations on lists of booleans\<close>

definition bits_index :: "bool list \<Rightarrow> nat \<Rightarrow> bool res" where
  "bits_index bits index = nth_rs bits index"

definition bits_range :: "bool list \<Rightarrow> nat \<Rightarrow> nat \<Rightarrow> bool res" where
  "bits_range bits start stop = all_rs (bits_index bits) [start..<stop]"

definition bits_set :: "bool list \<Rightarrow> nat \<Rightarrow> bool \<Rightarrow> bool list res" where
  "bits_set bits index v = and_then (assert_rs (index < length bits)) (\<lambda>_. Ok (bits[index := v]))"

definition bits_shift_up :: "bool list \<Rightarrow> bool list" where
  "bits_shift_up bits = take (length bits) (False # bits)"

lemma bits_range_Ok:
  "stop \<le> length bits \<Longrightarrow> bits_range bits start stop = Ok (\<forall>i. start \<le> i \<and> i < stop \<longrightarrow> bits ! i)"
proof (induction "stop - start" arbitrary: start)
  case 0
  then show ?case by (auto simp: bits_range_def)
next
  case (Suc n)
  then have "[start..<stop] = start # [Suc start..<stop]" by (simp add: upt_conv_Cons)
  moreover have "bits_range bits (Suc start) stop = Ok (\<forall>i. Suc start \<le> i \<and> i < stop \<longrightarrow> bits ! i)"
    using Suc by simp
  ultimately show ?case
    using Suc.hyps(2) Suc.prems by (auto simp: bits_range_def bits_index_def Suc_le_eq nth_rs_def dest: le_neq_implies_less)
qed

lemma length_bits_shift_up [simp]: "length (bits_shift_up bits) = length bits"
  by (simp add: bits_shift_up_def)

lemma nth_bits_shift_up:
  "i < length bits \<Longrightarrow> bits_shift_up bits ! i = (0 < i \<and> bits ! (i - 1))"
  by (cases i) (auto simp: bits_shift_up_def)

subsection \<open>Refinement\<close>

text \<open>
  What the crate documents of its functions on arrays of bytes: bit \<open>i\<close> is bit \<open>i mod 8\<close> of byte
  \<open>i div 8\<close>, counted from the least significant one, and setting a bit changes only this bit.
\<close>

definition byte_bit :: "bytes \<Rightarrow> nat \<Rightarrow> bool" where
  "byte_bit bs i = bit (bs ! (i div 8)) (i mod 8)"

definition lsb0_access :: "get_bit_fn \<Rightarrow> set_bit_fn \<Rightarrow> bool" where
  "lsb0_access gb sb \<longleftrightarrow>
     (\<forall>bs i. i < 8 * length bs \<longrightarrow> gb bs i = byte_bit bs i)
     \<and> (\<forall>bs i v. i < 8 * length bs \<longrightarrow> length (sb bs i v) = length bs
          \<and> (\<forall>j < 8 * length bs. byte_bit (sb bs i v) j = (if j = i then v else byte_bit bs j)))"

definition bv_ok :: "nat \<Rightarrow> bytes \<Rightarrow> bool" where
  "bv_ok N bs \<longleftrightarrow>
     length bs = (N + 7) div 8 \<and> (\<forall>i. N \<le> i \<and> i < 8 * length bs \<longrightarrow> \<not> byte_bit bs i)"

definition bv_bits :: "get_bit_fn \<Rightarrow> nat \<Rightarrow> bytes \<Rightarrow> bool list" where
  "bv_bits gb N bs = map (gb bs) [0..<N]"

lemma bit_byte_bound: "bit (b :: byte) j \<Longrightarrow> j < 8"
  by (auto dest: bit_imp_le_length simp: less_le)

lemma bit_shl: "j < 8 \<Longrightarrow> bit (push_bit 1 (b :: byte)) j = (0 < j \<and> bit b (j - 1))"
  by (auto simp: bit_push_bit_iff simp del: push_bit_Suc One_nat_def)

lemma shift_loop_length: "shift_loop last_mask carry bs = Ok cs \<Longrightarrow> length cs = length bs"
  by (induction last_mask carry bs arbitrary: cs rule: shift_loop.induct) (auto simp: res_simps)

lemma shift_loop_total: "bs \<noteq> [] \<Longrightarrow> \<exists>cs. shift_loop last_mask carry bs = Ok cs"
  by (induction last_mask carry bs rule: shift_loop.induct) auto

lemma shift_loop_bit:
  assumes "shift_loop last_mask carry bs = Ok cs" "\<forall>j > 0. \<not> bit carry j" "k < length bs" "j < 8"
  shows "bit (cs ! k) j =
    ((if j = 0 then if k = 0 then bit carry 0 else bit (bs ! (k - 1)) 7 else bit (bs ! k) (j - 1))
     \<and> (k = length bs - 1 \<longrightarrow> bit last_mask j))"
  using assms
proof (induction last_mask carry bs arbitrary: cs k rule: shift_loop.induct)
  case (2 last_mask carry old)
  then show ?case
    by (auto simp: bit_and_iff bit_or_iff bit_shl simp del: push_bit_Suc One_nat_def)
next
  case (3 last_mask carry old b bs)
  then obtain rest where rest: "shift_loop last_mask (drop_bit 7 old) (b # bs) = Ok rest"
    and cs: "cs = (push_bit 1 old OR carry) # rest"
    by (auto simp: and_then_eq_Ok)
  have carry: "\<forall>j > 0. \<not> bit (drop_bit 7 old) j"
    using bit_byte_bound [of old] by (fastforce simp: bit_drop_bit_eq)
  show ?case
  proof (cases k)
    case 0
    then show ?thesis using 3(3,5) cs by (auto simp: bit_or_iff bit_shl simp del: push_bit_Suc One_nat_def)
  next
    case (Suc m)
    then show ?thesis
      using 3(1) [OF rest carry, of m] 3(4,5) cs by (cases m) (auto simp: bit_drop_bit_eq)
  qed
qed simp

lemma byte_index: "i < 8 * n \<longleftrightarrow> i div 8 < n" for i n :: nat
  by (simp add: less_mult_imp_div_less div_less_iff_less_mult mult.commute)

lemma divmod8: "r < 8 \<Longrightarrow> i = 8 * q + r \<Longrightarrow> i div 8 = q \<and> i mod 8 = r" for i q r :: nat
  by simp

lemma div8_pred: "i mod 8 = 0 \<Longrightarrow> 0 < i \<Longrightarrow> (i - 1) div 8 = i div 8 - 1 \<and> (i - 1) mod 8 = 7" for i :: nat
  using div_mult_mod_eq [of i 8] by (intro divmod8) auto

lemma div8_pred': "i mod 8 \<noteq> 0 \<Longrightarrow> 0 < i \<and> (i - 1) div 8 = i div 8 \<and> (i - 1) mod 8 = i mod 8 - 1" for i :: nat
  using div_mult_mod_eq [of i 8] divmod8 [of "i mod 8 - 1" "i - 1" "i div 8"] by auto

lemma bytes_of_bits: "N mod 8 = 4 \<Longrightarrow> N = 8 * ((N + 7) div 8 - 1) + 4" for N :: nat
  using div_mult_mod_eq [of N 8] divmod8 [of 3 "N + 7" "N div 8 + 1"] by auto

lemma bytes_of_whole: "N mod 8 = 0 \<Longrightarrow> 8 * ((N + 7) div 8) = N" for N :: nat
  using div_mult_mod_eq [of N 8] divmod8 [of 7 "N + 7" "N div 8"] by auto

lemma last_mask_bit: "m < 8 \<Longrightarrow> bit (mask (8 - m) :: byte) j = (m + j < 8)"
  by (auto simp: bit_mask_iff)

lemma shift_up_loop: "bv_shift_up_by_1 N bs = shift_loop (mask (8 - N mod 8)) 0 bs"
  by (simp add: bv_shift_up_by_1_def)

lemma shift_byte_bit:
  assumes "bv_shift_up_by_1 N bs = Ok cs" "i < 8 * length bs"
  shows "byte_bit cs i =
    (0 < i \<and> byte_bit bs (i - 1) \<and> (i div 8 = length bs - 1 \<longrightarrow> N mod 8 + i mod 8 < 8))"
proof -
  have "shift_loop (mask (8 - N mod 8)) 0 bs = Ok cs" using assms(1) by (simp add: shift_up_loop)
  then have "bit (cs ! (i div 8)) (i mod 8) =
      ((if i mod 8 = 0 then if i div 8 = 0 then bit (0 :: byte) 0 else bit (bs ! (i div 8 - 1)) 7
        else bit (bs ! (i div 8)) (i mod 8 - 1))
       \<and> (i div 8 = length bs - 1 \<longrightarrow> bit (mask (8 - N mod 8) :: byte) (i mod 8)))"
    by (rule shift_loop_bit) (use assms(2) in \<open>simp_all add: byte_index\<close>)
  then have *: "byte_bit cs i =
      ((if i mod 8 = 0 then i div 8 \<noteq> 0 \<and> bit (bs ! (i div 8 - 1)) 7 else bit (bs ! (i div 8)) (i mod 8 - 1))
       \<and> (i div 8 = length bs - 1 \<longrightarrow> N mod 8 + i mod 8 < 8))"
    by (simp add: byte_bit_def last_mask_bit)
  show ?thesis
  proof (cases "i mod 8 = 0")
    case True
    then have "i div 8 \<noteq> 0 \<longleftrightarrow> 0 < i" "0 < i \<longrightarrow> (i - 1) div 8 = i div 8 - 1 \<and> (i - 1) mod 8 = 7"
      using div8_pred [of i] by auto
    then show ?thesis using * True by (cases "0 < i") (simp_all add: byte_bit_def)
  next
    case False
    note div8_pred' [OF this]
    then show ?thesis using * False by (simp add: byte_bit_def)
  qed
qed

lemma bv_bits_nth:
  assumes "lsb0_access gb sb" "bv_ok N bs" "i < N"
  shows "bv_bits gb N bs ! i = byte_bit bs i"
proof -
  have "i < 8 * length bs" using assms(2,3) unfolding bv_ok_def by linarith
  then show ?thesis using assms by (simp add: bv_bits_def lsb0_access_def)
qed

lemma length_bv_bits [simp]: "length (bv_bits gb N bs) = N"
  by (simp add: bv_bits_def)

lemma shift_up_refines:
  assumes access: "lsb0_access gb sb" and ok: "bv_ok N bs" "0 < N" and N: "N mod 8 = 0 \<or> N mod 8 = 4"
  shows "\<exists>cs. bv_shift_up_by_1 N bs = Ok cs \<and> bv_ok N cs \<and> bv_bits gb N cs = bits_shift_up (bv_bits gb N bs)"
proof -
  have len: "length bs = (N + 7) div 8" "N \<le> 8 * length bs" using ok by (auto simp: bv_ok_def)
  then have "bs \<noteq> []" using ok(2) by auto
  then obtain cs where cs: "bv_shift_up_by_1 N bs = Ok cs"
    using shift_loop_total unfolding shift_up_loop by blast
  have lcs: "length cs = length bs" using cs shift_loop_length unfolding shift_up_loop by blast
  have keep: "N mod 8 + i mod 8 < 8" if "i < N" "i div 8 = length bs - 1" for i
  proof (cases "N mod 8 = 0")
    case False
    then have "N = 8 * (length bs - 1) + 4" "N mod 8 = 4" using N len(1) bytes_of_bits [of N] by auto
    then show ?thesis using that div_mult_mod_eq [of i 8] by linarith
  qed simp
  have drop: "\<not> byte_bit cs i" if i: "N \<le> i" "i < 8 * length bs" for i
  proof -
    have "N mod 8 \<noteq> 0" using i len(1) bytes_of_whole [of N] by auto
    then have *: "N mod 8 = 4" "N = 8 * (length bs - 1) + 4" using N len(1) bytes_of_bits [of N] by auto
    then have "i div 8 = length bs - 1" using i by (intro div_nat_eqI) auto
    moreover have "4 \<le> i mod 8" using calculation * i div_mult_mod_eq [of i 8] by linarith
    ultimately show ?thesis using shift_byte_bit [OF cs i(2)] *(1) by simp
  qed
  have okc: "bv_ok N cs" using drop lcs len(1) by (simp add: bv_ok_def)
  have "bv_bits gb N cs ! i = bits_shift_up (bv_bits gb N bs) ! i" if "i < N" for i
    using that shift_byte_bit [OF cs, of i] keep [OF that] len(2) bv_bits_nth [OF access ok(1)]
      bv_bits_nth [OF access okc] by (auto simp: nth_bits_shift_up)
  then have "bv_bits gb N cs = bits_shift_up (bv_bits gb N bs)" by (intro nth_equalityI) simp_all
  then show ?thesis using cs okc by blast
qed

lemma set_refines:
  assumes access: "lsb0_access gb sb" and ok: "bv_ok N bs" and i: "i < N"
  shows "\<exists>cs. bv_set sb N bs i v = Ok cs \<and> bv_ok N cs \<and> bits_set (bv_bits gb N bs) i v = Ok (bv_bits gb N cs)"
proof -
  have len: "i < 8 * length bs" "N \<le> 8 * length bs" using ok i by (auto simp: bv_ok_def)
  have sb: "length (sb bs i v) = length bs"
    "\<And>j. j < 8 * length bs \<Longrightarrow> byte_bit (sb bs i v) j = (if j = i then v else byte_bit bs j)"
    using access len(1) unfolding lsb0_access_def by blast+
  have okc: "bv_ok N (sb bs i v)" using ok i sb by (auto simp: bv_ok_def)
  have "(bv_bits gb N bs)[i := v] = bv_bits gb N (sb bs i v)"
    using bv_bits_nth [OF access ok] bv_bits_nth [OF access okc] sb len
    by (intro nth_equalityI) (auto simp: nth_list_update)
  then show ?thesis using okc i by (simp add: bv_set_def bits_set_def assert_rs_def)
qed

lemma index_refines: "bv_index gb N bs i = bits_index (bv_bits gb N bs) i"
  by (simp add: bv_index_def bv_get_def bits_index_def nth_rs_def bv_bits_def expect_def)

lemma range_refines: "bv_range gb N bs start stop = bits_range (bv_bits gb N bs) start stop"
proof -
  have "bv_index gb N bs = bits_index (bv_bits gb N bs)" using index_refines by blast
  then show ?thesis by (simp add: bv_range_def bits_range_def)
qed

text \<open>
  C39. The packed bit vector behaves as a list of \<open>N\<close> booleans for every size that is a multiple of
  eight or four more than one, such as the four justification bits: reading a bit or a range,
  setting a bit and shifting up by one agree with the list operations, panics included, and the
  unused bits of the last byte stay clear.
\<close>

theorem bit_vector_refines:
  assumes "lsb0_access gb sb" "bv_ok N bs" "0 < N" "N mod 8 = 0 \<or> N mod 8 = 4"
  shows "bv_range gb N bs start stop = bits_range (bv_bits gb N bs) start stop
    \<and> map_ok (bv_bits gb N) (bv_set sb N bs i v) = bits_set (bv_bits gb N bs) i v
    \<and> map_ok (bv_bits gb N) (bv_shift_up_by_1 N bs) = Ok (bits_shift_up (bv_bits gb N bs))
    \<and> (\<forall>cs. bv_set sb N bs i v = Ok cs \<or> bv_shift_up_by_1 N bs = Ok cs \<longrightarrow> bv_ok N cs)"
proof (intro conjI allI impI)
  show "bv_range gb N bs start stop = bits_range (bv_bits gb N bs) start stop" by (rule range_refines)
  show "map_ok (bv_bits gb N) (bv_set sb N bs i v) = bits_set (bv_bits gb N bs) i v"
    using set_refines [OF assms(1,2), of i v]
    by (cases "i < N") (auto simp: bv_set_def bits_set_def assert_rs_def)
  show "map_ok (bv_bits gb N) (bv_shift_up_by_1 N bs) = Ok (bits_shift_up (bv_bits gb N bs))"
    using shift_up_refines [OF assms] by auto
  show "bv_ok N cs" if "bv_set sb N bs i v = Ok cs \<or> bv_shift_up_by_1 N bs = Ok cs" for cs
    using that shift_up_refines [OF assms] set_refines [OF assms(1,2), of i v]
    by (cases "i < N") (auto simp: bv_set_def assert_rs_def)
qed

definition get_bit_lsb0 :: get_bit_fn where
  "get_bit_lsb0 bs i = byte_bit bs i"

definition set_bit_lsb0 :: set_bit_fn where
  "set_bit_lsb0 bs i v =
     bs[i div 8 := (if v then Bit_Operations.set_bit (i mod 8) (bs ! (i div 8))
                    else unset_bit (i mod 8) (bs ! (i div 8)))]"

lemma lsb0_access_std: "lsb0_access get_bit_lsb0 set_bit_lsb0"
proof -
  have "byte_bit (set_bit_lsb0 bs i v) j = (if j = i then v else byte_bit bs j)"
    if "i < 8 * length bs" "j < 8 * length bs" for bs i v j
  proof (cases "j div 8 = i div 8")
    case True
    moreover have "j = i \<longleftrightarrow> j mod 8 = i mod 8"
      using True by (metis div_mult_mod_eq)
    ultimately show ?thesis
      using that by (auto simp: byte_bit_def set_bit_lsb0_def byte_index bit_set_bit_iff bit_unset_bit_iff)
  next
    case False
    then show ?thesis using that by (auto simp: byte_bit_def set_bit_lsb0_def nth_list_update byte_index)
  qed
  then show ?thesis by (auto simp: lsb0_access_def get_bit_lsb0_def set_bit_lsb0_def)
qed

lemma sample_bv_ok: "bv_ok 4 [5]"
proof -
  have "\<not> bit (5 :: byte) i" if "4 \<le> i" "i < 8" for i
  proof -
    have "i = 4 \<or> i = 5 \<or> i = 6 \<or> i = 7" using that by linarith
    then show ?thesis by (elim disjE) (simp_all add: bit_numeral_rec)
  qed
  then show ?thesis by (auto simp: bv_ok_def byte_bit_def)
qed

theorem bit_vector_refines_witness:
  "map_ok (bv_bits get_bit_lsb0 4) (bv_shift_up_by_1 4 [5]) =
     Ok (bits_shift_up (bv_bits get_bit_lsb0 4 [5]))
   \<and> map_ok (bv_bits get_bit_lsb0 4) (bv_set set_bit_lsb0 4 [5] 1 True) =
       bits_set (bv_bits get_bit_lsb0 4 [5]) 1 True"
  using bit_vector_refines [OF lsb0_access_std sample_bv_ok] by simp

lemma partial_last_byte:
  assumes "bv_ok N bs" "N mod 8 \<noteq> 0"
  shows "N div 8 = length bs - 1" "N < 8 * length bs"
proof -
  have "length bs = N div 8 + 1"
    using assms div_mult_mod_eq [of N 8] divmod8 [of "N mod 8 - 1" "N + 7" "N div 8 + 1"] by (simp add: bv_ok_def)
  then show "N div 8 = length bs - 1" "N < 8 * length bs" by (simp_all add: byte_index)
qed

text \<open>
  C40. For all other sizes \<open>shift_up_by_1\<close> is wrong: its mask keeps the lowest \<open>8 - N mod 8\<close> bits of the
  last byte instead of the lowest \<open>N mod 8\<close>.  If \<open>N mod 8\<close> is below four, the bit that is shifted out
  of every vector stays behind as an unused bit, so that a vector without set bits is not \<open>none\<close>;
  if it is above four, the last bit of every shifted vector is lost.
\<close>

theorem shift_up_mask_wrong:
  assumes "bv_ok N bs" "0 < N"
  shows "\<exists>cs. bv_shift_up_by_1 N bs = Ok cs
    \<and> (N mod 8 \<in> {1, 2, 3} \<longrightarrow> byte_bit cs N = byte_bit bs (N - 1))
    \<and> (N mod 8 \<in> {5, 6, 7} \<longrightarrow> \<not> byte_bit cs (N - 1))"
proof -
  have "bs \<noteq> []" using assms by (auto simp: bv_ok_def)
  then obtain cs where cs: "bv_shift_up_by_1 N bs = Ok cs"
    using shift_loop_total unfolding shift_up_loop by blast
  have "byte_bit cs N = byte_bit bs (N - 1)" if "N mod 8 \<in> {1, 2, 3}"
  proof -
    have "N mod 8 \<noteq> 0" "N mod 8 + N mod 8 < 8" using that by auto
    then show ?thesis
      using shift_byte_bit [OF cs partial_last_byte(2) [OF assms(1)]] assms(2) by simp
  qed
  moreover have "\<not> byte_bit cs (N - 1)" if "N mod 8 \<in> {5, 6, 7}"
  proof -
    have r: "N mod 8 \<noteq> 0" "\<not> N mod 8 + N mod 8 - 1 < 8" using that by auto
    note last = partial_last_byte [OF assms(1) r(1)]
    then have "N - 1 < 8 * length bs" by simp
    from shift_byte_bit [OF cs this] show ?thesis using div8_pred' [OF r(1)] last(1) r(2) by simp
  qed
  ultimately show ?thesis using cs by blast
qed

lemma sample_bv_2: "bv_ok 2 [2]"
proof -
  have "\<not> bit (2 :: byte) i" if "2 \<le> i" for i
    using that bit_exp_iff [of 1 i, where 'a = byte] by simp
  then show ?thesis by (auto simp: bv_ok_def byte_bit_def)
qed

lemma sample_bv_6: "bv_ok 6 [16]"
proof -
  have "\<not> bit (16 :: byte) i" if "6 \<le> i" for i
    using that bit_exp_iff [of 4 i, where 'a = byte] by simp
  then show ?thesis by (auto simp: bv_ok_def byte_bit_def)
qed

theorem shift_up_mask_wrong_witness:
  "(\<exists>cs. bv_shift_up_by_1 2 [2] = Ok cs \<and> byte_bit cs 2 \<and> \<not> bv_ok 2 cs)
   \<and> (\<exists>cs. bv_shift_up_by_1 6 [16] = Ok cs \<and> byte_bit [16] 4 \<and> \<not> byte_bit cs 5)"
proof
  show "\<exists>cs. bv_shift_up_by_1 2 [2] = Ok cs \<and> byte_bit cs 2 \<and> \<not> bv_ok 2 cs"
    using shift_up_mask_wrong [OF sample_bv_2] by (auto simp: byte_bit_def bv_ok_def bit_numeral_rec intro!: exI [of _ 2])
  show "\<exists>cs. bv_shift_up_by_1 6 [16] = Ok cs \<and> byte_bit [16] 4 \<and> \<not> byte_bit cs 5"
    using shift_up_mask_wrong [OF sample_bv_6] by (auto simp: byte_bit_def bit_numeral_rec)
qed

end
