(* ===== verification/Epoch_Processing.thy ===== *)
theory Epoch_Processing
  imports Epoch_Intermediates Bit_Vector
begin

text \<open>
  Epoch processing of the Electra phase: \<open>transition_functions/src/electra/epoch_processing.rs\<close> and
  the functions it uses from \<open>altair/epoch_processing.rs\<close> and \<open>unphased/epoch_processing.rs\<close>.  The
  cache of the state is not part of the model, so \<open>advance_epoch\<close> has no counterpart.
\<close>

subsection \<open>Lists updated in place\<close>

text \<open>
  \<open>SszListMut::update\<close> with a closure that takes one item from an iterator per element, panics if
  there is none, and stops at the first error.  In \<open>zip_update_acc\<close> the closure also carries a
  state.
\<close>

fun zip_update_acc ::
  "('x \<Rightarrow> 'a \<Rightarrow> 's \<Rightarrow> ('a \<times> 's) res) \<Rightarrow> 'x list \<Rightarrow> 'a list \<Rightarrow> 's \<Rightarrow> ('a list \<times> 's) res" where
  "zip_update_acc f xs [] s = Ok ([], s)"
| "zip_update_acc f [] (a # as) s = Panic"
| "zip_update_acc f (x # xs) (a # as) s =
     and_then (f x a s) (\<lambda>(b, s). and_then (zip_update_acc f xs as s) (\<lambda>(bs, s). Ok (b # bs, s)))"

fun zip_update :: "('x \<Rightarrow> 'a \<Rightarrow> 'a res) \<Rightarrow> 'x list \<Rightarrow> 'a list \<Rightarrow> 'a list res" where
  "zip_update f xs [] = Ok []"
| "zip_update f [] (a # as) = Panic"
| "zip_update f (x # xs) (a # as) =
     and_then (f x a) (\<lambda>b. and_then (zip_update f xs as) (\<lambda>bs. Ok (b # bs)))"

subsection \<open>Justification and finalization\<close>

definition should_process_justification_and_finalization :: "preset \<Rightarrow> beacon_state \<Rightarrow> bool" where
  "should_process_justification_and_finalization P state \<longleftrightarrow>
     GENESIS_EPOCH + 1 < get_current_epoch P state"

definition justify_if_supermajority ::
  "preset \<Rightarrow> gwei \<Rightarrow> attestation_epoch \<Rightarrow> nat \<Rightarrow> gwei \<Rightarrow> beacon_state \<Rightarrow> beacon_state res" where
  "justify_if_supermajority P active_balance attestation_epoch bit_index target_balance state =
     and_then (try_mul target_balance 3) (\<lambda>lhs.
     and_then (try_mul active_balance 2) (\<lambda>rhs.
     if rhs \<le> lhs then
       and_then (expect_ok (get_block_root P state attestation_epoch)) (\<lambda>root.
       and_then (absolute_epoch P state (to_relative_epoch attestation_epoch)) (\<lambda>epoch.
       and_then (bits_set (justification_bits state) bit_index True) (\<lambda>bits.
       Ok (state\<lparr> current_justified_checkpoint := \<lparr> cp_epoch = epoch, cp_root = root \<rparr>,
             justification_bits := bits \<rparr>))))
     else Ok state))"

text \<open>One of the four conditions under which a checkpoint is finalized.\<close>

definition finalize_if ::
  "preset \<Rightarrow> nat \<Rightarrow> nat \<Rightarrow> checkpoint \<Rightarrow> nat \<Rightarrow> bool list \<Rightarrow> beacon_state \<Rightarrow> beacon_state res" where
  "finalize_if P start stop checkpoint distance bits state =
     and_then (bits_range bits start stop) (\<lambda>justified.
     if justified then
       and_then (try_add (cp_epoch checkpoint) distance) (\<lambda>epoch.
       Ok (if epoch = get_current_epoch P state then state\<lparr> finalized_checkpoint := checkpoint \<rparr>
           else state))
     else Ok state)"

definition weigh_justification_and_finalization ::
  "preset \<Rightarrow> beacon_state \<Rightarrow> gwei \<Rightarrow> gwei \<Rightarrow> gwei \<Rightarrow> beacon_state res" where
  "weigh_justification_and_finalization P state current_active previous_target current_target =
     (let old_previous = previous_justified_checkpoint state;
          old_current = current_justified_checkpoint state;
          state = state\<lparr> previous_justified_checkpoint := old_current,
                    justification_bits := bits_shift_up (justification_bits state) \<rparr> in
      and_then (justify_if_supermajority P current_active APrevious 1 previous_target state) (\<lambda>state.
      and_then (justify_if_supermajority P current_active ACurrent 0 current_target state) (\<lambda>state.
      let bits = justification_bits state in
      and_then (finalize_if P 1 4 old_previous 3 bits state) (\<lambda>state.
      and_then (finalize_if P 1 3 old_previous 2 bits state) (\<lambda>state.
      and_then (finalize_if P 0 3 old_current 2 bits state) (\<lambda>state.
      finalize_if P 0 2 old_current 1 bits state))))))"

definition process_justification_and_finalization ::
  "preset \<Rightarrow> beacon_state \<Rightarrow> statistics \<Rightarrow> beacon_state res" where
  "process_justification_and_finalization P state stats =
     (if \<not> should_process_justification_and_finalization P state then Ok state
      else
        and_then (total_active_balance P state) (\<lambda>active_balance.
        weigh_justification_and_finalization P state active_balance
          (previous_epoch_target_participating_balance stats)
          (current_epoch_target_participating_balance stats)))"

subsection \<open>Inactivity scores\<close>

definition should_process_inactivity_updates :: "preset \<Rightarrow> beacon_state \<Rightarrow> bool" where
  "should_process_inactivity_updates P state \<longleftrightarrow> GENESIS_EPOCH < get_current_epoch P state"

definition update_score ::
  "config \<Rightarrow> bool \<Rightarrow> validator_summary \<times> participation \<Rightarrow> nat \<Rightarrow> nat res" where
  "update_score config in_inactivity_leak = (\<lambda>(summary, p) score.
     if \<not> vs_eligible_for_penalties summary then Ok score
     else
       let unslashed_and_participating =
             (\<not> vs_slashed summary \<and> vs_active_in_previous_epoch summary
              \<and> previous_epoch_matching_target p) in
       and_then (if unslashed_and_participating then try_sub score (min score 1)
                 else try_add score (cfg_inactivity_score_bias config)) (\<lambda>score.
       if \<not> in_inactivity_leak
       then try_sub score (min score (cfg_inactivity_score_recovery_rate config))
       else Ok score))"

definition process_inactivity_updates ::
  "config \<Rightarrow> preset \<Rightarrow> beacon_state \<Rightarrow> validator_summary list \<Rightarrow> participation list \<Rightarrow> beacon_state res" where
  "process_inactivity_updates config P state summaries participation =
     (if \<not> should_process_inactivity_updates P state then Ok state
      else
        and_then (is_in_inactivity_leak P state) (\<lambda>leak.
        and_then (zip_update (update_score config leak) (zip summaries participation)
          (inactivity_scores state)) (\<lambda>scores.
        Ok (state\<lparr> inactivity_scores := scores \<rparr>))))"

subsection \<open>Rewards and penalties\<close>

definition should_process_rewards_and_penalties :: "preset \<Rightarrow> beacon_state \<Rightarrow> bool" where
  "should_process_rewards_and_penalties P state \<longleftrightarrow> GENESIS_EPOCH < get_current_epoch P state"

definition apply_delta :: "'d deltas_impl \<Rightarrow> 'd \<Rightarrow> gwei \<Rightarrow> gwei res" where
  "apply_delta D deltas balance =
     and_then (combined_reward D deltas) (\<lambda>reward.
     and_then (increase_balance balance reward) (\<lambda>balance.
     and_then (combined_penalty D deltas) (\<lambda>penalty.
     Ok (decrease_balance balance penalty))))"

definition process_rewards_and_penalties ::
  "'d deltas_impl \<Rightarrow> preset \<Rightarrow> beacon_state \<Rightarrow> 'd list \<Rightarrow> beacon_state res" where
  "process_rewards_and_penalties D P state deltas =
     (if \<not> should_process_rewards_and_penalties P state then Ok state
      else
        and_then (zip_update (apply_delta D) deltas (balances state)) (\<lambda>bs.
        Ok (state\<lparr> balances := bs \<rparr>)))"

subsection \<open>Registry updates\<close>

definition eject :: "config \<Rightarrow> preset \<Rightarrow> validator_index \<Rightarrow> beacon_state \<times> validator_summary list
    \<Rightarrow> (beacon_state \<times> validator_summary list) res" where
  "eject config P index = (\<lambda>(state, summaries).
     and_then (initiate_validator_exit config P state index) (\<lambda>state.
     and_then (nth_rs summaries index) (\<lambda>summary.
     and_then (vl_get (validators state) index) (\<lambda>validator.
     Ok (state, summaries[index := update_from summary validator])))))"

definition process_registry_updates ::
  "config \<Rightarrow> preset \<Rightarrow> beacon_state \<Rightarrow> validator_summary list
    \<Rightarrow> (beacon_state \<times> validator_summary list) res" where
  "process_registry_updates config P state summaries =
     (let current_epoch = get_current_epoch P state in
      and_then (get_next_epoch P state) (\<lambda>next_epoch.
      let rows = enumerate 0 (zip (vl_partial_validators (validators state))
            (vl_effective_balances (validators state)));
          eligible_for_activation_queue =
            map fst (filter (\<lambda>(_, validator, effective_balance).
              is_eligible_for_activation_queue P validator effective_balance) rows);
          ejections =
            map fst (filter (\<lambda>(_, validator, effective_balance).
              is_active_validator validator current_epoch
              \<and> effective_balance \<le> cfg_ejection_balance config) rows);
          activation_queue =
            map fst (filter (\<lambda>(_, validator, _). is_eligible_for_activation state validator) rows) in
      and_then (try_fold (\<lambda>index state. update_partial_validator state index
           (\<lambda>v. v\<lparr> pv_activation_eligibility_epoch := next_epoch \<rparr>))
         eligible_for_activation_queue state) (\<lambda>state.
      and_then (try_fold (eject config P) ejections (state, summaries)) (\<lambda>(state, summaries).
      and_then (compute_activation_exit_epoch P current_epoch) (\<lambda>activation_exit_epoch.
      and_then (try_fold (\<lambda>index state. update_partial_validator state index
           (\<lambda>v. v\<lparr> pv_activation_epoch := activation_exit_epoch \<rparr>))
         activation_queue state) (\<lambda>state.
      Ok (state, summaries)))))))"

subsection \<open>Slashings\<close>

text \<open>
  The penalties are also collected by validator index, which is what an epoch report shows; the
  state transition ignores them.  The total of the slashings is computed when it is first needed.
\<close>

definition apply_slashing ::
  "preset \<Rightarrow> epoch \<Rightarrow> gwei \<Rightarrow> gwei list \<Rightarrow> nat \<times> validator_summary \<Rightarrow> gwei
    \<Rightarrow> (validator_index \<times> gwei) list \<Rightarrow> (gwei \<times> (validator_index \<times> gwei) list) res" where
  "apply_slashing P current_epoch total_balance slashed_balances = (\<lambda>(index, summary) balance penalties.
     if \<not> vs_slashed summary then Ok (balance, penalties)
     else
       and_then (try_add current_epoch (EpochsPerSlashingsVector P div 2)) (\<lambda>epoch.
       if epoch \<noteq> vs_withdrawable_epoch summary then Ok (balance, penalties)
       else
         let increment = EFFECTIVE_BALANCE_INCREMENT P;
             effective_balance_increments = vs_effective_balance summary div increment in
         and_then (sum_rs slashed_balances) (\<lambda>sum.
         and_then (try_mul sum (PROPORTIONAL_SLASHING_MULTIPLIER_BELLATRIX P)) (\<lambda>adjusted.
         and_then (try_div (min adjusted total_balance) (total_balance div increment)) (\<lambda>per_increment.
         and_then (try_mul per_increment effective_balance_increments) (\<lambda>penalty.
         Ok (decrease_balance balance penalty, penalties @ [(index, penalty)])))))))"

definition process_slashings ::
  "preset \<Rightarrow> beacon_state \<Rightarrow> validator_summary list
    \<Rightarrow> ((validator_index \<times> gwei) list \<times> beacon_state) res" where
  "process_slashings P state summaries =
     and_then (total_active_balance P state) (\<lambda>total.
     and_then (zip_update_acc (apply_slashing P (get_current_epoch P state) total (slashings state))
        (enumerate 0 summaries) (balances state) []) (\<lambda>(bs, penalties).
     Ok (penalties, state\<lparr> balances := bs \<rparr>)))"

subsection \<open>Pending deposits\<close>

definition add_validator_to_registry ::
  "preset \<Rightarrow> beacon_state \<Rightarrow> public_key_bytes \<Rightarrow> h256 \<Rightarrow> gwei \<Rightarrow> beacon_state res" where
  "add_validator_to_registry P state pubkey withdrawal_credentials amount =
     (let validator =
            \<lparr> val_pubkey = pubkey, val_withdrawal_credentials = withdrawal_credentials,
              val_effective_balance = 0, val_slashed = False,
              val_activation_eligibility_epoch = FAR_FUTURE_EPOCH,
              val_activation_epoch = FAR_FUTURE_EPOCH, val_exit_epoch = FAR_FUTURE_EPOCH,
              val_withdrawable_epoch = FAR_FUTURE_EPOCH \<rparr>;
          max_effective_balance = get_max_effective_balance P (to_partial_validator validator);
          validator = validator\<lparr> val_effective_balance :=
            min (prev_multiple_of amount (EFFECTIVE_BALANCE_INCREMENT P)) max_effective_balance \<rparr>;
          N = ValidatorRegistryLimit P in
      and_then (vl_push N (validators state) validator) (\<lambda>vs.
      and_then (list_push N (balances state) amount) (\<lambda>bs.
      and_then (list_push N (previous_epoch_participation state) 0) (\<lambda>previous.
      and_then (list_push N (current_epoch_participation state) 0) (\<lambda>current.
      and_then (list_push N (inactivity_scores state) 0) (\<lambda>scores.
      Ok (state\<lparr> validators := vs, balances := bs, previous_epoch_participation := previous,
            current_epoch_participation := current, inactivity_scores := scores \<rparr>)))))))"

definition apply_pending_deposit ::
  "env \<Rightarrow> config \<Rightarrow> preset \<Rightarrow> beacon_state \<Rightarrow> pending_deposit \<Rightarrow> beacon_state res" where
  "apply_pending_deposit E config P state deposit =
     (case index_of_public_key state (pd_pubkey deposit) of
        Some index \<Rightarrow> update_balance state index (\<lambda>b. increase_balance b (pd_amount deposit))
      | None \<Rightarrow>
          if is_valid_deposit_signature E config deposit
          then add_validator_to_registry P state (pd_pubkey deposit)
                 (pd_withdrawal_credentials deposit) (pd_amount deposit)
          else Ok state)"

text \<open>
  The loop over the queue: the state, the amount processed so far, the number of deposits handled,
  the postponed deposits, and whether the churn limit was reached.
\<close>

record deposits_loop =
  dl_state :: beacon_state
  dl_processed_amount :: gwei
  dl_next_deposit_index :: nat
  dl_postponed :: "pending_deposit list"
  dl_churn_limit_reached :: bool

definition handle_pending_deposit ::
  "env \<Rightarrow> config \<Rightarrow> preset \<Rightarrow> gwei \<Rightarrow> pending_deposit \<Rightarrow> bool \<Rightarrow> bool \<Rightarrow> deposits_loop
    \<Rightarrow> deposits_loop control res" where
  "handle_pending_deposit E config P available deposit is_exited is_withdrawn l =
     (if is_withdrawn then
        map_ok (\<lambda>state. Continue (l\<lparr> dl_state := state \<rparr>))
          (apply_pending_deposit E config P (dl_state l) deposit)
      else if is_exited then
        Ok (Continue (l\<lparr> dl_postponed := dl_postponed l @ [deposit] \<rparr>))
      else
        and_then (try_add (dl_processed_amount l) (pd_amount deposit)) (\<lambda>amount.
        let l = l\<lparr> dl_churn_limit_reached := available < amount \<rparr> in
        if dl_churn_limit_reached l then Ok (Break l)
        else
          map_ok (\<lambda>state. Continue (l\<lparr> dl_state := state, dl_processed_amount := amount \<rparr>))
            (apply_pending_deposit E config P (dl_state l) deposit)))"

definition advance_deposit_index :: "deposits_loop control \<Rightarrow> deposits_loop control res" where
  "advance_deposit_index c =
     (case c of
        Break l \<Rightarrow> Ok (Break l)
      | Continue l \<Rightarrow>
          map_ok (\<lambda>n. Continue (l\<lparr> dl_next_deposit_index := n \<rparr>))
            (try_add (dl_next_deposit_index l) 1))"

definition pending_deposit_step ::
  "env \<Rightarrow> config \<Rightarrow> preset \<Rightarrow> slot \<Rightarrow> epoch \<Rightarrow> gwei \<Rightarrow> pending_deposit \<Rightarrow> deposits_loop
    \<Rightarrow> deposits_loop control res" where
  "pending_deposit_step E config P finalized_slot next_epoch available deposit l =
     (let state = dl_state l in
      if GENESIS_SLOT < pd_slot deposit
         \<and> eth1_deposit_index state < deposit_requests_start_index state then Ok (Break l)
      else if finalized_slot < pd_slot deposit then Ok (Break l)
      else if MAX_PENDING_DEPOSITS_PER_EPOCH P \<le> dl_next_deposit_index l then Ok (Break l)
      else
        and_then
          (case index_of_public_key state (pd_pubkey deposit) of
             None \<Rightarrow> Ok (False, False)
           | Some index \<Rightarrow>
               map_ok (\<lambda>validator. (pv_exit_epoch validator < FAR_FUTURE_EPOCH,
                   pv_withdrawable_epoch validator < next_epoch))
                 (vl_partial_validator (validators state) index)) (\<lambda>(is_exited, is_withdrawn).
        and_then (handle_pending_deposit E config P available deposit is_exited is_withdrawn l)
          advance_deposit_index))"

definition process_pending_deposits :: "env \<Rightarrow> config \<Rightarrow> preset \<Rightarrow> beacon_state \<Rightarrow> beacon_state res" where
  "process_pending_deposits E config P state =
     and_then (try_add (get_current_epoch P state) 1) (\<lambda>next_epoch.
     and_then (get_activation_exit_churn_limit config P state) (\<lambda>churn.
     and_then (try_add (deposit_balance_to_consume state) churn) (\<lambda>available.
     let finalized_slot = compute_start_slot_at_epoch P (cp_epoch (finalized_checkpoint state)) in
     and_then (loop_with_break (pending_deposit_step E config P finalized_slot next_epoch available)
        (pending_deposits state)
        \<lparr> dl_state = state, dl_processed_amount = 0, dl_next_deposit_index = 0, dl_postponed = [],
          dl_churn_limit_reached = False \<rparr>) (\<lambda>l.
     let state = dl_state l in
     and_then (list_try_from_iter (PendingDepositsLimit P)
        (drop (dl_next_deposit_index l) (pending_deposits state) @ dl_postponed l)) (\<lambda>deposits.
     let state = state\<lparr> pending_deposits := deposits \<rparr> in
     if dl_churn_limit_reached l then
       and_then (try_sub available (dl_processed_amount l)) (\<lambda>rest.
       Ok (state\<lparr> deposit_balance_to_consume := rest \<rparr>))
     else Ok (state\<lparr> deposit_balance_to_consume := 0 \<rparr>))))))"

subsection \<open>Pending consolidations\<close>

definition pending_consolidation_step ::
  "epoch \<Rightarrow> pending_consolidation \<Rightarrow> beacon_state \<times> nat \<Rightarrow> (beacon_state \<times> nat) control res" where
  "pending_consolidation_step next_epoch consolidation = (\<lambda>(state, n).
     and_then (vl_get (validators state) (pc_source_index consolidation)) (\<lambda>source.
     if val_slashed source then map_ok (\<lambda>n. Continue (state, n)) (usize_try_add n 1)
     else if next_epoch < val_withdrawable_epoch source then Ok (Break (state, n))
     else
       and_then (list_get (balances state) (pc_source_index consolidation)) (\<lambda>source_balance.
       let source_effective_balance = min source_balance (val_effective_balance source) in
       and_then (update_balance state (pc_source_index consolidation)
          (\<lambda>b. Ok (decrease_balance b source_effective_balance))) (\<lambda>state.
       and_then (update_balance state (pc_target_index consolidation)
          (\<lambda>b. increase_balance b source_effective_balance)) (\<lambda>state.
       map_ok (\<lambda>n. Continue (state, n)) (usize_try_add n 1))))))"

definition process_pending_consolidations :: "preset \<Rightarrow> beacon_state \<Rightarrow> beacon_state res" where
  "process_pending_consolidations P state =
     and_then (try_add (get_current_epoch P state) 1) (\<lambda>next_epoch.
     and_then (loop_with_break (pending_consolidation_step next_epoch) (pending_consolidations state)
        (state, 0)) (\<lambda>(state, n).
     and_then (list_try_from_iter (PendingConsolidationsLimit P)
        (drop n (pending_consolidations state))) (\<lambda>consolidations.
     Ok (state\<lparr> pending_consolidations := consolidations \<rparr>))))"

subsection \<open>Effective balances\<close>

definition new_effective_balance ::
  "preset \<Rightarrow> gwei \<Rightarrow> gwei \<Rightarrow> gwei list \<Rightarrow> partial_validator \<Rightarrow> gwei \<Rightarrow> (gwei list \<times> gwei) res" where
  "new_effective_balance P downward_threshold upward_threshold bs validator effective_balance =
     (let max_effective_balance = get_max_effective_balance P validator in
      case bs of
        [] \<Rightarrow> Panic
      | balance # bs \<Rightarrow>
          and_then (try_add balance downward_threshold) (\<lambda>b.
          let below = (b < effective_balance) in
          and_then (try_add effective_balance upward_threshold) (\<lambda>e.
          let above = (e < balance) in
          Ok (bs,
              if below \<or> above
              then min (prev_multiple_of balance (EFFECTIVE_BALANCE_INCREMENT P)) max_effective_balance
              else effective_balance))))"

definition process_effective_balance_updates :: "preset \<Rightarrow> beacon_state \<Rightarrow> beacon_state res" where
  "process_effective_balance_updates P state =
     (let hysteresis_increment = EFFECTIVE_BALANCE_INCREMENT P div HYSTERESIS_QUOTIENT P in
      and_then (try_mul hysteresis_increment (HYSTERESIS_DOWNWARD_MULTIPLIER P)) (\<lambda>downward_threshold.
      and_then (try_mul hysteresis_increment (HYSTERESIS_UPWARD_MULTIPLIER P)) (\<lambda>upward_threshold.
      and_then (vl_update_effective_balances (validators state)
         (new_effective_balance P downward_threshold upward_threshold) (balances state)) (\<lambda>(vs, _).
      Ok (state\<lparr> validators := vs \<rparr>)))))"

subsection \<open>Resets and rotations\<close>

definition process_eth1_data_reset :: "preset \<Rightarrow> beacon_state \<Rightarrow> beacon_state res" where
  "process_eth1_data_reset P state =
     and_then (get_next_epoch P state) (\<lambda>next_epoch.
     Ok (if EpochsPerEth1VotingPeriod P dvd next_epoch then state\<lparr> eth1_data_votes := [] \<rparr> else state))"

definition process_slashings_reset :: "preset \<Rightarrow> beacon_state \<Rightarrow> beacon_state res" where
  "process_slashings_reset P state =
     and_then (get_next_epoch P state) (\<lambda>next_epoch.
     and_then (mod_index_mut (EpochsPerSlashingsVector P) (slashings state) next_epoch (\<lambda>_. 0)) (\<lambda>ss.
     Ok (state\<lparr> slashings := ss \<rparr>)))"

definition process_randao_mixes_reset :: "preset \<Rightarrow> beacon_state \<Rightarrow> beacon_state res" where
  "process_randao_mixes_reset P state =
     (let current_epoch = get_current_epoch P state in
      and_then (get_next_epoch P state) (\<lambda>next_epoch.
      and_then (get_randao_mix P state current_epoch) (\<lambda>mix.
      and_then (mod_index_mut (EpochsPerHistoricalVector P) (randao_mixes state) next_epoch (\<lambda>_. mix))
        (\<lambda>mixes.
      Ok (state\<lparr> randao_mixes := mixes \<rparr>)))))"

definition process_historical_summaries_update :: "env \<Rightarrow> preset \<Rightarrow> beacon_state \<Rightarrow> beacon_state res" where
  "process_historical_summaries_update E P state =
     and_then (get_next_epoch P state) (\<lambda>next_epoch.
     if EpochsPerHistoricalRoot P dvd next_epoch then
       and_then (list_push (HistoricalRootsLimit P) (historical_summaries state)
          \<lparr> hs_block_summary_root = ev_htr_roots E (block_roots state),
            hs_state_summary_root = ev_htr_roots E (state_roots state) \<rparr>) (\<lambda>summaries.
       Ok (state\<lparr> historical_summaries := summaries \<rparr>))
     else Ok state)"

definition process_historical_roots_update :: "env \<Rightarrow> preset \<Rightarrow> beacon_state \<Rightarrow> beacon_state res" where
  "process_historical_roots_update E P state =
     and_then (get_next_epoch P state) (\<lambda>next_epoch.
     if EpochsPerHistoricalRoot P dvd next_epoch then
       and_then (list_push (HistoricalRootsLimit P) (historical_roots state)
          (ev_htr_historical_batch E (block_roots state) (state_roots state))) (\<lambda>roots.
       Ok (state\<lparr> historical_roots := roots \<rparr>))
     else Ok state)"

definition process_participation_flag_updates :: "preset \<Rightarrow> beacon_state \<Rightarrow> beacon_state res" where
  "process_participation_flag_updates P state =
     (let validator_count = vl_len (validators state);
          N = ValidatorRegistryLimit P in
      and_then (expect_ok (list_try_from_iter N (current_epoch_participation state))) (\<lambda>previous.
      and_then (expect_ok (list_try_from_iter N (replicate validator_count 0))) (\<lambda>current.
      Ok (state\<lparr> previous_epoch_participation := previous, current_epoch_participation := current \<rparr>))))"

definition process_sync_committee_updates :: "env \<Rightarrow> preset \<Rightarrow> beacon_state \<Rightarrow> beacon_state res" where
  "process_sync_committee_updates E P state =
     and_then (try_add (get_current_epoch P state) 1) (\<lambda>next_epoch.
     if EPOCHS_PER_SYNC_COMMITTEE_PERIOD P dvd next_epoch then
       and_then (get_next_sync_committee E P state) (\<lambda>committee.
       Ok (state\<lparr> current_sync_committee := next_sync_committee state,
             next_sync_committee := committee \<rparr>))
     else Ok state)"

subsection \<open>Epoch processing\<close>

definition process_epoch :: "env \<Rightarrow> config \<Rightarrow> preset \<Rightarrow> beacon_state \<Rightarrow> beacon_state res" where
  "process_epoch E config P state =
     and_then (statistics_and_summaries P state) (\<lambda>(stats, summaries, participation).
     and_then (process_justification_and_finalization P state stats) (\<lambda>state.
     and_then (process_inactivity_updates config P state summaries participation) (\<lambda>state.
     and_then (epoch_deltas for_transition E config P state stats summaries participation) (\<lambda>deltas.
     and_then (process_rewards_and_penalties for_transition P state deltas) (\<lambda>state.
     and_then (process_registry_updates config P state summaries) (\<lambda>(state, summaries).
     and_then (process_slashings P state summaries) (\<lambda>(_, state).
     and_then (process_eth1_data_reset P state) (\<lambda>state.
     and_then (process_pending_deposits E config P state) (\<lambda>state.
     and_then (process_pending_consolidations P state) (\<lambda>state.
     and_then (process_effective_balance_updates P state) (\<lambda>state.
     and_then (process_slashings_reset P state) (\<lambda>state.
     and_then (process_randao_mixes_reset P state) (\<lambda>state.
     and_then (process_historical_summaries_update E P state) (\<lambda>state.
     and_then (process_participation_flag_updates P state) (\<lambda>state.
     process_sync_committee_updates E P state)))))))))))))))"

record epoch_report_data =
  rep_statistics :: statistics
  rep_summaries :: "validator_summary list"
  rep_epoch_deltas :: "deltas_for_report list"
  rep_slashing_penalties :: "(validator_index \<times> gwei) list"
  rep_post_balances :: "gwei list"

definition vec_of_default :: "'d deltas_impl \<Rightarrow> beacon_state \<Rightarrow> 'd list" where
  "vec_of_default D state = replicate (vl_len (validators state)) (deltas_default D)"

definition epoch_report ::
  "env \<Rightarrow> config \<Rightarrow> preset \<Rightarrow> beacon_state \<Rightarrow> (epoch_report_data \<times> beacon_state) res" where
  "epoch_report E config P state =
     and_then (statistics_and_summaries P state) (\<lambda>(stats, summaries, participation).
     and_then (process_justification_and_finalization P state stats) (\<lambda>state.
     and_then (process_inactivity_updates config P state summaries participation) (\<lambda>state.
     and_then
       (if should_process_rewards_and_penalties P state
        then epoch_deltas for_report E config P state stats summaries participation
        else Ok (vec_of_default for_report state)) (\<lambda>deltas.
     and_then (process_rewards_and_penalties for_report P state deltas) (\<lambda>state.
     and_then (process_registry_updates config P state summaries) (\<lambda>(state, summaries).
     and_then (process_slashings P state summaries) (\<lambda>(slashing_penalties, state).
     let post_balances = balances state in
     and_then (process_eth1_data_reset P state) (\<lambda>state.
     and_then (process_effective_balance_updates P state) (\<lambda>state.
     and_then (process_slashings_reset P state) (\<lambda>state.
     and_then (process_randao_mixes_reset P state) (\<lambda>state.
     and_then (process_historical_roots_update E P state) (\<lambda>state.
     and_then (process_participation_flag_updates P state) (\<lambda>state.
     and_then (process_sync_committee_updates E P state) (\<lambda>state.
     Ok (\<lparr> rep_statistics = stats, rep_summaries = summaries, rep_epoch_deltas = deltas,
           rep_slashing_penalties = slashing_penalties, rep_post_balances = post_balances \<rparr>,
         state)))))))))))))))"

end
