(* ===== verification/Finality.thy ===== *)
theory Finality
  imports Epoch_Processing
begin

text \<open>
  Justification and finalization: what \<open>weigh_justification_and_finalization\<close> does to the
  checkpoints, and that finality never moves backwards.
\<close>

lemma bits_set_Ok: "bits_set bits i v = Ok bits' \<longleftrightarrow> i < length bits \<and> bits' = bits[i := v]"
  by (auto simp: bits_set_def res_simps)

lemma expect_ok_Ok: "expect_ok m = Ok a \<longleftrightarrow> m = Ok a"
  by (cases m) (auto simp: expect_ok_def)

lemma justify_cases:
  assumes "justify_if_supermajority P active a i target s = Ok s'"
  obtains "s' = s"
  | epoch root where "2 * active \<le> 3 * target"
      "absolute_epoch P s (to_relative_epoch a) = Ok epoch" "get_block_root P s a = Ok root"
      "s' = s\<lparr> current_justified_checkpoint := \<lparr> cp_epoch = epoch, cp_root = root \<rparr>,
        justification_bits := (justification_bits s)[i := True] \<rparr>"
  using assms unfolding justify_if_supermajority_def
proof (elim and_then_OkE, goal_cases)
  case (1 lhs rhs)
  show ?case
  proof (cases "rhs \<le> lhs")
    case True
    with 1(5) have "and_then (expect_ok (get_block_root P s a)) (\<lambda>root.
       and_then (absolute_epoch P s (to_relative_epoch a)) (\<lambda>epoch.
       and_then (bits_set (justification_bits s) i True) (\<lambda>bits.
       Ok (s\<lparr> current_justified_checkpoint := \<lparr> cp_epoch = epoch, cp_root = root \<rparr>,
             justification_bits := bits \<rparr>)))) = Ok s'" by (simp only: if_True)
    then show ?thesis
    proof (elim and_then_OkE, goal_cases)
      case (1 root epoch bits)
      then have "s' = s\<lparr> current_justified_checkpoint := \<lparr> cp_epoch = epoch, cp_root = root \<rparr>,
        justification_bits := (justification_bits s)[i := True] \<rparr>" by (simp add: bits_set_Ok)
      with 1 show ?case
        using True \<open>try_mul _ _ = Ok lhs\<close> \<open>try_mul _ _ = Ok rhs\<close>
        by (intro that(2)) (auto simp only: expect_ok_Ok try_mul_Ok mult.commute)
    qed
  next
    case False
    with 1(5) show ?thesis by (intro that(1)) simp
  qed
qed

lemma finalize_cases:
  assumes "finalize_if P start stop cp d bits s = Ok s'" "stop \<le> length bits"
  obtains "s' = s"
  | "s' = s\<lparr> finalized_checkpoint := cp \<rparr>" "cp_epoch cp + d = get_current_epoch P s"
      "\<forall>i. start \<le> i \<and> i < stop \<longrightarrow> bits ! i"
proof -
  note fin = assms(1) [unfolded finalize_if_def bits_range_Ok [OF assms(2)] and_then.simps]
  show ?thesis
  proof (cases "(\<forall>i. start \<le> i \<and> i < stop \<longrightarrow> bits ! i) \<and> cp_epoch cp + d = get_current_epoch P s")
    case True
    then have "s' = s\<lparr> finalized_checkpoint := cp \<rparr>" using fin by (auto simp: and_then_eq_Ok try_add_Ok)
    then show ?thesis using True that(2) by blast
  next
    case False
    then have "s' = s" using fin by (auto simp: and_then_eq_Ok try_add_Ok split: if_splits)
    then show ?thesis by (rule that(1))
  qed
qed

text \<open>The checkpoints that a justification step and the finalization steps may choose.\<close>

definition justifies :: "preset \<Rightarrow> beacon_state \<Rightarrow> attestation_epoch \<Rightarrow> gwei \<Rightarrow> gwei \<Rightarrow> checkpoint \<Rightarrow> bool" where
  "justifies P s a active target cp \<longleftrightarrow>
     2 * active \<le> 3 * target \<and> absolute_epoch P s (to_relative_epoch a) = Ok (cp_epoch cp)
     \<and> get_block_root P s a = Ok (cp_root cp)"

definition finalizes :: "preset \<Rightarrow> beacon_state \<Rightarrow> bool list \<Rightarrow> checkpoint \<Rightarrow> bool" where
  "finalizes P s bits cp \<longleftrightarrow>
     (\<exists>d. 1 \<le> d \<and> d \<le> 3 \<and> cp_epoch cp + d = get_current_epoch P s
        \<and> (\<forall>i. 1 \<le> i \<and> i \<le> d \<longrightarrow> bits ! i) \<and> (d = 1 \<longrightarrow> bits ! 0))"

definition may_finalize :: "preset \<Rightarrow> beacon_state \<Rightarrow> bool list \<Rightarrow> checkpoint set \<Rightarrow> checkpoint \<Rightarrow> bool" where
  "may_finalize P s bits cps fin \<longleftrightarrow>
     fin = finalized_checkpoint s \<or> fin \<in> cps \<and> finalizes P s bits fin"

lemma finalize_step:
  assumes step: "finalize_if P a b cp d bits (s\<lparr> finalized_checkpoint := f \<rparr>) = Ok s'"
    and f: "may_finalize P s bits cps f" "cp \<in> cps"
    and ab: "a \<le> 1" "d < b" "b \<le> length bits" "d = 1 \<longrightarrow> a = 0" "1 \<le> d" "d \<le> 3"
  obtains f' where "s' = s\<lparr> finalized_checkpoint := f' \<rparr>" "may_finalize P s bits cps f'"
  using step ab(3)
proof (cases rule: finalize_cases)
  case 1
  then show ?thesis using f(1) by (intro that [of f]) simp_all
next
  case 2
  have "finalizes P s bits cp"
    unfolding finalizes_def using 2 ab by (intro exI [of _ d]) (auto simp: get_current_epoch_def)
  then show ?thesis using 2(1) f(2) by (intro that [of cp]) (simp_all add: may_finalize_def)
qed

lemma finalize_all:
  assumes "and_then (finalize_if P 1 4 pj 3 bits s) (\<lambda>s.
      and_then (finalize_if P 1 3 pj 2 bits s) (\<lambda>s.
      and_then (finalize_if P 0 3 cj 2 bits s) (\<lambda>s.
      finalize_if P 0 2 cj 1 bits s))) = Ok s'" "length bits = 4"
  obtains fin where "s' = s\<lparr> finalized_checkpoint := fin \<rparr>" "may_finalize P s bits {pj, cj} fin"
proof -
  obtain s1 s2 s3 where st: "finalize_if P 1 4 pj 3 bits (s\<lparr> finalized_checkpoint := finalized_checkpoint s \<rparr>) = Ok s1"
      "finalize_if P 1 3 pj 2 bits s1 = Ok s2"
      "finalize_if P 0 3 cj 2 bits s2 = Ok s3" "finalize_if P 0 2 cj 1 bits s3 = Ok s'"
    using assms(1) by (elim and_then_OkE) simp
  have "may_finalize P s bits {pj, cj} (finalized_checkpoint s)" by (simp add: may_finalize_def)
  then obtain f1 where f1: "s1 = s\<lparr> finalized_checkpoint := f1 \<rparr>" "may_finalize P s bits {pj, cj} f1"
    by (rule finalize_step [OF st(1)]) (use assms(2) in auto)
  obtain f2 where f2: "s2 = s\<lparr> finalized_checkpoint := f2 \<rparr>" "may_finalize P s bits {pj, cj} f2"
    by (rule finalize_step [OF st(2) [unfolded f1(1)] f1(2)]) (use assms(2) in auto)
  obtain f3 where f3: "s3 = s\<lparr> finalized_checkpoint := f3 \<rparr>" "may_finalize P s bits {pj, cj} f3"
    by (rule finalize_step [OF st(3) [unfolded f2(1)] f2(2)]) (use assms(2) in auto)
  show ?thesis
    by (rule finalize_step [OF st(4) [unfolded f3(1)] f3(2)]) (use assms(2) that in auto)
qed

text \<open>
  Altogether: the old current justified checkpoint becomes the previous one, the new one is the
  old one or a checkpoint with a supermajority for the previous or the current epoch, and the
  finalized checkpoint changes only to one of the old justified checkpoints.
\<close>

abbreviation with_checkpoints :: "beacon_state \<Rightarrow> bool list \<Rightarrow> checkpoint \<Rightarrow> checkpoint \<Rightarrow> beacon_state" where
  "with_checkpoints s bits pj cj \<equiv>
     s\<lparr> justification_bits := bits, previous_justified_checkpoint := pj, current_justified_checkpoint := cj \<rparr>"

lemma checkpoints_frame:
  "absolute_epoch P (with_checkpoints s b p c) rel = absolute_epoch P s rel"
  "get_block_root P (with_checkpoints s b p c) a = get_block_root P s a"
  by (simp_all add: absolute_epoch_def get_block_root_def get_block_root_at_slot_def get_current_epoch_def
      get_previous_epoch_def get_next_epoch_def cong: relative_epoch.case_cong)

lemma justify_step:
  assumes "justify_if_supermajority P active a i target (with_checkpoints s b p c) = Ok s'"
  obtains b' c' where "s' = with_checkpoints s b' p c'" "length b' = length b"
    "c' = c \<or> justifies P s a active target c'"
  using assms
proof (cases rule: justify_cases)
  case 1
  then show ?thesis by (intro that [of c b]) auto
next
  case (2 epoch root)
  then show ?thesis
    by (intro that [of "\<lparr> cp_epoch = epoch, cp_root = root \<rparr>" "b[i := True]"])
      (simp_all add: justifies_def checkpoints_frame)
qed

lemma finalizes_frame: "finalizes P (with_checkpoints s b p c) bits fin = finalizes P s bits fin"
  by (simp add: finalizes_def get_current_epoch_def)

lemma weigh_cases:
  assumes "weigh_justification_and_finalization P s active prev cur = Ok s'" "length (justification_bits s) = 4"
  obtains bits cj fin where
    "s' = with_checkpoints s bits (current_justified_checkpoint s) cj\<lparr> finalized_checkpoint := fin \<rparr>"
    "length bits = 4"
    "cj = current_justified_checkpoint s \<or> justifies P s APrevious active prev cj
      \<or> justifies P s ACurrent active cur cj"
    "may_finalize P s bits {previous_justified_checkpoint s, current_justified_checkpoint s} fin"
proof -
  let ?pj = "previous_justified_checkpoint s" and ?cj = "current_justified_checkpoint s"
    and ?b = "bits_shift_up (justification_bits s)"
  have start: "s\<lparr> previous_justified_checkpoint := ?cj, justification_bits := ?b \<rparr> = with_checkpoints s ?b ?cj ?cj"
    by simp
  obtain s1 s2 where st: "justify_if_supermajority P active APrevious 1 prev (with_checkpoints s ?b ?cj ?cj) = Ok s1"
      "justify_if_supermajority P active ACurrent 0 cur s1 = Ok s2"
      and fin: "and_then (finalize_if P 1 4 ?pj 3 (justification_bits s2) s2) (\<lambda>s.
      and_then (finalize_if P 1 3 ?pj 2 (justification_bits s2) s) (\<lambda>s.
      and_then (finalize_if P 0 3 ?cj 2 (justification_bits s2) s) (\<lambda>s.
      finalize_if P 0 2 ?cj 1 (justification_bits s2) s))) = Ok s'"
    using assms(1) unfolding weigh_justification_and_finalization_def Let_def start
    by - (erule and_then_OkE, erule and_then_OkE, rule that; assumption)
  obtain b1 c1 where s1: "s1 = with_checkpoints s b1 ?cj c1" "length b1 = 4"
      "c1 = ?cj \<or> justifies P s APrevious active prev c1"
    using justify_step [OF st(1)] assms(2) by (metis length_bits_shift_up)
  obtain b2 c2 where s2: "s2 = with_checkpoints s b2 ?cj c2" "length b2 = 4"
      "c2 = c1 \<or> justifies P s ACurrent active cur c2"
    using justify_step [OF st(2) [unfolded s1(1)]] s1(2) by metis
  have "justification_bits s2 = b2" using s2(1) by simp
  with fin s2(2) obtain f where "s' = s2\<lparr> finalized_checkpoint := f \<rparr>" "may_finalize P s2 b2 {?pj, ?cj} f"
    using finalize_all by metis
  then show ?thesis
    using that [of f c2 b2] s1(3) s2 by (auto simp: may_finalize_def finalizes_frame)
qed


definition ffg_ordered :: "preset \<Rightarrow> beacon_state \<Rightarrow> bool" where
  "ffg_ordered P s \<longleftrightarrow>
     cp_epoch (finalized_checkpoint s) \<le> cp_epoch (previous_justified_checkpoint s)
     \<and> cp_epoch (previous_justified_checkpoint s) \<le> cp_epoch (current_justified_checkpoint s)
     \<and> cp_epoch (current_justified_checkpoint s) \<le> get_previous_epoch P s"

lemma get_previous_epoch_le: "get_previous_epoch P s \<le> get_current_epoch P s"
  by (simp add: get_previous_epoch_def previous_epoch_def GENESIS_EPOCH_def try_sub_def checked_sub_def ok_or_def)

lemma justifies_epoch:
  "justifies P s a active target cp \<Longrightarrow>
     cp_epoch cp = (case a of APrevious \<Rightarrow> get_previous_epoch P s | ACurrent \<Rightarrow> get_current_epoch P s)"
  by (cases a) (simp_all add: justifies_def to_relative_epoch_def absolute_epoch_def)

lemma justification_cases:
  assumes "process_justification_and_finalization P s stats = Ok s'" "length (justification_bits s) = 4"
  obtains "s' = s"
  | active bits cj fin where
    "s' = with_checkpoints s bits (current_justified_checkpoint s) cj\<lparr> finalized_checkpoint := fin \<rparr>"
    "length bits = 4" "total_active_balance P s = Ok active"
    "cj = current_justified_checkpoint s
      \<or> justifies P s APrevious active (previous_epoch_target_participating_balance stats) cj
      \<or> justifies P s ACurrent active (current_epoch_target_participating_balance stats) cj"
    "may_finalize P s bits {previous_justified_checkpoint s, current_justified_checkpoint s} fin"
proof (cases "should_process_justification_and_finalization P s")
  case True
  with assms(1) obtain active where active: "total_active_balance P s = Ok active"
    and weigh: "weigh_justification_and_finalization P s active
      (previous_epoch_target_participating_balance stats)
      (current_epoch_target_participating_balance stats) = Ok s'"
    by (auto simp: process_justification_and_finalization_def and_then_eq_Ok)
  from weigh assms(2) show ?thesis
    by (rule weigh_cases) (rule that(2); (assumption | rule active))
next
  case False
  with assms(1) show ?thesis by (intro that(1)) (simp add: process_justification_and_finalization_def)
qed

text \<open>
  Finality never moves backwards in one justification step: checkpoints that are in order and not
  newer than the previous epoch stay in order and not newer than the current epoch.
\<close>

lemma justification_ordered:
  assumes "process_justification_and_finalization P s stats = Ok s'"
    and "length (justification_bits s) = 4" "ffg_ordered P s"
  shows "cp_epoch (finalized_checkpoint s) \<le> cp_epoch (finalized_checkpoint s')
    \<and> cp_epoch (finalized_checkpoint s') \<le> cp_epoch (previous_justified_checkpoint s')
    \<and> cp_epoch (previous_justified_checkpoint s') \<le> cp_epoch (current_justified_checkpoint s')
    \<and> cp_epoch (current_justified_checkpoint s) \<le> cp_epoch (current_justified_checkpoint s')
    \<and> cp_epoch (current_justified_checkpoint s') \<le> get_current_epoch P s'"
  using assms(1,2)
proof (cases rule: justification_cases)
  case 1
  then show ?thesis using assms(3) get_previous_epoch_le [of P s] by (auto simp: ffg_ordered_def)
next
  case (2 active bits cj fin)
  have "cp_epoch (current_justified_checkpoint s) \<le> cp_epoch cj \<and> cp_epoch cj \<le> get_current_epoch P s"
    using 2(4) assms(3) get_previous_epoch_le [of P s] by (auto simp: ffg_ordered_def dest: justifies_epoch)
  moreover have "get_current_epoch P s' = get_current_epoch P s" using 2(1) by (simp add: get_current_epoch_def)
  moreover have "fin \<in> {finalized_checkpoint s, previous_justified_checkpoint s, current_justified_checkpoint s}"
    using 2(5) by (auto simp: may_finalize_def)
  ultimately show ?thesis using 2(1) assms(3) by (auto simp: ffg_ordered_def)
qed

text \<open>
  C5. A checkpoint becomes justified only with a supermajority and finalized only by justified
  successors.  After the justification step the current justified checkpoint is the old one, or it
  is the block root of the previous or of the current epoch and at least two thirds of the active
  balance attested to that target.  The finalized checkpoint is the old one, or it is one of the
  two old justified checkpoints, at most three epochs back, with every epoch from it up to the
  newest one but the current justified, and the current epoch too if it is only one epoch back.
\<close>

theorem justification_supermajority:
  assumes "process_justification_and_finalization P s stats = Ok s'" "length (justification_bits s) = 4"
  shows "(current_justified_checkpoint s' = current_justified_checkpoint s
       \<or> (\<exists>active. total_active_balance P s = Ok active
            \<and> (justifies P s APrevious active (previous_epoch_target_participating_balance stats)
                  (current_justified_checkpoint s')
              \<or> justifies P s ACurrent active (current_epoch_target_participating_balance stats)
                  (current_justified_checkpoint s'))))
    \<and> (finalized_checkpoint s' = finalized_checkpoint s
       \<or> finalized_checkpoint s' \<in> {previous_justified_checkpoint s, current_justified_checkpoint s}
         \<and> finalizes P s (justification_bits s') (finalized_checkpoint s'))"
  using assms by (cases rule: justification_cases) (auto simp: may_finalize_def)


definition sample_justified :: beacon_state where
  "sample_justified = (sample_state 8)
     \<lparr> previous_justified_checkpoint := \<lparr> cp_epoch = 6, cp_root = replicate 32 0 \<rparr>,
       current_justified_checkpoint := \<lparr> cp_epoch = 7, cp_root = replicate 32 0 \<rparr>,
       finalized_checkpoint := \<lparr> cp_epoch = 5, cp_root = replicate 32 0 \<rparr> \<rparr>"

lemma replicate_4: "replicate 4 x = [x, x, x, x]"
  by (simp add: numeral_eq_Suc)

lemma sample_justified_simps [simp]:
  "slot sample_justified = 70" "justification_bits sample_justified = [False, False, False, False]"
  "block_roots sample_justified = replicate 64 (replicate 32 0)"
  "current_justified_checkpoint sample_justified = \<lparr> cp_epoch = 7, cp_root = replicate 32 0 \<rparr>"
  "previous_justified_checkpoint sample_justified = \<lparr> cp_epoch = 6, cp_root = replicate 32 0 \<rparr>"
  "finalized_checkpoint sample_justified = \<lparr> cp_epoch = 5, cp_root = replicate 32 0 \<rparr>"
  by (simp_all add: sample_justified_def sample_state_def replicate_4)

lemma sample_justified_total: "total_active_balance sample_preset sample_justified = Ok 256000000000"
proof -
  have "total_active_balance sample_preset sample_justified = total_active_balance sample_preset (sample_state 8)"
    by (simp add: sample_justified_def total_active_balance_def get_current_epoch_def)
  then show ?thesis
    using sample_total_active_balance [of 8] by (simp add: sample_total_active_balance_preset)
qed

lemma sample_epochs:
  "slot s = 70 \<Longrightarrow> get_current_epoch sample_preset s = 8" "slot s = 70 \<Longrightarrow> get_previous_epoch sample_preset s = 7"
  by (simp_all add: get_current_epoch_def get_previous_epoch_def previous_epoch_def compute_epoch_at_slot_def
      GENESIS_EPOCH_def try_sub_def checked_sub_def ok_or_def)

lemma sample_block_root:
  assumes "slot s = 70" "block_roots s = replicate 64 (replicate 32 0)"
  shows "get_block_root sample_preset s a = Ok (replicate 32 0)"
proof -
  have "SlotsPerHistoricalRoot sample_preset = 64"
    by (simp add: sample_preset_def SlotsPerHistoricalRoot_def MinimalPreset_def MainnetPreset_def)
  then show ?thesis
    using assms
    by (cases a) (simp_all add: get_block_root_def absolute_epoch_def to_relative_epoch_def sample_epochs
        get_block_root_at_slot_def compute_start_slot_at_epoch_def saturating_mul_def mod_index_def list_get_ok
        try_add_def checked_add_def ok_or_def u64_bound_def)
qed

lemma sample_finalization:
  "process_justification_and_finalization sample_preset sample_justified sample_statistics =
     Ok (with_checkpoints sample_justified [True, True, False, False] \<lparr> cp_epoch = 7, cp_root = replicate 32 0 \<rparr>
           \<lparr> cp_epoch = 8, cp_root = replicate 32 0 \<rparr>
         \<lparr> finalized_checkpoint := \<lparr> cp_epoch = 7, cp_root = replicate 32 0 \<rparr> \<rparr>)"
  by (simp add: process_justification_and_finalization_def should_process_justification_and_finalization_def
      weigh_justification_and_finalization_def justify_if_supermajority_def finalize_if_def sample_justified_total
      sample_statistics_def sample_epochs sample_block_root absolute_epoch_def to_relative_epoch_def bits_range_def bits_index_def nth_rs_def upt_rec
      bits_set_def bits_shift_up_def assert_rs_def expect_ok_def Let_def GENESIS_EPOCH_def arith_defs ok_or_def
      u64_bound_def)

theorem justification_supermajority_witness:
  "\<exists>s'. process_justification_and_finalization sample_preset sample_justified sample_statistics = Ok s'
    \<and> (\<exists>active. total_active_balance sample_preset sample_justified = Ok active
            \<and> (justifies sample_preset sample_justified APrevious active 256000000000
                  (current_justified_checkpoint s')
              \<or> justifies sample_preset sample_justified ACurrent active 256000000000
                  (current_justified_checkpoint s')))
    \<and> finalizes sample_preset sample_justified (justification_bits s') (finalized_checkpoint s')"
  using justification_supermajority [OF sample_finalization] sample_finalization
  by (auto simp: sample_statistics_def)

end
