(* ===== verification/Epoch_Invariants.thy ===== *)
theory Epoch_Invariants
  imports Finality
begin

text \<open>
  What every step of epoch processing keeps: the well-formedness of the state.  The loops apply
  operations that keep it, so the contract \<open>preserving\<close> carries over to them.
\<close>

lemma zip_update_length: "zip_update f xs as = Ok bs \<Longrightarrow> length bs = length as \<and> length as \<le> length xs"
  by (induction f xs as arbitrary: bs rule: zip_update.induct) (auto simp: and_then_eq_Ok)

lemma zip_update_nth:
  "zip_update f xs as = Ok bs \<Longrightarrow> i < length as \<Longrightarrow> f (xs ! i) (as ! i) = Ok (bs ! i)"
proof (induction f xs as arbitrary: bs i rule: zip_update.induct)
  case (3 f x xs a as)
  then show ?case by (cases i) (auto simp: and_then_eq_Ok)
qed auto

lemma zip_update_acc_length: "zip_update_acc f xs as s = Ok (bs, s') \<Longrightarrow> length bs = length as"
  by (induction f xs as s arbitrary: bs s' rule: zip_update_acc.induct) (auto simp: and_then_eq_Ok)

text \<open>The part of the state that only slot processing and block headers change.\<close>

abbreviation history :: "beacon_state \<Rightarrow> slot \<times> h256 list \<times> h256 list \<times> beacon_block_header" where
  "history s \<equiv> (slot s, block_roots s, state_roots s, latest_block_header s)"

text \<open>The part of the state that only justification and finalization change.\<close>

abbreviation finality :: "beacon_state \<Rightarrow> bool list \<times> checkpoint \<times> checkpoint \<times> checkpoint" where
  "finality s \<equiv> (justification_bits s, previous_justified_checkpoint s, current_justified_checkpoint s,
     finalized_checkpoint s)"

definition keeps_history :: "preset \<Rightarrow> beacon_state \<Rightarrow> beacon_state \<Rightarrow> bool" where
  "keeps_history P s s' \<longleftrightarrow> history s' = history s \<and> (state_wf P s \<longrightarrow> state_wf P s')"

definition keeps :: "preset \<Rightarrow> beacon_state \<Rightarrow> beacon_state \<Rightarrow> bool" where
  "keeps P s s' \<longleftrightarrow> history s' = history s \<and> finality s' = finality s \<and> (state_wf P s \<longrightarrow> state_wf P s')"

lemma keeps_keeps_history: "keeps P s s' \<Longrightarrow> keeps_history P s s'"
  by (simp add: keeps_def keeps_history_def)

lemma keeps_history_trans [trans]:
  "keeps_history P s s' \<Longrightarrow> keeps P s' s'' \<Longrightarrow> keeps_history P s s''"
  by (simp add: keeps_def keeps_history_def)

lemma keeps_refl [simp]: "keeps P s s"
  by (simp add: keeps_def)

lemma keeps_trans [trans]: "keeps P s s' \<Longrightarrow> keeps P s' s'' \<Longrightarrow> keeps P s s''"
  by (simp add: keeps_def)

lemma keeps_frame:
  assumes "history s' = history s" "finality s' = finality s" "validators s' = validators s"
    "length (balances s') = length (balances s)"
    "length (previous_epoch_participation s') = length (previous_epoch_participation s)"
    "length (current_epoch_participation s') = length (current_epoch_participation s)"
    "length (inactivity_scores s') = length (inactivity_scores s)"
    "length (randao_mixes s') = length (randao_mixes s)" "length (slashings s') = length (slashings s)"
  shows "keeps P s s'"
  unfolding keeps_def using assms by (auto elim!: state_wf_frame)

lemma update_partial_validator_history: "update_partial_validator s i f = Ok s' \<Longrightarrow> history s' = history s \<and> finality s' = finality s"
  by (auto simp: update_partial_validator_def and_then_eq_Ok)

lemma justification_step_history:
  "justify_if_supermajority P active a i target s = Ok s' \<Longrightarrow> history s' = history s"
  "finalize_if P start stop c distance bits s = Ok s' \<Longrightarrow> history s' = history s"
  by (auto simp: justify_if_supermajority_def finalize_if_def and_then_eq_Ok split: if_splits)

lemma weigh_history:
  assumes "weigh_justification_and_finalization P s active p c = Ok s'"
  shows "history s' = history s"
  using assms unfolding weigh_justification_and_finalization_def Let_def
  by (elim and_then_OkE) (drule justification_step_history, simp)+

lemma justification_keeps:
  assumes "process_justification_and_finalization P s stats = Ok s'"
  shows "keeps_history P s s'"
proof -
  have "history s' = history s"
    using assms
    by (auto simp: process_justification_and_finalization_def and_then_eq_Ok dest: weigh_history split: if_splits)
  moreover have "state_wf P s'" if wf: "state_wf P s"
  proof -
    have *: "length (justification_bits s) = 4" using wf by (simp add: state_wf_def vector_sizes_def)
    from assms * show ?thesis
    proof (cases rule: justification_cases)
      case (2 active bits cj fin)
      then show ?thesis using * by (intro state_wf_frame [OF wf]) simp_all
    qed (use wf in simp)
  qed
  ultimately show ?thesis by (simp add: keeps_history_def)
qed

lemma inactivity_updates_keeps:
  "process_inactivity_updates config P s sums parts = Ok s' \<Longrightarrow> keeps P s s'"
  unfolding process_inactivity_updates_def
  by (rule keeps_frame) (auto simp: and_then_eq_Ok dest: zip_update_length split: if_splits)

lemma rewards_keeps: "process_rewards_and_penalties D P s deltas = Ok s' \<Longrightarrow> keeps P s s'"
  unfolding process_rewards_and_penalties_def
  by (rule keeps_frame) (auto simp: and_then_eq_Ok dest: zip_update_length split: if_splits)

lemma update_partial_validator_keeps: "update_partial_validator s i f = Ok s' \<Longrightarrow> keeps P s s'"
  using update_partial_validator_history [of s i f s'] update_partial_validator_wf [of s i f s' P]
  unfolding keeps_def by blast

lemma update_balance_keeps: "update_balance s i f = Ok s' \<Longrightarrow> keeps P s s'"
  by (rule keeps_frame) (auto simp: update_balance_Ok)

lemma initiate_validator_exit_keeps: "initiate_validator_exit config P s i = Ok s' \<Longrightarrow> keeps P s s'"
proof -
  assume *: "initiate_validator_exit config P s i = Ok s'"
  then have "history s' = history s \<and> finality s' = finality s"
    by (cases rule: initiate_validator_exit_cases) (auto dest: update_partial_validator_history)
  then show ?thesis using initiate_validator_exit_wf [OF *] by (simp add: keeps_def)
qed

interpretation partial_updates: preserving "keeps P s0" "\<lambda>i s. update_partial_validator s i f" for P s0 f
  by unfold_locales (rule keeps_trans, assumption, rule update_partial_validator_keeps)

lemma eject_keeps: "eject config P i p = Ok q \<Longrightarrow> keeps P (fst p) (fst q)"
  by (cases p) (auto simp: eject_def and_then_eq_Ok dest: initiate_validator_exit_keeps)

interpretation ejections: preserving "\<lambda>p. keeps P s0 (fst p)" "eject config P" for P s0 config
  by unfold_locales (rule keeps_trans, assumption, rule eject_keeps)

lemma registry_updates_keeps:
  assumes "process_registry_updates config P s sums = Ok (s', sums')"
  shows "keeps P s s'"
  using assms unfolding process_registry_updates_def Let_def
proof (elim and_then_OkE, goal_cases)
  case (1 next_epoch s1 p)
  obtain s2 sums2 where p: "p = (s2, sums2)" by (cases p)
  have "keeps P s s1" using partial_updates.fold_preserves [OF keeps_refl 1(2)] .
  then have "keeps P s s2" using ejections.fold_preserves [of P s "(s1, sums)"] 1(3) p by fastforce
  then show ?case using 1(4) p partial_updates.fold_preserves by (fastforce simp: and_then_eq_Ok)
qed

lemma slashings_keeps: "process_slashings P s sums = Ok (ps, s') \<Longrightarrow> keeps P s s'"
  unfolding process_slashings_def
  by (rule keeps_frame) (auto simp: and_then_eq_Ok dest: zip_update_acc_length)

lemma vl_push_buf: "vl_push N vs v = Ok vs' \<Longrightarrow> vl_buf vs' = raw_push (vl_buf vs) v"
  by (auto simp: vl_push_def Let_def and_then_eq_Ok split: if_splits option.splits)

lemma vl_push_columns:
  assumes "vl_push N vs v = Ok vs'"
  shows "vl_partial_validators vs' = vl_partial_validators vs @ [to_partial_validator v]"
    "vl_effective_balances vs' = vl_effective_balances vs @ [val_effective_balance v]"
    "vl_pubkeys vs' = pubkeys_push (vl_pubkeys vs) (val_pubkey v)" "vl_len vs' = vl_len vs + 1"
  using vl_push_buf [OF assms]
  by (simp_all add: vl_partial_validators_def vl_effective_balances_def vl_pubkeys_def raw_push_def vl_len_def
      raw_len_def pubkeys_len_def pubkeys_push_def)

lemma add_validator_cases:
  assumes "add_validator_to_registry P s pubkey wc amount = Ok s'"
  obtains v vs where "vl_push (ValidatorRegistryLimit P) (validators s) v = Ok vs"
    "val_pubkey v = pubkey" "val_activation_epoch v = FAR_FUTURE_EPOCH \<and> val_exit_epoch v = FAR_FUTURE_EPOCH
       \<and> val_withdrawable_epoch v = FAR_FUTURE_EPOCH"
    "val_effective_balance v =
       min (prev_multiple_of amount (EFFECTIVE_BALANCE_INCREMENT P)) (get_max_effective_balance P (to_partial_validator v))"
    "s' = s\<lparr> validators := vs, balances := balances s @ [amount],
       previous_epoch_participation := previous_epoch_participation s @ [0],
       current_epoch_participation := current_epoch_participation s @ [0],
       inactivity_scores := inactivity_scores s @ [0] \<rparr>"
  using assms unfolding add_validator_to_registry_def Let_def
  by (elim and_then_OkE, unfold list_push_Ok, elim conjE)
    (rule that, assumption, simp_all add: to_partial_validator_def get_max_effective_balance_def
      has_compounding_withdrawal_credential_def)

lemma add_validator_wf:
  assumes "add_validator_to_registry P s pubkey wc amount = Ok s'" "state_wf P s"
  shows "state_wf P s'"
  using assms(1)
proof (rule add_validator_cases, goal_cases)
  case (1 v vs)
  have "raw_wf (vl_buf vs)" using assms(2) vl_push_buf [OF 1(1)]
    by (simp add: state_wf_def raw_wf_def raw_push_def raw_len_def pubkeys_len_def pubkeys_push_def)
  then show ?case
    using assms(2) 1(5) vl_push_columns(4) [OF 1(1)]
    by (simp add: state_wf_def per_validator_lists_def vector_sizes_def Let_def)
qed

lemma add_validator_keeps: "add_validator_to_registry P s pubkey wc amount = Ok s' \<Longrightarrow> keeps P s s'"
  by (auto simp: keeps_def elim: add_validator_wf add_validator_cases)

lemma apply_pending_deposit_keeps: "apply_pending_deposit E config P s d = Ok s' \<Longrightarrow> keeps P s s'"
  by (auto simp: apply_pending_deposit_def split: option.splits if_splits
      intro: update_balance_keeps add_validator_keeps)

text \<open>The ways in which an iteration of the loop over the pending deposits can go.\<close>

lemma handle_pending_deposit_cases:
  assumes "handle_pending_deposit E config P available d exited withdrawn l = Ok c"
  obtains (full) "c = Break (l\<lparr> dl_churn_limit_reached := True \<rparr>)"
    | (withdrawn) s where "apply_pending_deposit E config P (dl_state l) d = Ok s"
      "c = Continue (l\<lparr> dl_state := s \<rparr>)" "withdrawn"
    | (postponed) "c = Continue (l\<lparr> dl_postponed := dl_postponed l @ [d] \<rparr>)" "exited" "\<not> withdrawn"
    | (processed) s where "apply_pending_deposit E config P (dl_state l) d = Ok s"
      "dl_processed_amount l + pd_amount d \<le> available"
      "c = Continue (l\<lparr> dl_churn_limit_reached := False, dl_state := s,
          dl_processed_amount := dl_processed_amount l + pd_amount d \<rparr>)"
proof (cases withdrawn)
  case True
  then show ?thesis using assms that(2) by (auto simp: handle_pending_deposit_def map_ok_eq_Ok)
next
  case nw: False
  show ?thesis
  proof (cases exited)
    case True
    then show ?thesis using assms nw that(3) by (simp add: handle_pending_deposit_def)
  next
    case False
    let ?a = "dl_processed_amount l + pd_amount d"
    show ?thesis
    proof (cases "available < ?a")
      case True
      then show ?thesis using assms nw False
        by (intro that(1)) (auto simp: handle_pending_deposit_def and_then_eq_Ok try_add_Ok Let_def)
    next
      case le: False
      then obtain s where "apply_pending_deposit E config P (dl_state l) d = Ok s"
        "c = Continue (l\<lparr> dl_churn_limit_reached := False, dl_state := s, dl_processed_amount := ?a \<rparr>)"
        using assms nw False by (auto simp: handle_pending_deposit_def and_then_eq_Ok map_ok_eq_Ok try_add_Ok Let_def)
      then show ?thesis using le by (intro that(4)) simp_all
    qed
  qed
qed

lemma pending_deposit_step_cases:
  assumes "pending_deposit_step E config P fin next_epoch available d l = Ok c"
  obtains (stop) "c = Break l"
    | (handled) exited withdrawn c1 where "dl_next_deposit_index l < MAX_PENDING_DEPOSITS_PER_EPOCH P"
      "handle_pending_deposit E config P available d exited withdrawn l = Ok c1"
      "c = (case c1 of Break m \<Rightarrow> Break m
        | Continue m \<Rightarrow> Continue (m\<lparr> dl_next_deposit_index := dl_next_deposit_index m + 1 \<rparr>))"
      "exited \<or> withdrawn \<Longrightarrow> \<exists>i v. index_of_public_key (dl_state l) (pd_pubkey d) = Some i
         \<and> vl_partial_validator (validators (dl_state l)) i = Ok v
         \<and> exited = (pv_exit_epoch v < FAR_FUTURE_EPOCH) \<and> withdrawn = (pv_withdrawable_epoch v < next_epoch)"
proof (cases "GENESIS_SLOT < pd_slot d \<and> eth1_deposit_index (dl_state l) < deposit_requests_start_index (dl_state l)
    \<or> fin < pd_slot d \<or> MAX_PENDING_DEPOSITS_PER_EPOCH P \<le> dl_next_deposit_index l")
  case True
  then have "c = Break l" using assms by (auto simp: pending_deposit_step_def Let_def split: if_splits)
  then show ?thesis by (rule stop)
next
  case False
  then have run: "and_then
      (case index_of_public_key (dl_state l) (pd_pubkey d) of
         None \<Rightarrow> Ok (False, False)
       | Some index \<Rightarrow>
           map_ok (\<lambda>v. (pv_exit_epoch v < FAR_FUTURE_EPOCH, pv_withdrawable_epoch v < next_epoch))
             (vl_partial_validator (validators (dl_state l)) index)) (\<lambda>(ex, w).
      and_then (handle_pending_deposit E config P available d ex w l) advance_deposit_index) = Ok c"
    using assms by (simp add: pending_deposit_step_def Let_def split: if_splits)
  have "\<exists>ex w c1. handle_pending_deposit E config P available d ex w l = Ok c1 \<and> advance_deposit_index c1 = Ok c
      \<and> (ex \<or> w \<longrightarrow> (\<exists>i v. index_of_public_key (dl_state l) (pd_pubkey d) = Some i
           \<and> vl_partial_validator (validators (dl_state l)) i = Ok v
           \<and> ex = (pv_exit_epoch v < FAR_FUTURE_EPOCH) \<and> w = (pv_withdrawable_epoch v < next_epoch)))"
  proof (cases "index_of_public_key (dl_state l) (pd_pubkey d)")
    case None
    then show ?thesis using run by (auto simp: and_then_eq_Ok)
  next
    case (Some i)
    then show ?thesis using run by (auto simp: and_then_eq_Ok map_ok_eq_Ok)
  qed
  then obtain ex w c1 where c1: "handle_pending_deposit E config P available d ex w l = Ok c1"
    "advance_deposit_index c1 = Ok c"
    "ex \<or> w \<Longrightarrow> \<exists>i v. index_of_public_key (dl_state l) (pd_pubkey d) = Some i
       \<and> vl_partial_validator (validators (dl_state l)) i = Ok v
       \<and> ex = (pv_exit_epoch v < FAR_FUTURE_EPOCH) \<and> w = (pv_withdrawable_epoch v < next_epoch)"
    by blast
  then have "c = (case c1 of Break m \<Rightarrow> Break m
        | Continue m \<Rightarrow> Continue (m\<lparr> dl_next_deposit_index := dl_next_deposit_index m + 1 \<rparr>))"
    by (auto simp: advance_deposit_index_def map_ok_eq_Ok try_add_Ok split: control.splits)
  then show ?thesis using False by (intro handled [OF _ c1(1)] c1(3)) auto
qed

definition loop_keeps :: "preset \<Rightarrow> beacon_state \<Rightarrow> pending_deposit list \<Rightarrow> deposits_loop \<Rightarrow> bool" where
  "loop_keeps P s0 pre l = keeps P s0 (dl_state l)"

lemma handle_pending_deposit_keeps:
  assumes "handle_pending_deposit E config P available d exited withdrawn l = Ok c"
  shows "keeps P (dl_state l) (dl_state (case c of Break m \<Rightarrow> m | Continue m \<Rightarrow> m))"
  using assms by (cases rule: handle_pending_deposit_cases) (auto intro: apply_pending_deposit_keeps)

lemma pending_deposit_step_keeps:
  assumes "pending_deposit_step E config P fin next_epoch available d l = Ok c"
  shows "keeps P (dl_state l) (dl_state (case c of Break m \<Rightarrow> m | Continue m \<Rightarrow> m))"
  using assms
  by (cases rule: pending_deposit_step_cases) (auto split: control.splits dest!: handle_pending_deposit_keeps)

interpretation deposits_keeps: loop_body "loop_keeps P s0" "pending_deposit_step E config P fin next_epoch available"
  for E config P s0 fin next_epoch available
  by unfold_locales (auto simp: loop_keeps_def dest!: pending_deposit_step_keeps intro: keeps_trans)

lemma pending_deposits_keeps:
  assumes "process_pending_deposits E config P s = Ok s'"
  shows "keeps P s s'"
  using assms unfolding process_pending_deposits_def Let_def
proof (elim and_then_OkE, goal_cases)
  case (1 next_epoch churn available l deposits)
  have "keeps P s (dl_state l)"
    using deposits_keeps.loop_inv [OF _ 1(4), of s "[]"] by (simp add: loop_keeps_def)
  also have "keeps P (dl_state l) s'"
    using 1(6) by (intro keeps_frame) (auto simp: and_then_eq_Ok split: if_splits)
  finally show ?case .
qed

lemma pending_consolidation_step_cases:
  assumes "pending_consolidation_step next_epoch x (s, n) = Ok c"
  obtains (stop) "c = Break (s, n)"
    | (slashed) "c = Continue (s, n + 1)"
    | (moved) amount s1 s2 where "c = Continue (s2, n + 1)" "amount \<le> balances s ! pc_source_index x"
      "update_balance s (pc_source_index x) (\<lambda>b. Ok (decrease_balance b amount)) = Ok s1"
      "update_balance s1 (pc_target_index x) (\<lambda>b. increase_balance b amount) = Ok s2"
proof -
  obtain v where v: "vl_get (validators s) (pc_source_index x) = Ok v"
    using assms by (auto simp: pending_consolidation_step_def and_then_eq_Ok)
  show ?thesis
  proof (cases "val_slashed v")
    case True
    then show ?thesis
      using assms v by (intro slashed) (auto simp: pending_consolidation_step_def map_ok_eq_Ok usize_try_add_Ok)
  next
    case ns: False
    show ?thesis
    proof (cases "next_epoch < val_withdrawable_epoch v")
      case True
      then show ?thesis using assms v ns by (intro stop) (simp add: pending_consolidation_step_def)
    next
      case False
      let ?m = "min (balances s ! pc_source_index x) (val_effective_balance v)"
      from False assms v ns obtain s1 s2 where "c = Continue (s2, n + 1)"
        "update_balance s (pc_source_index x) (\<lambda>b. Ok (decrease_balance b ?m)) = Ok s1"
        "update_balance s1 (pc_target_index x) (\<lambda>b. increase_balance b ?m) = Ok s2"
        unfolding pending_consolidation_step_def Let_def split_conv
        by (clarsimp simp: and_then_eq_Ok map_ok_eq_Ok usize_try_add_Ok list_get_Ok)
      then show ?thesis by (intro moved) simp_all
    qed
  qed
qed


definition consolidation_inv :: "beacon_state \<Rightarrow> pending_consolidation list \<Rightarrow> beacon_state \<times> nat \<Rightarrow> bool" where
  "consolidation_inv s0 pre = (\<lambda>(s, n).
     n = length pre \<and> (\<exists>bs. s = s0\<lparr> balances := bs \<rparr>)
     \<and> sum_list (balances s) = sum_list (balances s0) \<and> length (balances s) = length (balances s0))"

lemma move_balance:
  assumes "update_balance s i (\<lambda>b. Ok (decrease_balance b m)) = Ok s1" "m \<le> balances s ! i"
    "update_balance s1 j (\<lambda>b. increase_balance b m) = Ok s2"
  shows "sum_list (balances s2) = sum_list (balances s)" "length (balances s2) = length (balances s)"
    "\<exists>bs. s2 = s\<lparr> balances := bs \<rparr>"
proof -
  let ?b = "(balances s)[i := balances s ! i - m]"
  from assms(1) have s1: "i < length (balances s)" "s1 = s\<lparr> balances := ?b \<rparr>"
    by (auto simp: update_balance_Ok decrease_balance_def saturating_sub_def)
  from assms(3) have s2: "j < length ?b" "s2 = s\<lparr> balances := ?b[j := ?b ! j + m] \<rparr>"
    by (auto simp: update_balance_Ok s1(2) increase_balance_def try_add_Ok)
  have "sum_list ?b + m = sum_list (balances s)"
    using sum_list_update_add [OF s1(1), of "balances s ! i - m"] assms(2) by simp
  then show "sum_list (balances s2) = sum_list (balances s)"
    using s2(2) sum_list_update_add [OF s2(1), of "?b ! j + m"] by simp
  show "length (balances s2) = length (balances s)" "\<exists>bs. s2 = s\<lparr> balances := bs \<rparr>"
    using s2(2) by auto
qed

interpretation consolidations: loop_body "consolidation_inv s0" "pending_consolidation_step next_epoch"
  for s0 next_epoch
proof
  fix pre l x l'
  assume inv: "consolidation_inv s0 pre l" and step: "pending_consolidation_step next_epoch x l = Ok (Continue l')"
  obtain s n where l: "l = (s, n)" by (cases l)
  from step [unfolded l] show "consolidation_inv s0 (pre @ [x]) l'"
  proof (cases rule: pending_consolidation_step_cases)
    case (moved m s1 s2)
    then show ?thesis
      using inv move_balance [OF moved(3,2,4)]
      by (auto simp: consolidation_inv_def l)
  qed (use inv in \<open>auto simp: consolidation_inv_def l\<close>)
next
  fix pre l x l'
  assume inv: "consolidation_inv s0 pre l" and step: "pending_consolidation_step next_epoch x l = Ok (Break l')"
  obtain s n where l: "l = (s, n)" by (cases l)
  from step [unfolded l] show "consolidation_inv s0 pre l'"
    by (cases rule: pending_consolidation_step_cases) (use inv in \<open>auto simp: l\<close>)
qed

lemma pending_consolidations_cases:
  assumes "process_pending_consolidations P s = Ok s'"
  obtains k bs where "s' = s\<lparr> balances := bs, pending_consolidations := drop k (pending_consolidations s) \<rparr>"
    "k \<le> length (pending_consolidations s)" "sum_list bs = sum_list (balances s)"
    "length bs = length (balances s)"
  using assms unfolding process_pending_consolidations_def
proof (elim and_then_OkE, goal_cases)
  case (1 next_epoch l)
  obtain t n where l: "l = (t, n)" by (cases l)
  have "consolidation_inv s [] (s, 0)" by (auto simp: consolidation_inv_def intro: exI [of _ "balances s"])
  then obtain k where k: "k \<le> length (pending_consolidations s)"
      "consolidation_inv s (take k (pending_consolidations s)) (t, n)"
    using consolidations.loop_inv [OF _ 1(3) [unfolded l]] by fastforce
  then obtain bs where t: "t = s\<lparr> balances := bs \<rparr>" "n = k" "sum_list bs = sum_list (balances s)"
      "length bs = length (balances s)"
    by (auto simp: consolidation_inv_def)
  then show ?case
    using 1(1) [of k bs] 1(4) k(1) by (auto simp: l and_then_eq_Ok list_try_from_iter_Ok)
qed

lemma pending_consolidations_keeps: "process_pending_consolidations P s = Ok s' \<Longrightarrow> keeps P s s'"
  by (erule pending_consolidations_cases) (rule keeps_frame; simp)

text \<open>The new effective balance of one validator.\<close>

definition hysteresis :: "preset \<Rightarrow> gwei \<Rightarrow> gwei \<Rightarrow> partial_validator \<Rightarrow> gwei \<Rightarrow> gwei \<Rightarrow> gwei" where
  "hysteresis P down up v balance eb =
     (if balance + down < eb \<or> eb + up < balance
      then min (prev_multiple_of balance (EFFECTIVE_BALANCE_INCREMENT P)) (get_max_effective_balance P v)
      else eb)"

lemma new_effective_balance_Ok:
  "new_effective_balance P down up bs v eb = Ok (bs', e) \<Longrightarrow> \<exists>b. bs = b # bs' \<and> e = hysteresis P down up v b eb"
  by (cases bs) (auto simp: new_effective_balance_def and_then_eq_Ok try_add_Ok hysteresis_def)

lemma update_balances_loop_hysteresis:
  assumes "update_balances_loop (new_effective_balance P down up) inval len idx ps olds bs c = Ok (news, rest, c')"
    and "length ps = length olds"
  shows "length news = length olds \<and> length olds \<le> length bs
    \<and> (\<forall>i < length olds. news ! i = hysteresis P down up (ps ! i) (bs ! i) (olds ! i))"
  using assms
proof (induction ps arbitrary: olds bs c idx news)
  case (Cons p ps)
  then obtain old olds' where olds: "olds = old # olds'" by (cases olds) auto
  obtain b bs1 c1 news' where *: "bs = b # bs1"
    "update_balances_loop (new_effective_balance P down up) inval len (Suc idx) ps olds' bs1 c1 = Ok (news', rest, c')"
    "news = hysteresis P down up p b old # news'"
    using Cons.prems(1) by (auto simp: olds and_then_eq_Ok dest!: new_effective_balance_Ok)
  show ?case using Cons.IH [OF *(2)] Cons.prems(2) by (auto simp: * olds nth_Cons split: nat.splits)
qed simp

lemma effective_balance_updates_cases:
  assumes "process_effective_balance_updates P s = Ok s'"
    and "length (vl_partial_validators (validators s)) = length (vl_effective_balances (validators s))"
  obtains vs down up where "s' = s\<lparr> validators := vs \<rparr>"
    "down = EFFECTIVE_BALANCE_INCREMENT P div HYSTERESIS_QUOTIENT P * HYSTERESIS_DOWNWARD_MULTIPLIER P"
    "up = EFFECTIVE_BALANCE_INCREMENT P div HYSTERESIS_QUOTIENT P * HYSTERESIS_UPWARD_MULTIPLIER P"
    "vl_pubkeys vs = vl_pubkeys (validators s)"
    "vl_partial_validators vs = vl_partial_validators (validators s)"
    "length (vl_effective_balances vs) = length (vl_effective_balances (validators s))"
    "\<forall>i < length (vl_effective_balances vs). vl_effective_balances vs ! i =
       hysteresis P down up (vl_partial_validators (validators s) ! i) (balances s ! i)
         (vl_effective_balances (validators s) ! i)"
  using assms(1) unfolding process_effective_balance_updates_def Let_def try_mul_Ok
proof (elim and_then_OkE, goal_cases)
  case (1 down up p)
  obtain vs rest where p: "p = (vs, rest)" by (cases p)
  let ?b = "vl_buf (validators s)"
  from 1(4) obtain news c' where u: "update_balances_loop (new_effective_balance P down up)
      (\<lambda>index len cache. case cache of None \<Rightarrow> Ok None | Some node \<Rightarrow> map_ok Some (cache_invalidate node index len))
      (raw_len ?b) 0 (rv_items ?b) (rv_effective_balances ?b) (balances s) (vl_cache (validators s)) = Ok (news, rest, c')"
    and vs: "vs = \<lparr> vl_buf = ?b\<lparr> rv_effective_balances := news \<rparr>, vl_cache = c' \<rparr>"
    by (auto simp: p vl_update_effective_balances_def raw_update_effective_balances_def and_then_eq_Ok)
  from update_balances_loop_hysteresis [OF u] assms(2) 1(1) [of vs] 1(2,3,5) show ?case
    by (auto simp: p vs try_mul_Ok vl_partial_validators_def vl_effective_balances_def vl_pubkeys_def)
qed


lemma state_wf_columns:
  "state_wf P s \<Longrightarrow> length (vl_partial_validators (validators s)) = length (vl_effective_balances (validators s))"
  by (simp add: state_wf_def raw_wf_def vl_partial_validators_def vl_effective_balances_def)

lemma effective_balance_updates_keeps:
  assumes "process_effective_balance_updates P s = Ok s'"
  shows "keeps P s s'"
proof -
  have "history s' = history s \<and> finality s' = finality s"
    using assms by (auto simp: process_effective_balance_updates_def Let_def and_then_eq_Ok)
  moreover have "state_wf P s'" if "state_wf P s"
    using assms state_wf_columns [OF that]
    by (rule effective_balance_updates_cases) (rule state_wf_frame [OF that]; simp)
  ultimately show ?thesis by (simp add: keeps_def)
qed

lemma eth1_data_reset_keeps: "process_eth1_data_reset P s = Ok s' \<Longrightarrow> keeps P s s'"
  unfolding process_eth1_data_reset_def Let_def
  by (rule keeps_frame) (auto simp: and_then_eq_Ok mod_index_mut_Ok list_push_Ok split: if_splits)

lemma slashings_reset_keeps: "process_slashings_reset P s = Ok s' \<Longrightarrow> keeps P s s'"
  unfolding process_slashings_reset_def Let_def
  by (rule keeps_frame) (auto simp: and_then_eq_Ok mod_index_mut_Ok list_push_Ok split: if_splits)

lemma randao_mixes_reset_keeps: "process_randao_mixes_reset P s = Ok s' \<Longrightarrow> keeps P s s'"
  unfolding process_randao_mixes_reset_def Let_def
  by (rule keeps_frame) (auto simp: and_then_eq_Ok mod_index_mut_Ok list_push_Ok split: if_splits)

lemma historical_summaries_update_keeps: "process_historical_summaries_update E P s = Ok s' \<Longrightarrow> keeps P s s'"
  unfolding process_historical_summaries_update_def Let_def
  by (rule keeps_frame) (auto simp: and_then_eq_Ok mod_index_mut_Ok list_push_Ok split: if_splits)

lemma sync_committee_updates_keeps: "process_sync_committee_updates E P s = Ok s' \<Longrightarrow> keeps P s s'"
  unfolding process_sync_committee_updates_def Let_def
  by (rule keeps_frame) (auto simp: and_then_eq_Ok mod_index_mut_Ok list_push_Ok split: if_splits)

lemma participation_flags_keeps:
  assumes "process_participation_flag_updates P s = Ok s'"
  shows "keeps P s s'"
proof -
  have "s' = s\<lparr> previous_epoch_participation := current_epoch_participation s,
      current_epoch_participation := replicate (vl_len (validators s)) 0 \<rparr>"
    using assms by (auto simp: process_participation_flag_updates_def Let_def and_then_eq_Ok expect_ok_Ok list_try_from_iter_Ok)
  then show ?thesis
    by (auto simp: keeps_def state_wf_def per_validator_lists_def vector_sizes_def Let_def)
qed

text \<open>After justification and finalization no step of epoch processing touches the checkpoints.\<close>

lemma process_epoch_cases:
  assumes "process_epoch E config P s = Ok s'"
  obtains stats s1 where "process_justification_and_finalization P s stats = Ok s1" "keeps P s1 s'"
  using assms unfolding process_epoch_def split_def
proof (elim and_then_OkE, goal_cases)
  case (1 st s1 s2 deltas s3 r sl s5 s6 s7 s8 s9 s10 s11 s12)
  have "keeps P s1 s2" by (rule inactivity_updates_keeps [OF 1(4)])
  also have "keeps P s2 s3" by (rule rewards_keeps [OF 1(6)])
  also have "keeps P s3 (fst r)" using registry_updates_keeps [of config P s3 _ "fst r" "snd r"] 1(7) by simp
  also have "keeps P (fst r) (snd sl)" using slashings_keeps [of P "fst r" _ "fst sl" "snd sl"] 1(8) by simp
  also have "keeps P (snd sl) s5" by (rule eth1_data_reset_keeps [OF 1(9)])
  also have "keeps P s5 s6" by (rule pending_deposits_keeps [OF 1(10)])
  also have "keeps P s6 s7" by (rule pending_consolidations_keeps [OF 1(11)])
  also have "keeps P s7 s8" by (rule effective_balance_updates_keeps [OF 1(12)])
  also have "keeps P s8 s9" by (rule slashings_reset_keeps [OF 1(13)])
  also have "keeps P s9 s10" by (rule randao_mixes_reset_keeps [OF 1(14)])
  also have "keeps P s10 s11" by (rule historical_summaries_update_keeps [OF 1(15)])
  also have "keeps P s11 s12" by (rule participation_flags_keeps [OF 1(16)])
  also have "keeps P s12 s'" by (rule sync_committee_updates_keeps [OF 1(17)])
  finally show ?case by (rule 1(1) [OF 1(3)])
qed

lemma process_epoch_keeps: "process_epoch E config P s = Ok s' \<Longrightarrow> keeps_history P s s'"
  by (erule process_epoch_cases) (rule keeps_history_trans [OF justification_keeps])

end
