(* ===== verification/Epoch_Correctness.thy ===== *)
theory Epoch_Correctness
  imports Epoch_Invariants "HOL-Library.Multiset" "HOL-Library.Sublist"
begin

text \<open>
  What epoch processing does to the registry and the queues: the state stays well formed,
  effective balances follow the balances with hysteresis, consolidations conserve the total
  balance, and pending deposits are taken from the queue in order and within the churn limit.
\<close>

subsection \<open>An epoch of a small state\<close>

lemma sample_one_columns:
  "vl_partial_validators (sample_registry 1) = [\<lparr> pv_withdrawal_credentials = 1 # replicate 31 0, pv_slashed = False,
     pv_activation_eligibility_epoch = 0, pv_activation_epoch = 0,
     pv_exit_epoch = FAR_FUTURE_EPOCH, pv_withdrawable_epoch = FAR_FUTURE_EPOCH \<rparr>]"
  "vl_effective_balances (sample_registry 1) = [32000000000]"
  by (simp_all add: vl_partial_validators_def vl_effective_balances_def sample_registry_def)

definition sample_one_summary :: validator_summary where
  "sample_one_summary =
     \<lparr> vs_effective_balance = 32000000000, vs_slashed = False, vs_withdrawable_epoch = FAR_FUTURE_EPOCH,
       vs_active_in_previous_epoch = True, vs_eligible_for_penalties = True \<rparr>"

definition sample_one_statistics :: statistics where
  "sample_one_statistics =
     \<lparr> previous_epoch_source_participating_balance = 1000000000,
       previous_epoch_target_participating_balance = 1000000000,
       previous_epoch_head_participating_balance = 1000000000,
       current_epoch_target_participating_balance = 1000000000 \<rparr>"

abbreviation sample_part :: participation where
  "sample_part \<equiv> \<lparr> part_previous = 0, part_current = 0 \<rparr>"

lemma sample_one_state [simp]:
  "slot (sample_state n) = 70" "validators (sample_state n) = sample_registry n"
  "finalized_checkpoint (sample_state n) = sample_checkpoint"
  by (simp_all add: sample_state_def)

lemma sample_one_statistics_eq:
  "statistics_and_summaries sample_preset (sample_state 1) =
     Ok (sample_one_statistics, [sample_one_summary], [sample_part])"
proof -
  have "combined_participation (sample_state 1) = Ok [sample_part]"
    by (simp add: combined_participation_def sample_state_def)
  then show ?thesis
    by (simp add: statistics_and_summaries_def sample_one_columns Let_def sample_epochs sample_one_statistics_def
        is_active_validator_def is_eligible_for_penalties_def add_participating_def add_if_def statistics_default_def
        sample_one_summary_def clamp_balances_def clamp_balance_def previous_epoch_matching_source_def
        previous_epoch_matching_target_def previous_epoch_matching_head_def current_epoch_matching_target_def
        FAR_FUTURE_EPOCH_def del: One_nat_def)
qed

lemma sample_one_total:
  "slot s = 70 \<Longrightarrow> validators s = sample_registry 1 \<Longrightarrow> total_active_balance sample_preset s = Ok 32000000000"
  by (simp add: total_active_balance_def sample_epochs sample_one_columns is_active_validator_def FAR_FUTURE_EPOCH_def
      sum_rs_eq u64_bound_def Let_def del: One_nat_def)

lemma sample_preset_epoch [simp]:
  "MIN_EPOCHS_TO_INACTIVITY_PENALTY sample_preset = 4" "BASE_REWARD_FACTOR sample_preset = 64"
  "INACTIVITY_PENALTY_QUOTIENT_BELLATRIX sample_preset = 16777216" "EpochsPerEth1VotingPeriod sample_preset = 4"
  "EpochsPerHistoricalRoot sample_preset = 8" "EPOCHS_PER_SYNC_COMMITTEE_PERIOD sample_preset = 8"
  "HYSTERESIS_QUOTIENT sample_preset = 4" "HYSTERESIS_DOWNWARD_MULTIPLIER sample_preset = 1"
  "HYSTERESIS_UPWARD_MULTIPLIER sample_preset = 5" "MIN_ACTIVATION_BALANCE sample_preset = 32000000000"
  "ValidatorRegistryLimit sample_preset = 2 ^ 40" "PendingDepositsLimit sample_preset = 2 ^ 27"
  "PendingConsolidationsLimit sample_preset = 64" "MAX_PENDING_DEPOSITS_PER_EPOCH sample_preset = 16"
  by (simp_all add: sample_preset_def MinimalPreset_def MainnetPreset_def)

lemma sample_config [simp]:
  "cfg_inactivity_score_bias config_minimal = 4" "cfg_ejection_balance config_minimal = 16000000000"
  by (simp_all add: config_minimal_def config_default_def)

lemma sample_one_justification:
  "process_justification_and_finalization sample_preset (sample_state 1) sample_one_statistics = Ok (sample_state 1)"
  by (simp add: process_justification_and_finalization_def should_process_justification_and_finalization_def
      weigh_justification_and_finalization_def justify_if_supermajority_def finalize_if_def sample_one_total
      sample_one_statistics_def sample_epochs bits_range_def bits_index_def nth_rs_def upt_rec sample_state_def replicate_4
      bits_shift_up_def Let_def GENESIS_EPOCH_def arith_defs ok_or_def u64_bound_def del: One_nat_def)

definition sample_one_scored :: beacon_state where
  "sample_one_scored = (sample_state 1)\<lparr> inactivity_scores := [4] \<rparr>"

definition sample_one_after :: beacon_state where
  "sample_one_after = (sample_state 1)\<lparr> balances := [31999998013], inactivity_scores := [4] \<rparr>"

lemma sample_one_simps [simp]:
  "slot sample_one_scored = 70" "validators sample_one_scored = sample_registry 1"
  "finalized_checkpoint sample_one_scored = sample_checkpoint" "inactivity_scores sample_one_scored = [4]"
  "slot sample_one_after = 70" "validators sample_one_after = sample_registry 1"
  "finalized_checkpoint sample_one_after = sample_checkpoint" "balances sample_one_after = [31999998013]"
  by (simp_all add: sample_one_scored_def sample_one_after_def)

lemma sample_leak: "slot s = 70 \<Longrightarrow> finalized_checkpoint s = sample_checkpoint \<Longrightarrow> is_in_inactivity_leak sample_preset s = Ok True"
  by (simp add: is_in_inactivity_leak_def get_finality_delay_def sample_epochs sample_checkpoint_def try_sub_def
      checked_sub_def ok_or_def)

lemma sample_one_inactivity:
  "process_inactivity_updates config_minimal sample_preset (sample_state 1) [sample_one_summary] [sample_part] =
     Ok sample_one_scored"
proof -
  have "inactivity_scores (sample_state 1) = [0]" by (simp add: sample_state_def)
  then show ?thesis
    by (simp add: process_inactivity_updates_def should_process_inactivity_updates_def sample_epochs sample_leak
        GENESIS_EPOCH_def update_score_def sample_one_summary_def previous_epoch_matching_target_def
        try_add_def checked_add_def ok_or_def u64_bound_def sample_one_scored_def del: One_nat_def)
qed

lemma sample_one_deltas:
  "epoch_deltas for_transition sample_env config_minimal sample_preset sample_one_scored sample_one_statistics
     [sample_one_summary] [sample_part] = Ok [\<lparr> dt_reward = 0, dt_penalty = 1987 \<rparr>]"
proof -
  have "ev_sqrt sample_env n = n div 2" for n by (simp add: sample_env_def)
  then show ?thesis
    by (simp add: epoch_deltas_def sample_leak get_base_reward_per_increment_def compute_base_reward_def
        source_deltas_def target_deltas_def head_deltas_def participation_component_penalty_def
        inactivity_penalty_def previous_epoch_matching_source_def previous_epoch_matching_target_def
        previous_epoch_matching_head_def TIMELY_SOURCE_WEIGHT_def TIMELY_TARGET_WEIGHT_def WEIGHT_DENOMINATOR_def
        sample_one_total sample_one_summary_def for_transition_def transition_add_penalty_def
        arith_defs ok_or_def u64_bound_def del: One_nat_def)
qed

lemma sample_one_rewards:
  "process_rewards_and_penalties for_transition sample_preset sample_one_scored [\<lparr> dt_reward = 0, dt_penalty = 1987 \<rparr>] =
     Ok sample_one_after"
proof -
  have "balances sample_one_scored = [32000000000]" by (simp add: sample_one_scored_def sample_state_def)
  then show ?thesis
    by (simp add: process_rewards_and_penalties_def should_process_rewards_and_penalties_def sample_epochs GENESIS_EPOCH_def
        apply_delta_def for_transition_def increase_balance_def decrease_balance_def saturating_sub_def
        try_add_def checked_add_def ok_or_def u64_bound_def sample_one_scored_def sample_one_after_def)
qed

lemma sample_next_epoch: "slot s = 70 \<Longrightarrow> get_next_epoch sample_preset s = Ok 9" "try_add 8 1 = Ok 9"
  by (simp_all add: get_next_epoch_def sample_epochs try_add_def checked_add_def ok_or_def u64_bound_def)

lemma sample_one_registry:
  "process_registry_updates config_minimal sample_preset sample_one_after [sample_one_summary] =
     Ok (sample_one_after, [sample_one_summary])"
  by (simp add: process_registry_updates_def sample_next_epoch sample_epochs sample_one_columns Let_def
      is_eligible_for_activation_queue_def is_active_validator_def is_eligible_for_activation_def sample_checkpoint_def
      compute_activation_exit_epoch_def FAR_FUTURE_EPOCH_def try_add_def checked_add_def ok_or_def u64_bound_def
      enumerate_simps(2) del: One_nat_def)

lemma sample_one_slashings:
  "process_slashings sample_preset sample_one_after [sample_one_summary] = Ok ([], sample_one_after)"
  by (simp add: process_slashings_def sample_one_total sample_epochs apply_slashing_def sample_one_summary_def
      sample_one_after_def)

lemma sample_after_fields [simp]:
  "pending_deposits sample_one_after = []" "pending_consolidations sample_one_after = []"
  "deposit_balance_to_consume sample_one_after = 0" "slashings sample_one_after = replicate 64 0"
  "randao_mixes sample_one_after = replicate 64 (replicate 32 0)"
  "current_epoch_participation sample_one_after = [0]"
  by (simp_all add: sample_one_after_def sample_state_def)

lemma sample_after_updates:
  "sample_one_after\<lparr> pending_deposits := [], deposit_balance_to_consume := 0 \<rparr> = sample_one_after"
  "sample_one_after\<lparr> pending_consolidations := [] \<rparr> = sample_one_after"
  "sample_one_after\<lparr> slashings := replicate 64 0 \<rparr> = sample_one_after"
  "sample_one_after\<lparr> randao_mixes := replicate 64 (replicate 32 0) \<rparr> = sample_one_after"
  "sample_one_after\<lparr> previous_epoch_participation := [0], current_epoch_participation := [0] \<rparr> = sample_one_after"
  "sample_one_after\<lparr> validators := sample_registry 1 \<rparr> = sample_one_after"
  by (simp_all add: sample_one_after_def sample_state_def)

lemma sample_one_churn:
  "get_activation_exit_churn_limit config_minimal sample_preset sample_one_after = Ok 64000000000"
  by (simp add: get_activation_exit_churn_limit_def get_balance_churn_limit_def sample_one_total config_minimal_def
      config_default_def prev_multiple_of_def saturating_sub_def)

lemma sample_one_deposits:
  "process_pending_deposits sample_env config_minimal sample_preset sample_one_after = Ok sample_one_after"
  by (simp add: process_pending_deposits_def sample_epochs sample_next_epoch sample_one_churn try_add_def checked_add_def
      ok_or_def u64_bound_def list_try_from_iter_def sample_after_updates Let_def)

lemma sample_one_consolidations:
  "process_pending_consolidations sample_preset sample_one_after = Ok sample_one_after"
  by (simp add: process_pending_consolidations_def sample_epochs try_add_def checked_add_def
      ok_or_def u64_bound_def list_try_from_iter_def sample_after_updates)

lemma sample_new_effective:
  "new_effective_balance sample_preset 250000000 1250000000 [31999998013] v 32000000000 = Ok ([], 32000000000)"
  by (simp add: new_effective_balance_def try_add_def checked_add_def ok_or_def u64_bound_def)

lemma sample_one_effective:
  "process_effective_balance_updates sample_preset sample_one_after = Ok sample_one_after"
proof -
  have "vl_update_effective_balances (sample_registry 1) (new_effective_balance sample_preset 250000000 1250000000)
      [31999998013] = Ok (sample_registry 1, [])"
    by (simp add: vl_update_effective_balances_def raw_update_effective_balances_def sample_registry_def
        sample_new_effective)
  then show ?thesis
    by (simp add: process_effective_balance_updates_def arith_defs ok_or_def u64_bound_def sample_after_updates
        del: One_nat_def)
qed

lemma sample_one_eth1: "process_eth1_data_reset sample_preset sample_one_after = Ok sample_one_after"
  by (simp add: process_eth1_data_reset_def sample_next_epoch)

lemma sample_one_slashings_reset: "process_slashings_reset sample_preset sample_one_after = Ok sample_one_after"
  by (simp add: process_slashings_reset_def sample_next_epoch mod_index_mut_def list_modify_ok sample_after_updates
      list_update_same_conv [THEN iffD2])

lemma sample_one_randao: "process_randao_mixes_reset sample_preset sample_one_after = Ok sample_one_after"
  by (simp add: process_randao_mixes_reset_def sample_next_epoch sample_epochs get_randao_mix_def mod_index_def list_get_ok
      mod_index_mut_def list_modify_ok sample_after_updates list_update_same_conv [THEN iffD2] Let_def)

lemma sample_one_historical:
  "process_historical_summaries_update sample_env sample_preset sample_one_after = Ok sample_one_after"
  by (simp add: process_historical_summaries_update_def sample_next_epoch)

lemma sample_one_participation: "process_participation_flag_updates sample_preset sample_one_after = Ok sample_one_after"
  by (simp add: process_participation_flag_updates_def list_try_from_iter_def expect_ok_def saturating_usize_def
      sample_after_updates Let_def)

lemma sample_one_sync: "process_sync_committee_updates sample_env sample_preset sample_one_after = Ok sample_one_after"
  by (simp add: process_sync_committee_updates_def sample_epochs try_add_def checked_add_def ok_or_def u64_bound_def)

lemma sample_process_epoch:
  "process_epoch sample_env config_minimal sample_preset (sample_state 1) = Ok sample_one_after"
  by (simp add: process_epoch_def sample_one_statistics_eq sample_one_justification sample_one_inactivity
      sample_one_deltas sample_one_rewards sample_one_registry sample_one_slashings sample_one_deposits
      sample_one_consolidations sample_one_effective sample_one_eth1 sample_one_slashings_reset
      sample_one_randao sample_one_historical sample_one_participation sample_one_sync del: One_nat_def)

text \<open>
  C18. Epoch processing keeps the state well formed: whenever it succeeds on a state whose registry
  columns, per-validator lists and vectors have the right sizes, the resulting state has them too,
  also if pending deposits have added validators, and the slot is unchanged.
\<close>

theorem process_epoch_wf:
  assumes "process_epoch E config P s = Ok s'" "state_wf P s"
  shows "state_wf P s' \<and> slot s' = slot s"
  using process_epoch_keeps [OF assms(1)] assms(2) by (simp add: keeps_history_def)

theorem process_epoch_wf_witness:
  "process_epoch sample_env config_minimal sample_preset (sample_state 1) = Ok sample_one_after
   \<and> state_wf sample_preset sample_one_after \<and> slot sample_one_after = slot (sample_state 1)"
  using process_epoch_wf [OF sample_process_epoch sample_state_wf_preset] sample_process_epoch by simp

subsection \<open>Effective balances\<close>

text \<open>An effective balance is a multiple of the increment and at most the maximum for the credentials.\<close>

definition effective_ok :: "preset \<Rightarrow> partial_validator \<Rightarrow> gwei \<Rightarrow> bool" where
  "effective_ok P v eb \<longleftrightarrow> EFFECTIVE_BALANCE_INCREMENT P dvd eb \<and> eb \<le> get_max_effective_balance P v"

context preset_laws
begin

lemma max_effective_multiple: "EFFECTIVE_BALANCE_INCREMENT P dvd get_max_effective_balance P v"
  using increment_dvd_min increment_dvd_max by (simp add: get_max_effective_balance_def)

lemma capped_multiple:
  "effective_ok P v (min (prev_multiple_of b (EFFECTIVE_BALANCE_INCREMENT P)) (get_max_effective_balance P v))"
  using max_effective_multiple [of v] prev_multiple_of_greatest(1) [of "EFFECTIVE_BALANCE_INCREMENT P" b] increment_pos
  by (simp add: effective_ok_def min_def)

lemma hysteresis_close:
  fixes down up b :: nat
  assumes "effective_ok P v eb"
  defines "e \<equiv> hysteresis P down up v b eb"
  shows "effective_ok P v e \<and> e \<le> b + down
    \<and> (e = get_max_effective_balance P v \<or> b \<le> e + max up (EFFECTIVE_BALANCE_INCREMENT P))"
proof (cases "b + down < eb \<or> eb + up < b")
  case True
  have "prev_multiple_of b (EFFECTIVE_BALANCE_INCREMENT P) \<le> b"
    "b < prev_multiple_of b (EFFECTIVE_BALANCE_INCREMENT P) + EFFECTIVE_BALANCE_INCREMENT P"
    using prev_multiple_of_greatest(2,3) [of "EFFECTIVE_BALANCE_INCREMENT P" b] increment_pos by simp_all
  then show ?thesis using True capped_multiple [of v b] by (auto simp: e_def hysteresis_def)
next
  case False
  then show ?thesis using assms(1) by (auto simp: e_def hysteresis_def)
qed

end

text \<open>
  C12. Effective balances follow the balances with hysteresis.  After the update every validator
  has an effective balance that is a multiple of the increment, at most the maximum for its
  withdrawal credentials, at most the balance plus the downward threshold, and, unless it is that
  maximum, below the balance by at most the upward threshold or one increment; public keys and the
  other fields of the validators stay the same.
\<close>

theorem effective_balances_follow:
  assumes "preset_laws P" "process_effective_balance_updates P s = Ok s'" "state_wf P s"
    and "\<forall>i < vl_len (validators s).
      effective_ok P (vl_partial_validators (validators s) ! i) (vl_effective_balances (validators s) ! i)"
  defines "down \<equiv> EFFECTIVE_BALANCE_INCREMENT P div HYSTERESIS_QUOTIENT P * HYSTERESIS_DOWNWARD_MULTIPLIER P"
    and "up \<equiv> EFFECTIVE_BALANCE_INCREMENT P div HYSTERESIS_QUOTIENT P * HYSTERESIS_UPWARD_MULTIPLIER P"
  shows "vl_partial_validators (validators s') = vl_partial_validators (validators s)
    \<and> vl_pubkeys (validators s') = vl_pubkeys (validators s)
    \<and> (\<forall>i < vl_len (validators s').
         let v = vl_partial_validators (validators s') ! i;
             e = vl_effective_balances (validators s') ! i;
             b = balances s' ! i
         in effective_ok P v e \<and> e \<le> b + down
            \<and> (e = get_max_effective_balance P v \<or> b \<le> e + max up (EFFECTIVE_BALANCE_INCREMENT P)))"
  using assms(2) state_wf_columns [OF assms(3)]
proof (rule effective_balance_updates_cases, goal_cases)
  case (1 vs d u)
  have len: "length (vl_effective_balances vs) = vl_len (validators s)" "vl_len vs = vl_len (validators s)"
    using 1(6) assms(3) vl_len_pubkeys [OF 1(4)] by (simp_all add: state_wf_def raw_wf_def vl_effective_balances_def vl_len_def)
  show ?case
    using 1 len assms(4) preset_laws.hysteresis_close [OF assms(1)]
    by (simp add: down_def up_def Let_def)
qed

definition sample_low_balance :: beacon_state where
  "sample_low_balance = (sample_state 1)\<lparr> balances := [31000000000] \<rparr>"

lemma sample_low_update:
  "\<exists>vs. process_effective_balance_updates sample_preset sample_low_balance = Ok (sample_low_balance\<lparr> validators := vs \<rparr>)
     \<and> vl_effective_balances vs = [31000000000]"
proof -
  have *: "new_effective_balance sample_preset 250000000 1250000000 [31000000000] v 32000000000 = Ok ([], 31000000000)"
    if "\<not> has_compounding_withdrawal_credential v" for v
    using that by (simp add: new_effective_balance_def try_add_def checked_add_def ok_or_def u64_bound_def
        get_max_effective_balance_def prev_multiple_of_def saturating_sub_def)
  have "vl_update_effective_balances (sample_registry 1) (new_effective_balance sample_preset 250000000 1250000000)
      [31000000000] = Ok ((sample_registry 1)\<lparr> vl_buf := (vl_buf (sample_registry 1))\<lparr> rv_effective_balances := [31000000000] \<rparr> \<rparr>, [])"
    by (simp add: vl_update_effective_balances_def raw_update_effective_balances_def sample_registry_def *
        has_compounding_withdrawal_credential_def is_compounding_withdrawal_credential_def starts_with_def
        COMPOUNDING_WITHDRAWAL_PREFIX_def)
  then show ?thesis
    by (intro exI [of _ "(sample_registry 1)\<lparr> vl_buf := (vl_buf (sample_registry 1))\<lparr> rv_effective_balances := [31000000000] \<rparr> \<rparr>"])
      (simp add: process_effective_balance_updates_def arith_defs ok_or_def u64_bound_def sample_low_balance_def
        vl_effective_balances_def del: One_nat_def)
qed

theorem effective_balances_follow_witness:
  "\<exists>s'. process_effective_balance_updates sample_preset sample_low_balance = Ok s'
     \<and> vl_effective_balances (validators s') = [31000000000]
     \<and> effective_ok sample_preset (vl_partial_validators (validators s') ! 0) 31000000000"
proof -
  obtain vs where vs: "process_effective_balance_updates sample_preset sample_low_balance =
      Ok (sample_low_balance\<lparr> validators := vs \<rparr>)" "vl_effective_balances vs = [31000000000]"
    using sample_low_update by blast
  have wf: "state_wf sample_preset sample_low_balance"
    using sample_state_wf_preset [of 1] by (rule state_wf_frame) (simp_all add: sample_low_balance_def sample_state_def)
  have ok: "\<forall>i < vl_len (validators sample_low_balance). effective_ok sample_preset
      (vl_partial_validators (validators sample_low_balance) ! i) (vl_effective_balances (validators sample_low_balance) ! i)"
    by (simp add: sample_low_balance_def sample_one_columns effective_ok_def get_max_effective_balance_def
        has_compounding_withdrawal_credential_def is_compounding_withdrawal_credential_def starts_with_def
        COMPOUNDING_WITHDRAWAL_PREFIX_def del: One_nat_def)
  have "state_wf sample_preset (sample_low_balance\<lparr> validators := vs \<rparr>)"
    using effective_balance_updates_keeps [OF vs(1)] wf by (simp add: keeps_def)
  then have "vl_len vs = 1" using vs(2)
    by (simp add: state_wf_def raw_wf_def vl_len_def vl_effective_balances_def)
  then show ?thesis
    using effective_balances_follow [OF _ vs(1) wf ok] vs sample_preset.preset_laws_axioms by (auto simp: Let_def)
qed

subsection \<open>Pending consolidations\<close>

text \<open>
  C11. Consolidations move balances and create none.  The queue loses a prefix, in order, the sum of
  all balances is the same before and after, and nothing but the balances and the queue changes.
\<close>

theorem consolidations_conserve_balance:
  assumes "process_pending_consolidations P s = Ok s'"
  shows "sum_list (balances s') = sum_list (balances s) \<and> length (balances s') = length (balances s)
    \<and> suffix (pending_consolidations s') (pending_consolidations s)
    \<and> s' = s\<lparr> balances := balances s', pending_consolidations := pending_consolidations s' \<rparr>"
  using assms by (rule pending_consolidations_cases) (simp add: suffix_drop)

definition sample_consolidating :: beacon_state where
  "sample_consolidating = (sample_state 2)\<lparr>
     validators := \<lparr> vl_buf = (vl_buf (sample_registry 2))\<lparr> rv_items :=
       (rv_items (vl_buf (sample_registry 2)))[0 := \<lparr> pv_withdrawal_credentials = 1 # replicate 31 0,
          pv_slashed = False, pv_activation_eligibility_epoch = 0, pv_activation_epoch = 0,
          pv_exit_epoch = 3, pv_withdrawable_epoch = 5 \<rparr>] \<rparr>, vl_cache = None \<rparr>,
     pending_consolidations := [\<lparr> pc_source_index = 0, pc_target_index = 1 \<rparr>, \<lparr> pc_source_index = 1, pc_target_index = 0 \<rparr>] \<rparr>"

lemma sample_consolidation_sources:
  "\<exists>v. vl_get (validators sample_consolidating) 0 = Ok v \<and> \<not> val_slashed v
     \<and> val_withdrawable_epoch v = 5 \<and> val_effective_balance v = 32000000000"
  "\<exists>v. vl_get (validators sample_consolidating) 1 = Ok v \<and> \<not> val_slashed v
     \<and> val_withdrawable_epoch v = FAR_FUTURE_EPOCH"
  by (simp_all add: sample_consolidating_def vl_get_def raw_get_def raw_validate_index_def validate_index_def
      sample_registry_def raw_len_def pubkeys_len_def pubkeys_from_iter_def pubkeys_get_def expect_def nth_rs_def
      make_validator_def upt_rec)

lemma sample_consolidating_fields:
  "slot sample_consolidating = 70" "balances sample_consolidating = [32000000000, 32000000000]"
  "pending_consolidations sample_consolidating =
     [\<lparr> pc_source_index = 0, pc_target_index = 1 \<rparr>, \<lparr> pc_source_index = 1, pc_target_index = 0 \<rparr>]"
  by (simp_all add: sample_consolidating_def sample_state_def numeral_2_eq_2)

lemma sample_consolidate:
  "process_pending_consolidations sample_preset sample_consolidating =
     Ok (sample_consolidating\<lparr> balances := [0, 64000000000],
           pending_consolidations := [\<lparr> pc_source_index = 1, pc_target_index = 0 \<rparr>] \<rparr>)"
proof -
  obtain v w where v: "vl_get (validators sample_consolidating) 0 = Ok v" "\<not> val_slashed v"
      "val_withdrawable_epoch v = 5" "val_effective_balance v = 32000000000"
    and w: "vl_get (validators sample_consolidating) 1 = Ok w" "\<not> val_slashed w"
      "val_withdrawable_epoch w = FAR_FUTURE_EPOCH"
    using sample_consolidation_sources by blast
  have "pending_consolidation_step 9 \<lparr> pc_source_index = 0, pc_target_index = 1 \<rparr> (sample_consolidating, 0) =
      Ok (Continue (sample_consolidating\<lparr> balances := [0, 64000000000] \<rparr>, 1))"
    by (simp add: pending_consolidation_step_def v list_get_def validate_index_def sample_consolidating_fields
        update_balance_def decrease_balance_def saturating_sub_def increase_balance_def arith_defs ok_or_def
        u64_bound_def usize_try_add_def)
  moreover have "pending_consolidation_step 9 \<lparr> pc_source_index = 1, pc_target_index = 0 \<rparr>
      (sample_consolidating\<lparr> balances := bs \<rparr>, n) = Ok (Break (sample_consolidating\<lparr> balances := bs \<rparr>, n))" for bs n
    using w by (simp add: pending_consolidation_step_def FAR_FUTURE_EPOCH_def)
  ultimately show ?thesis
    by (simp add: process_pending_consolidations_def sample_epochs try_add_def checked_add_def ok_or_def u64_bound_def
        sample_consolidating_fields list_try_from_iter_def drop_Cons' saturating_usize_def del: One_nat_def)
qed

theorem consolidations_conserve_balance_witness:
  "\<exists>s'. process_pending_consolidations sample_preset sample_consolidating = Ok s'
     \<and> balances s' = [0, 64000000000] \<and> sum_list (balances s') = sum_list (balances sample_consolidating)"
  using consolidations_conserve_balance [OF sample_consolidate] sample_consolidate by simp

subsection \<open>Pending deposits\<close>

abbreviation amounts :: "pending_deposit multiset \<Rightarrow> gwei" where
  "amounts D \<equiv> \<Sum>\<^sub># (image_mset pd_amount D)"

text \<open>The registry while deposits are applied: validators are only appended, and balances only grow.\<close>

definition registry_grown :: "beacon_state \<Rightarrow> beacon_state \<Rightarrow> bool" where
  "registry_grown s0 s \<longleftrightarrow>
     (\<exists>ws. vl_partial_validators (validators s) = vl_partial_validators (validators s0) @ ws
        \<and> (\<forall>w \<in> set ws. pv_exit_epoch w = FAR_FUTURE_EPOCH \<and> pv_withdrawable_epoch w = FAR_FUTURE_EPOCH))
     \<and> vl_len (validators s) = length (vl_partial_validators (validators s))
     \<and> (\<forall>pk i. index_of_public_key s pk = Some i \<longrightarrow> i < length (vl_partial_validators (validators s0))
          \<longrightarrow> index_of_public_key s0 pk = Some i)
     \<and> length (balances s0) \<le> length (balances s)
     \<and> (\<forall>i < length (balances s0). balances s0 ! i \<le> balances s ! i)"

lemma registry_grown_refl:
  "vl_len (validators s) = length (vl_partial_validators (validators s)) \<Longrightarrow> registry_grown s s"
  by (simp add: registry_grown_def)

lemma index_of_push:
  "index_of (pubkeys_push l pk) k = Some i \<Longrightarrow> i < pubkeys_len l \<Longrightarrow> index_of l k = Some i"
  by (auto simp: index_of_def pubkeys_push_def pubkeys_len_def Let_def nth_append split: if_splits option.splits)

lemma vl_len_pubkeys_len: "vl_len vs = pubkeys_len (vl_pubkeys vs)"
  by (simp add: vl_len_def raw_len_def vl_pubkeys_def)

lemma registry_grown_push:
  assumes "registry_grown s0 s" "add_validator_to_registry P s pubkey wc amount = Ok s'"
  shows "registry_grown s0 s' \<and> sum_list (balances s') = sum_list (balances s) + amount
    \<and> pending_deposits s' = pending_deposits s"
  using assms(2)
proof (rule add_validator_cases, goal_cases)
  case (1 v vs)
  note push = vl_push_columns [OF 1(1)]
  obtain ws where ws: "vl_partial_validators (validators s) = vl_partial_validators (validators s0) @ ws"
    "\<forall>w \<in> set ws. pv_exit_epoch w = FAR_FUTURE_EPOCH \<and> pv_withdrawable_epoch w = FAR_FUTURE_EPOCH"
    using assms(1) by (auto simp: registry_grown_def)
  have index: "index_of_public_key s0 pk = Some i"
    if "index_of_public_key s' pk = Some i" "i < length (vl_partial_validators (validators s0))" for pk i
  proof -
    have "i < pubkeys_len (vl_pubkeys (validators s))"
      using that(2) assms(1) ws(1) by (simp add: registry_grown_def flip: vl_len_pubkeys_len)
    then have "index_of_public_key s pk = Some i"
      using that(1) push(3) 1(5) by (auto simp: index_of_public_key_def intro: index_of_push)
    then show ?thesis using assms(1) that(2) by (auto simp: registry_grown_def)
  qed
  have "pv_exit_epoch (to_partial_validator v) = FAR_FUTURE_EPOCH"
    "pv_withdrawable_epoch (to_partial_validator v) = FAR_FUTURE_EPOCH"
    using 1(3) by (simp_all add: to_partial_validator_def)
  then have "\<exists>ws. vl_partial_validators (validators s') = vl_partial_validators (validators s0) @ ws
      \<and> (\<forall>w \<in> set ws. pv_exit_epoch w = FAR_FUTURE_EPOCH \<and> pv_withdrawable_epoch w = FAR_FUTURE_EPOCH)"
    using ws push(1) 1(5) by (intro exI [of _ "ws @ [to_partial_validator v]"]) auto
  moreover have "vl_len (validators s') = length (vl_partial_validators (validators s'))"
    using assms(1) push 1(5) by (simp add: registry_grown_def)
  moreover have "length (balances s0) \<le> length (balances s') \<and> (\<forall>i < length (balances s0). balances s0 ! i \<le> balances s' ! i)"
    using assms(1) 1(5) by (auto simp: registry_grown_def nth_append)
  ultimately show ?case using 1(5) index unfolding registry_grown_def by auto
qed

lemma registry_grown_top_up:
  assumes "registry_grown s0 s" "update_balance s i (\<lambda>b. increase_balance b amount) = Ok s'"
  shows "registry_grown s0 s' \<and> sum_list (balances s') = sum_list (balances s) + amount
    \<and> pending_deposits s' = pending_deposits s"
proof -
  have s': "i < length (balances s)" "s' = s\<lparr> balances := (balances s)[i := balances s ! i + amount] \<rparr>"
    using assms(2) by (auto simp: update_balance_Ok increase_balance_def try_add_Ok)
  then show ?thesis using assms(1) sum_list_update_add [OF s'(1), of "balances s ! i + amount"]
    by (auto simp: registry_grown_def index_of_public_key_def nth_list_update intro: le_trans)
qed

lemma apply_pending_deposit_cases:
  assumes "registry_grown s0 s" "apply_pending_deposit E config P s d = Ok s'"
  obtains (credited) "registry_grown s0 s'" "sum_list (balances s') = sum_list (balances s) + pd_amount d"
      "pending_deposits s' = pending_deposits s"
    | (rejected) "s' = s" "\<not> is_valid_deposit_signature E config d"
  using assms(2) unfolding apply_pending_deposit_def
  by (auto split: option.splits if_splits dest: registry_grown_push [OF assms(1)] registry_grown_top_up [OF assms(1)])

text \<open>
  Deposits handled so far: those counted against the churn limit, those of withdrawn validators,
  the postponed ones, and among the first two those dropped for an invalid signature.
\<close>

definition withdrawn_deposit :: "beacon_state \<Rightarrow> epoch \<Rightarrow> pending_deposit \<Rightarrow> bool" where
  "withdrawn_deposit s next_epoch d \<longleftrightarrow>
     (case index_of_public_key s (pd_pubkey d) of None \<Rightarrow> False
      | Some i \<Rightarrow> i < length (vl_partial_validators (validators s))
          \<and> pv_withdrawable_epoch (vl_partial_validators (validators s) ! i) < next_epoch)"

definition exiting_deposit :: "beacon_state \<Rightarrow> epoch \<Rightarrow> pending_deposit \<Rightarrow> bool" where
  "exiting_deposit s next_epoch d \<longleftrightarrow>
     (case index_of_public_key s (pd_pubkey d) of None \<Rightarrow> False
      | Some i \<Rightarrow> i < length (vl_partial_validators (validators s))
          \<and> pv_exit_epoch (vl_partial_validators (validators s) ! i) < FAR_FUTURE_EPOCH
          \<and> next_epoch \<le> pv_withdrawable_epoch (vl_partial_validators (validators s) ! i))"

definition accounted ::
  "env \<Rightarrow> config \<Rightarrow> beacon_state \<Rightarrow> epoch \<Rightarrow> pending_deposit multiset \<Rightarrow> pending_deposit multiset
    \<Rightarrow> pending_deposit multiset \<Rightarrow> gwei list \<Rightarrow> bool" where
  "accounted E config s0 next_epoch charged free dropped bs \<longleftrightarrow>
     (\<forall>d \<in># free. withdrawn_deposit s0 next_epoch d)
     \<and> dropped \<subseteq># charged + free \<and> (\<forall>d \<in># dropped. \<not> is_valid_deposit_signature E config d)
     \<and> sum_list bs + amounts dropped = sum_list (balances s0) + amounts charged + amounts free"

definition deposits_inv ::
  "env \<Rightarrow> config \<Rightarrow> preset \<Rightarrow> beacon_state \<Rightarrow> epoch \<Rightarrow> gwei \<Rightarrow> pending_deposit list \<Rightarrow> deposits_loop \<Rightarrow> bool" where
  "deposits_inv E config P s0 next_epoch available pre l \<longleftrightarrow>
     next_epoch \<le> FAR_FUTURE_EPOCH
     \<and> dl_next_deposit_index l = length pre \<and> length pre \<le> MAX_PENDING_DEPOSITS_PER_EPOCH P
     \<and> registry_grown s0 (dl_state l) \<and> pending_deposits (dl_state l) = pending_deposits s0
     \<and> subseq (dl_postponed l) pre \<and> (\<forall>d \<in> set (dl_postponed l). exiting_deposit s0 next_epoch d)
     \<and> dl_processed_amount l \<le> available
     \<and> (\<exists>charged free dropped. mset pre = charged + free + mset (dl_postponed l)
          \<and> amounts charged = dl_processed_amount l
          \<and> accounted E config s0 next_epoch charged free dropped (balances (dl_state l)))"

lemma validator_in_grown:
  assumes "registry_grown s0 s" "index_of_public_key s pk = Some i" "vl_partial_validator (validators s) i = Ok v"
    "pv_exit_epoch v < FAR_FUTURE_EPOCH \<or> pv_withdrawable_epoch v < FAR_FUTURE_EPOCH"
  shows "index_of_public_key s0 pk = Some i \<and> i < length (vl_partial_validators (validators s0))
    \<and> vl_partial_validators (validators s0) ! i = v"
proof -
  obtain ws where ws: "vl_partial_validators (validators s) = vl_partial_validators (validators s0) @ ws"
    "\<forall>w \<in> set ws. pv_exit_epoch w = FAR_FUTURE_EPOCH \<and> pv_withdrawable_epoch w = FAR_FUTURE_EPOCH"
    using assms(1) by (auto simp: registry_grown_def)
  have i: "i < length (vl_partial_validators (validators s))" "v = vl_partial_validators (validators s) ! i"
    using assms(1,3) by (auto simp: vl_partial_validator_Ok)
  have "i < length (vl_partial_validators (validators s0))"
  proof (rule ccontr)
    assume "\<not> ?thesis"
    then have "v \<in> set ws" using i ws(1) by (auto simp: nth_append)
    then show False using ws(2) assms(4) by auto
  qed
  then show ?thesis using assms(1,2) i ws(1) by (auto simp: registry_grown_def nth_append)
qed

lemma withdrawn_in_grown:
  assumes "registry_grown s0 s" "index_of_public_key s (pd_pubkey d) = Some i"
    "vl_partial_validator (validators s) i = Ok v" "next_epoch \<le> FAR_FUTURE_EPOCH"
  shows "pv_withdrawable_epoch v < next_epoch \<Longrightarrow> withdrawn_deposit s0 next_epoch d"
    and "pv_exit_epoch v < FAR_FUTURE_EPOCH \<Longrightarrow> next_epoch \<le> pv_withdrawable_epoch v \<Longrightarrow> exiting_deposit s0 next_epoch d"
  using validator_in_grown [OF assms(1-3)] assms(4) by (auto simp: withdrawn_deposit_def exiting_deposit_def)

lemma subset_add_mset: "A \<subseteq># B \<Longrightarrow> A \<subseteq># add_mset x B"
  by (metis add_mset_add_single mset_subset_eq_add_left subset_mset.order_trans)

lemma accounted_charge:
  assumes "accounted E config s0 next_epoch charged free dropped bs"
  shows "sum_list bs' = sum_list bs + pd_amount d \<Longrightarrow> accounted E config s0 next_epoch (add_mset d charged) free dropped bs'"
    and "\<not> is_valid_deposit_signature E config d \<Longrightarrow>
      accounted E config s0 next_epoch (add_mset d charged) free (add_mset d dropped) bs"
  using assms by (auto simp: accounted_def intro: subset_add_mset)

lemma accounted_free:
  assumes "accounted E config s0 next_epoch charged free dropped bs" "withdrawn_deposit s0 next_epoch d"
  shows "sum_list bs' = sum_list bs + pd_amount d \<Longrightarrow> accounted E config s0 next_epoch charged (add_mset d free) dropped bs'"
    and "\<not> is_valid_deposit_signature E config d \<Longrightarrow>
      accounted E config s0 next_epoch charged (add_mset d free) (add_mset d dropped) bs"
  using assms by (auto simp: accounted_def intro: subset_add_mset)

lemma deposits_inv_processed:
  assumes inv: "deposits_inv E config P s0 next_epoch available pre l"
    and room: "length pre < MAX_PENDING_DEPOSITS_PER_EPOCH P" "dl_processed_amount l + pd_amount d \<le> available"
    and s: "apply_pending_deposit E config P (dl_state l) d = Ok s"
  shows "deposits_inv E config P s0 next_epoch available (pre @ [d])
    (l\<lparr> dl_churn_limit_reached := b, dl_state := s, dl_processed_amount := dl_processed_amount l + pd_amount d,
       dl_next_deposit_index := dl_next_deposit_index l + 1 \<rparr>)"
proof -
  have g: "registry_grown s0 (dl_state l)" using inv by (simp add: deposits_inv_def)
  obtain c f x where a: "mset pre = c + f + mset (dl_postponed l)" "amounts c = dl_processed_amount l"
    "accounted E config s0 next_epoch c f x (balances (dl_state l))"
    using inv by (auto simp: deposits_inv_def)
  have *: "registry_grown s0 s \<and> pending_deposits s = pending_deposits (dl_state l)
      \<and> (\<exists>x. accounted E config s0 next_epoch (add_mset d c) f x (balances s))"
    using g s by (cases rule: apply_pending_deposit_cases) (use g a(3) accounted_charge in blast)+
  then obtain y where "accounted E config s0 next_epoch (add_mset d c) f y (balances s)" by blast
  then have "\<exists>c' f' y. mset (pre @ [d]) = c' + f' + mset (dl_postponed l)
      \<and> amounts c' = dl_processed_amount l + pd_amount d \<and> accounted E config s0 next_epoch c' f' y (balances s)"
    using a(1,2) by (intro exI [of _ "add_mset d c"] exI [of _ f] exI [of _ y]) simp
  then show ?thesis
    using inv room * unfolding deposits_inv_def by (simp add: list_emb_prefix)
qed

lemma deposits_inv_withdrawn:
  assumes inv: "deposits_inv E config P s0 next_epoch available pre l"
    and room: "length pre < MAX_PENDING_DEPOSITS_PER_EPOCH P" and d: "withdrawn_deposit s0 next_epoch d"
    and s: "apply_pending_deposit E config P (dl_state l) d = Ok s"
  shows "deposits_inv E config P s0 next_epoch available (pre @ [d])
    (l\<lparr> dl_state := s, dl_next_deposit_index := dl_next_deposit_index l + 1 \<rparr>)"
proof -
  have g: "registry_grown s0 (dl_state l)" using inv by (simp add: deposits_inv_def)
  obtain c f x where a: "mset pre = c + f + mset (dl_postponed l)" "amounts c = dl_processed_amount l"
    "accounted E config s0 next_epoch c f x (balances (dl_state l))"
    using inv by (auto simp: deposits_inv_def)
  have *: "registry_grown s0 s \<and> pending_deposits s = pending_deposits (dl_state l)
      \<and> (\<exists>x. accounted E config s0 next_epoch c (add_mset d f) x (balances s))"
    using g s by (cases rule: apply_pending_deposit_cases) (use g d a(3) accounted_free in blast)+
  then obtain y where "accounted E config s0 next_epoch c (add_mset d f) y (balances s)" by blast
  then have "\<exists>c' f' y. mset (pre @ [d]) = c' + f' + mset (dl_postponed l)
      \<and> amounts c' = dl_processed_amount l \<and> accounted E config s0 next_epoch c' f' y (balances s)"
    using a(1,2) by (intro exI [of _ c] exI [of _ "add_mset d f"] exI [of _ y]) simp
  then show ?thesis
    using inv room * unfolding deposits_inv_def by (simp add: list_emb_prefix)
qed

lemma deposits_inv_postponed:
  assumes "deposits_inv E config P s0 next_epoch available pre l" "length pre < MAX_PENDING_DEPOSITS_PER_EPOCH P"
    "exiting_deposit s0 next_epoch d"
  shows "deposits_inv E config P s0 next_epoch available (pre @ [d])
    (l\<lparr> dl_postponed := dl_postponed l @ [d], dl_next_deposit_index := dl_next_deposit_index l + 1 \<rparr>)"
  using assms by (fastforce simp: deposits_inv_def)

interpretation deposits_account: loop_body "deposits_inv E config P s0 next_epoch available"
  "pending_deposit_step E config P fin next_epoch available"
  for E config P s0 fin next_epoch available
proof
  fix pre l d l'
  assume inv: "deposits_inv E config P s0 next_epoch available pre l"
    and step: "pending_deposit_step E config P fin next_epoch available d l = Ok (Continue l')"
  note i = inv [unfolded deposits_inv_def]
  from step show "deposits_inv E config P s0 next_epoch available (pre @ [d]) l'"
  proof (cases rule: pending_deposit_step_cases)
    case (handled ex w c1)
    have room: "length pre < MAX_PENDING_DEPOSITS_PER_EPOCH P" using handled(1) i by simp
    from handled(2) show ?thesis
    proof (cases rule: handle_pending_deposit_cases)
      case (withdrawn s)
      then have "withdrawn_deposit s0 next_epoch d" using handled(4) i withdrawn_in_grown(1) by blast
      then show ?thesis using withdrawn handled(3) deposits_inv_withdrawn [OF inv room] by simp
    next
      case postponed
      then have "exiting_deposit s0 next_epoch d"
        using handled(4) i withdrawn_in_grown(2) linorder_not_less by blast
      then show ?thesis using postponed handled(3) deposits_inv_postponed [OF inv room] by simp
    next
      case (processed s)
      then show ?thesis using handled(3) deposits_inv_processed [OF inv room processed(2,1)] by simp
    qed (use handled(3) in simp)
  qed simp
next
  fix pre l d l'
  assume inv: "deposits_inv E config P s0 next_epoch available pre l"
    and step: "pending_deposit_step E config P fin next_epoch available d l = Ok (Break l')"
  from step show "deposits_inv E config P s0 next_epoch available pre l'"
  proof (cases rule: pending_deposit_step_cases)
    case (handled ex w c1)
    from handled(2) show ?thesis
      by (cases rule: handle_pending_deposit_cases) (use inv handled(3) in \<open>auto simp: deposits_inv_def\<close>)
  qed (use inv in simp)
qed

text \<open>
  C9. Pending deposits are taken from the queue in order, conserve the total, and respect the churn
  limit.  The step handles at most \<open>MAX_PENDING_DEPOSITS_PER_EPOCH\<close> deposits from the front.  Only those
  of validators that are exiting and not yet withdrawable are postponed: they go to the back in their
  order, and all others leave the queue.  The deposits that leave are either counted against the limit, and their amounts together with the balance
  carried over are at most the balance carried in plus the churn limit, or belong to validators
  that are already withdrawable.  Balances grow by exactly the amounts of the deposits that leave,
  except for those with an invalid signature; no balance and no validator is lost.
\<close>

theorem pending_deposits_accounted:
  assumes "process_pending_deposits E config P s = Ok s'" "state_wf P s"
    and "get_activation_exit_churn_limit config P s = Ok churn"
  shows "\<exists>n charged free dropped postponed.
    n \<le> MAX_PENDING_DEPOSITS_PER_EPOCH P
    \<and> pending_deposits s' = drop n (pending_deposits s) @ postponed
    \<and> subseq postponed (take n (pending_deposits s))
    \<and> (\<forall>d \<in> set postponed. exiting_deposit s (get_current_epoch P s + 1) d)
    \<and> mset (take n (pending_deposits s)) = charged + free + mset postponed
    \<and> amounts charged + deposit_balance_to_consume s' \<le> deposit_balance_to_consume s + churn
    \<and> (\<forall>d \<in># free. withdrawn_deposit s (get_current_epoch P s + 1) d)
    \<and> dropped \<subseteq># charged + free \<and> (\<forall>d \<in># dropped. \<not> is_valid_deposit_signature E config d)
    \<and> sum_list (balances s') + amounts dropped = sum_list (balances s) + amounts charged + amounts free
    \<and> registry_grown s s'"
  using assms(1) unfolding process_pending_deposits_def Let_def assms(3)
proof (elim and_then_OkE, goal_cases)
  case (1 next_epoch churn' available l deposits)
  let ?q = "pending_deposits s"
  have e: "next_epoch = get_current_epoch P s + 1" "next_epoch \<le> FAR_FUTURE_EPOCH"
    "available = deposit_balance_to_consume s + churn"
    using 1(1,2,3) by (auto simp: try_add_Ok FAR_FUTURE_EPOCH_def u64_bound_def)
  have "registry_grown s s"
    using assms(2) by (intro registry_grown_refl) (simp add: state_wf_def raw_wf_def vl_len_def vl_partial_validators_def)
  then have "deposits_inv E config P s next_epoch available []
     \<lparr> dl_state = s, dl_processed_amount = 0, dl_next_deposit_index = 0, dl_postponed = [], dl_churn_limit_reached = False \<rparr>"
    using e(2) by (auto simp: deposits_inv_def accounted_def)
  from deposits_account.loop_inv [OF this 1(4)] obtain n where n: "n \<le> length ?q"
    "deposits_inv E config P s next_epoch available (take n ?q) l" by auto
  then obtain c f x where a: "mset (take n ?q) = c + f + mset (dl_postponed l)" "amounts c = dl_processed_amount l"
    "accounted E config s next_epoch c f x (balances (dl_state l))"
    by (auto simp: deposits_inv_def)
  have deps: "deposits = drop n ?q @ dl_postponed l" using 1(5) n by (auto simp: list_try_from_iter_Ok deposits_inv_def)
  have s': "\<exists>r. s' = (dl_state l)\<lparr> pending_deposits := deposits, deposit_balance_to_consume := r \<rparr>
      \<and> dl_processed_amount l + r \<le> available"
    using 1(6) n(2) by (auto simp: and_then_eq_Ok try_sub_Ok deposits_inv_def split: if_splits)
  then have "registry_grown s s'" using n(2) by (auto simp: deposits_inv_def registry_grown_def index_of_public_key_def)
  then show ?case
    using n a s' deps e
    by (intro exI [of _ n] exI [of _ c] exI [of _ f] exI [of _ x] exI [of _ "dl_postponed l"])
      (auto simp: deposits_inv_def accounted_def)
qed

definition sample_top_up :: beacon_state where
  "sample_top_up = (sample_state 1)\<lparr> pending_deposits :=
     [\<lparr> pd_pubkey = replicate 48 0, pd_withdrawal_credentials = 1 # replicate 31 0, pd_amount = 1000000000,
        pd_signature = replicate 96 0, pd_slot = 0 \<rparr>] \<rparr>"

lemma sample_top_up_fields:
  "slot sample_top_up = 70" "validators sample_top_up = sample_registry 1" "balances sample_top_up = [32000000000]"
  "deposit_balance_to_consume sample_top_up = 0" "finalized_checkpoint sample_top_up = sample_checkpoint"
  "pending_deposits sample_top_up =
     [\<lparr> pd_pubkey = replicate 48 0, pd_withdrawal_credentials = 1 # replicate 31 0, pd_amount = 1000000000,
        pd_signature = replicate 96 0, pd_slot = 0 \<rparr>]"
  by (simp_all add: sample_top_up_def sample_state_def)

lemma sample_top_up_churn: "get_activation_exit_churn_limit config_minimal sample_preset sample_top_up = Ok 64000000000"
  by (simp add: get_activation_exit_churn_limit_def get_balance_churn_limit_def sample_one_total config_minimal_def
      config_default_def prev_multiple_of_def saturating_sub_def sample_top_up_fields)

lemma sample_top_up_index:
  "index_of_public_key sample_top_up (replicate 48 0) = Some 0"
  "vl_partial_validator (validators sample_top_up) 0 = Ok \<lparr> pv_withdrawal_credentials = 1 # replicate 31 0, pv_slashed = False,
     pv_activation_eligibility_epoch = 0, pv_activation_epoch = 0,
     pv_exit_epoch = FAR_FUTURE_EPOCH, pv_withdrawable_epoch = FAR_FUTURE_EPOCH \<rparr>"
  by (simp_all add: index_of_public_key_def sample_top_up_fields index_of_def vl_pubkeys_def sample_registry_def
      pubkeys_from_iter_def vl_partial_validator_def raw_partial_validator_def raw_validate_index_def validate_index_def
      raw_len_def pubkeys_len_def nth_rs_def)

lemma sample_top_up_processed:
  "process_pending_deposits sample_env config_minimal sample_preset sample_top_up =
     Ok (sample_top_up\<lparr> balances := [33000000000], pending_deposits := [], deposit_balance_to_consume := 0 \<rparr>)"
proof -
  let ?d = "\<lparr> pd_pubkey = replicate 48 0, pd_withdrawal_credentials = 1 # replicate 31 0, pd_amount = 1000000000,
        pd_signature = replicate 96 0, pd_slot = 0 \<rparr>"
  have "apply_pending_deposit sample_env config_minimal sample_preset sample_top_up ?d =
      Ok (sample_top_up\<lparr> balances := [33000000000] \<rparr>)"
    by (simp add: apply_pending_deposit_def sample_top_up_index sample_top_up_fields update_balance_def list_get_def
        validate_index_def increase_balance_def arith_defs ok_or_def u64_bound_def)
  then have "pending_deposit_step sample_env config_minimal sample_preset fin 9 64000000000 ?d
      \<lparr> dl_state = sample_top_up, dl_processed_amount = 0, dl_next_deposit_index = 0, dl_postponed = [],
        dl_churn_limit_reached = False \<rparr> =
      Ok (Continue \<lparr> dl_state = sample_top_up\<lparr> balances := [33000000000] \<rparr>, dl_processed_amount = 1000000000,
        dl_next_deposit_index = 1, dl_postponed = [], dl_churn_limit_reached = False \<rparr>)" for fin
    by (simp add: pending_deposit_step_def sample_top_up_index handle_pending_deposit_def advance_deposit_index_def
        arith_defs ok_or_def u64_bound_def Let_def FAR_FUTURE_EPOCH_def)
  then show ?thesis
    by (simp add: process_pending_deposits_def sample_epochs sample_top_up_fields sample_top_up_churn Let_def
        arith_defs ok_or_def u64_bound_def list_try_from_iter_def)
qed

theorem pending_deposits_accounted_witness:
  "\<exists>n charged free dropped s'.
     process_pending_deposits sample_env config_minimal sample_preset sample_top_up = Ok s'
     \<and> n \<le> (16::nat) \<and> sum_list (balances s') = 33000000000
     \<and> sum_list (balances s') + amounts dropped = 32000000000 + amounts charged + amounts free
     \<and> amounts charged + deposit_balance_to_consume s' \<le> 64000000000"
proof -
  have "state_wf sample_preset sample_top_up"
    using sample_state_wf_preset [of 1] by (rule state_wf_frame) (simp_all add: sample_top_up_def)
  from pending_deposits_accounted [OF sample_top_up_processed this sample_top_up_churn]
  obtain n charged free dropped where "n \<le> (16::nat)" "amounts charged + 0 \<le> 64000000000"
    "33000000000 + amounts dropped = 32000000000 + amounts charged + amounts free"
    by (auto simp: sample_top_up_fields)
  then show ?thesis
    using sample_top_up_processed by (intro exI [of _ n] exI [of _ charged] exI [of _ free] exI [of _ dropped] exI) auto
qed

end
