(* ===== verification/Slot_Processing.thy ===== *)
theory Slot_Processing
  imports Epoch_Correctness
begin

text \<open>
  Slot processing (\<open>transition_functions/src/unphased/slot_processing.rs\<close> and
  \<open>transition_functions/src/electra/slot_processing.rs\<close>): the step that caches the roots of the
  state and of the latest block, and the loop that advances a state to a slot, with epoch
  processing on the last slot of every epoch.
\<close>

datatype process_slots_policy = Always | IfNeeded | Never

definition should_process :: "process_slots_policy \<Rightarrow> beacon_state \<Rightarrow> beacon_block \<Rightarrow> bool" where
  "should_process self state block =
     (case self of
        Always \<Rightarrow> True
      | IfNeeded \<Rightarrow> slot state \<noteq> blk_slot block
      | Never \<Rightarrow> False)"

abbreviation h256_zero :: h256 where
  "h256_zero \<equiv> replicate 32 0"

definition process_slot :: "env \<Rightarrow> preset \<Rightarrow> beacon_state \<Rightarrow> beacon_state res" where
  "process_slot E P state =
     (let slot = slot state;
          previous_state_root = ev_htr_state E state in
      and_then (mod_index_mut (SlotsPerHistoricalRoot P) (state_roots state) slot
         (\<lambda>_. previous_state_root)) (\<lambda>roots.
      let state = state\<lparr> state_roots := roots \<rparr>;
          header = latest_block_header state;
          state =
            (if hdr_state_root header = h256_zero
             then state\<lparr> latest_block_header := header\<lparr> hdr_state_root := previous_state_root \<rparr> \<rparr>
             else state);
          previous_block_root = ev_htr_header E (latest_block_header state) in
      and_then (mod_index_mut (SlotsPerHistoricalRoot P) (block_roots state) slot
         (\<lambda>_. previous_block_root)) (\<lambda>roots.
      Ok (state\<lparr> block_roots := roots \<rparr>))))"

text \<open>One iteration of the loop of \<open>process_slots\<close>.\<close>

definition slot_iteration :: "env \<Rightarrow> config \<Rightarrow> preset \<Rightarrow> beacon_state \<Rightarrow> beacon_state res" where
  "slot_iteration E config P state =
     and_then (process_slot E P state) (\<lambda>state.
     and_then (try_add (slot state) 1) (\<lambda>next_slot.
     and_then (is_epoch_start P next_slot) (\<lambda>start.
     and_then (if start then process_epoch E config P state else Ok state) (\<lambda>state.
     and_then (try_add (slot state) 1) (\<lambda>next_slot.
     Ok (state\<lparr> slot := next_slot \<rparr>))))))"

lemma process_slot_cases:
  assumes "process_slot E P s = Ok s'"
  obtains srs brs header where
    "header = (if hdr_state_root (latest_block_header s) = h256_zero
       then (latest_block_header s)\<lparr> hdr_state_root := ev_htr_state E s \<rparr> else latest_block_header s)"
    "mod_index_mut (SlotsPerHistoricalRoot P) (state_roots s) (slot s) (\<lambda>_. ev_htr_state E s) = Ok srs"
    "mod_index_mut (SlotsPerHistoricalRoot P) (block_roots s) (slot s) (\<lambda>_. ev_htr_header E header) = Ok brs"
    "s' = s\<lparr> state_roots := srs, latest_block_header := header, block_roots := brs \<rparr>"
  using assms unfolding process_slot_def Let_def
  by (elim and_then_OkE) (rule that [OF refl], auto split: if_splits)

lemma process_slot_slot: "process_slot E P s = Ok s' \<Longrightarrow> slot s' = slot s"
  by (erule process_slot_cases) simp

lemma slot_iteration_cases:
  assumes "slot_iteration E config P s = Ok s'"
  obtains s1 s2 where "process_slot E P s = Ok s1"
    "is_epoch_start P (slot s + 1) = Ok True \<and> process_epoch E config P s1 = Ok s2
      \<or> is_epoch_start P (slot s + 1) = Ok False \<and> s2 = s1"
    "slot s + 1 < u64_bound" "keeps_history P s1 s2" "s' = s2\<lparr> slot := slot s + 1 \<rparr>"
  using assms unfolding slot_iteration_def
proof (elim and_then_OkE, goal_cases)
  case (1 s1 n b s2 m)
  have e: "slot s1 = slot s" using process_slot_slot [OF 1(2)] .
  have k: "keeps_history P s1 s2"
    using 1(5) process_epoch_keeps keeps_keeps_history [OF keeps_refl] by (auto split: if_splits)
  then show ?case using 1 e by (intro 1(1) [OF 1(2), of s2]) (auto simp: keeps_history_def try_add_Ok split: if_splits)
qed

lemma slot_iteration_slot: "slot_iteration E config P s = Ok s' \<Longrightarrow> slot s' = slot s + 1"
  by (erule slot_iteration_cases) simp

text \<open>
  The loop ends because every iteration that succeeds advances the slot: \<open>process_epoch\<close>, which is
  called in its body, never changes it.
\<close>

function process_slots_loop :: "env \<Rightarrow> config \<Rightarrow> preset \<Rightarrow> slot \<Rightarrow> beacon_state \<Rightarrow> beacon_state res" where
  "process_slots_loop E config P target state =
     (if slot state < target
      then and_then (slot_iteration E config P state) (\<lambda>state. process_slots_loop E config P target state)
      else Ok state)"
  by pat_completeness auto

termination
  by (relation "measure (\<lambda>(E, config, P, target, state). target - slot state)")
    (auto dest: slot_iteration_slot)

declare process_slots_loop.simps [simp del]

definition process_slots :: "env \<Rightarrow> config \<Rightarrow> preset \<Rightarrow> beacon_state \<Rightarrow> slot \<Rightarrow> beacon_state res" where
  "process_slots E config P state target =
     and_then (ensure (slot state < target) (Transition (SlotNotLater (slot state) target))) (\<lambda>_.
     process_slots_loop E config P target state)"

subsection \<open>Slots advance one by one\<close>

lemma process_slots_loop_fold:
  "process_slots_loop E config P target s = try_fold (\<lambda>_ s. slot_iteration E config P s) [slot s..<target] s"
proof (induction E config P target s rule: process_slots_loop.induct)
  case (1 E config P target s)
  show ?case
  proof (cases "slot s < target")
    case True
    have "process_slots_loop E config P target a = try_fold (\<lambda>_ s. slot_iteration E config P s) [Suc (slot s)..<target] a"
      if "slot_iteration E config P s = Ok a" for a
      using 1 [OF True that] slot_iteration_slot [OF that] by simp
    then show ?thesis using True
      by (auto simp: process_slots_loop.simps [of E config P target s] upt_conv_Cons intro!: and_then_cong)
  qed (simp add: process_slots_loop.simps)
qed

lemma process_slots_loop_Ok_induct [consumes 1, case_names stop step]:
  assumes "process_slots_loop E config P target s = Ok s'"
    and stop: "\<And>s. target \<le> slot s \<Longrightarrow> Q s s"
    and step: "\<And>s s1 s'. slot s < target \<Longrightarrow> slot_iteration E config P s = Ok s1 \<Longrightarrow>
      process_slots_loop E config P target s1 = Ok s' \<Longrightarrow> Q s1 s' \<Longrightarrow> Q s s'"
  shows "Q s s'"
  using assms(1)
proof (induction "target - slot s" arbitrary: s rule: less_induct)
  case less
  show ?case
  proof (cases "slot s < target")
    case True
    with less(2) obtain s1 where s1: "slot_iteration E config P s = Ok s1" "process_slots_loop E config P target s1 = Ok s'"
      by (auto simp: process_slots_loop.simps [of E config P target s] and_then_eq_Ok)
    have "target - slot s1 < target - slot s" using True slot_iteration_slot [OF s1(1)] by simp
    then show ?thesis using step [OF True s1] less(1) s1(2) by blast
  next
    case False
    then show ?thesis using less(2) stop by (simp add: process_slots_loop.simps [of E config P target s])
  qed
qed

lemma process_slots_loop_slot:
  "process_slots_loop E config P target s = Ok s' \<Longrightarrow> slot s \<le> target \<Longrightarrow> slot s' = target"
  by (induction rule: process_slots_loop_Ok_induct) (auto dest!: slot_iteration_slot)

text \<open>
  C20. Slot processing ends after exactly one iteration per slot: it is the fold of the iteration
  over the slots from the current one to the target, and nothing but the target can stop it, apart
  from an error of an iteration; a target that is not later is rejected.  When it succeeds the
  state is at the target slot.
\<close>

theorem process_slots_terminates:
  "process_slots E config P s target =
     (if slot s < target then try_fold (\<lambda>_ s. slot_iteration E config P s) [slot s..<target] s
      else Err (Transition (SlotNotLater (slot s) target)))
   \<and> map_ok slot (process_slots E config P s target) = map_ok (\<lambda>_. target) (process_slots E config P s target)"
proof -
  have "slot s' = target" if "process_slots E config P s target = Ok s'" for s'
    using that by (auto simp: process_slots_def and_then_eq_Ok ensure_eq_Ok dest: process_slots_loop_slot)
  then have "map_ok slot (process_slots E config P s target) = map_ok (\<lambda>_. target) (process_slots E config P s target)"
    by (cases "process_slots E config P s target") auto
  then show ?thesis by (simp add: process_slots_def flip: process_slots_loop_fold)
qed

subsection \<open>The history of roots\<close>

definition fill_state_root :: "env \<Rightarrow> beacon_state \<Rightarrow> beacon_block_header" where
  "fill_state_root E s =
     (if hdr_state_root (latest_block_header s) = h256_zero
      then (latest_block_header s)\<lparr> hdr_state_root := ev_htr_state E s \<rparr> else latest_block_header s)"

lemma slot_iteration_history:
  assumes "slot_iteration E config P s = Ok s'"
  shows "latest_block_header s' = fill_state_root E s"
    "block_roots s' = (block_roots s)[slot s mod SlotsPerHistoricalRoot P := ev_htr_header E (fill_state_root E s)]"
    "state_roots s' = (state_roots s)[slot s mod SlotsPerHistoricalRoot P := ev_htr_state E s]"
    "slot s' = slot s + 1"
    "state_wf P s \<Longrightarrow> state_wf P s'"
proof -
  from assms obtain s1 s2 where s1: "process_slot E P s = Ok s1" and k: "keeps_history P s1 s2"
    and s': "s' = s2\<lparr> slot := slot s + 1 \<rparr>"
    by (rule slot_iteration_cases)
  have "latest_block_header s' = fill_state_root E s
    \<and> block_roots s' = (block_roots s)[slot s mod SlotsPerHistoricalRoot P := ev_htr_header E (fill_state_root E s)]
    \<and> state_roots s' = (state_roots s)[slot s mod SlotsPerHistoricalRoot P := ev_htr_state E s]"
    by (rule process_slot_cases [OF s1]) (use k s' in \<open>simp add: keeps_history_def mod_index_mut_Ok fill_state_root_def\<close>)
  then show "latest_block_header s' = fill_state_root E s"
    "block_roots s' = (block_roots s)[slot s mod SlotsPerHistoricalRoot P := ev_htr_header E (fill_state_root E s)]"
    "state_roots s' = (state_roots s)[slot s mod SlotsPerHistoricalRoot P := ev_htr_state E s]"
    "slot s' = slot s + 1"
    using s' by simp_all
  assume wf: "state_wf P s"
  have "state_wf P s1"
    by (rule process_slot_cases [OF s1]) (rule state_wf_frame [OF wf]; simp add: mod_index_mut_Ok)
  then have "state_wf P s2" using k by (simp add: keeps_history_def)
  then show "state_wf P s'" unfolding s' by (rule state_wf_frame) simp_all
qed

lemma process_slots_loop_wf: "process_slots_loop E config P target s = Ok s' \<Longrightarrow> state_wf P s \<Longrightarrow> state_wf P s'"
  by (induction rule: process_slots_loop_Ok_induct) (auto dest: slot_iteration_history(5))

lemma process_slots_loop_header:
  "process_slots_loop E config P target s = Ok s' \<Longrightarrow> hdr_state_root (latest_block_header s) \<noteq> h256_zero \<Longrightarrow>
     latest_block_header s' = latest_block_header s"
  by (induction rule: process_slots_loop_Ok_induct) (auto dest: slot_iteration_history(1) simp: fill_state_root_def)

lemma mod_neq_window:
  fixes t u N :: nat
  assumes "t < u" "u < t + N"
  shows "t mod N \<noteq> u mod N"
proof
  assume "t mod N = u mod N"
  then have "N dvd u - t" using assms by (metis mod_eq_dvd_iff_nat less_imp_le_nat)
  then show False using assms by (auto dest: dvd_imp_le)
qed

lemma process_slots_loop_roots:
  assumes "process_slots_loop E config P target s = Ok s'" "state_wf P s" "target \<le> t + SlotsPerHistoricalRoot P"
    "t < slot s"
  shows "block_roots s' ! (t mod SlotsPerHistoricalRoot P) = block_roots s ! (t mod SlotsPerHistoricalRoot P)"
  using assms
proof (induction rule: process_slots_loop_Ok_induct)
  case (step s s1 s')
  note h = slot_iteration_history [OF step(2)]
  have "t mod SlotsPerHistoricalRoot P \<noteq> slot s mod SlotsPerHistoricalRoot P"
    using step by (intro mod_neq_window) auto
  then show ?case using step h by simp
qed simp

lemma process_slots_loop_skipped:
  assumes "process_slots_loop E config P target s = Ok s'" "state_wf P s" "target \<le> t + SlotsPerHistoricalRoot P"
    "slot s \<le> t" "t < target" "hdr_state_root (fill_state_root E s) \<noteq> h256_zero"
  shows "block_roots s' ! (t mod SlotsPerHistoricalRoot P) = ev_htr_header E (latest_block_header s')"
  using assms
proof (induction rule: process_slots_loop_Ok_induct)
  case (step s s1 s')
  note h = slot_iteration_history [OF step(2)]
  have header: "latest_block_header s' = fill_state_root E s"
    using process_slots_loop_header [OF step(3)] h(1) step.prems by simp
  show ?case
  proof (cases "t = slot s")
    case True
    have "0 < SlotsPerHistoricalRoot P" using step.prems True by auto
    then have "t mod SlotsPerHistoricalRoot P < length (block_roots s)"
      using step.prems(1) by (simp add: state_wf_def vector_sizes_def)
    then show ?thesis
      using process_slots_loop_roots [OF step(3) h(5) [OF step.prems(1)] step.prems(2)] h True header by simp
  next
    case False
    have "hdr_state_root (fill_state_root E s1) \<noteq> h256_zero"
      using h(1) step.prems by (simp add: fill_state_root_def)
    then show ?thesis using step False h by simp
  qed
qed simp

text \<open>
  C19. Advancing a state keeps its history.  After slot processing the state is well formed, and for
  every slot in the window of the last \<open>SLOTS_PER_HISTORICAL_ROOT\<close> slots the block root can be
  looked up: the one recorded before for an older slot, and the root of the latest block header,
  with its state root filled in, for every slot that was skipped.
\<close>

theorem slots_keep_history:
  assumes "process_slots E config P s target = Ok s'" "state_wf P s"
    and "target + SlotsPerHistoricalRoot P < u64_bound"
    and "hdr_state_root (latest_block_header s) \<noteq> h256_zero \<or> ev_htr_state E s \<noteq> h256_zero"
  shows "state_wf P s'
    \<and> (\<forall>t < target. target \<le> t + SlotsPerHistoricalRoot P \<longrightarrow>
         get_block_root_at_slot P s' t =
           (if t < slot s then get_block_root_at_slot P s t
            else Ok (ev_htr_header E (latest_block_header s'))))"
proof -
  have lt: "slot s < target" and loop: "process_slots_loop E config P target s = Ok s'"
    using assms(1) by (auto simp: process_slots_def and_then_eq_Ok ensure_eq_Ok)
  have wf': "state_wf P s'" using process_slots_loop_wf [OF loop assms(2)] .
  have slot': "slot s' = target" using process_slots_loop_slot [OF loop] lt by simp
  have filled: "hdr_state_root (fill_state_root E s) \<noteq> h256_zero" using assms(4) by (auto simp: fill_state_root_def)
  have lookup: "get_block_root_at_slot P u t = Ok (block_roots u ! (t mod SlotsPerHistoricalRoot P))"
    if "state_wf P u" "t < slot u" "slot u \<le> t + SlotsPerHistoricalRoot P" "t + SlotsPerHistoricalRoot P < u64_bound" for u t
    using that by (simp add: get_block_root_at_slot_def mod_index_eq state_wf_def vector_sizes_def arith_defs ok_or_def)
  show ?thesis
    using wf' lt slot' lookup [of s'] lookup [of s] assms(2,3) process_slots_loop_roots [OF loop assms(2)]
      process_slots_loop_skipped [OF loop assms(2) _ _ _ filled]
    by auto
qed

definition sample_root_env :: env where
  "sample_root_env = sample_env\<lparr> ev_htr_state := (\<lambda>_. replicate 32 1) \<rparr>"

lemma sample_slot_71:
  "\<exists>s'. process_slots sample_root_env config_minimal sample_preset (sample_state 1) 71 = Ok s'
     \<and> slot s' = 71 \<and> block_roots s' ! 6 = h256_zero"
proof -
  have "SlotsPerHistoricalRoot sample_preset = 64" by (simp add: SlotsPerHistoricalRoot_def)
  moreover have "is_epoch_start sample_preset 71 = Ok False"
    by (simp add: is_epoch_start_def slots_since_epoch_start_def compute_start_slot_at_epoch_def
        compute_epoch_at_slot_def saturating_mul_def expect_ok_def arith_defs ok_or_def u64_bound_def)
  ultimately show ?thesis
    by (simp add: process_slots_def process_slots_loop.simps slot_iteration_def process_slot_def sample_root_env_def
        mod_index_mut_def list_modify_def validate_index_def arith_defs ok_or_def u64_bound_def sample_state_def
        sample_env_def Let_def del: One_nat_def)
qed

theorem slots_keep_history_witness:
  "\<exists>s'. process_slots sample_root_env config_minimal sample_preset (sample_state 1) 71 = Ok s'
     \<and> state_wf sample_preset s' \<and> get_block_root_at_slot sample_preset s' 70 = Ok h256_zero"
proof -
  obtain s' where s': "process_slots sample_root_env config_minimal sample_preset (sample_state 1) 71 = Ok s'"
    using sample_slot_71 by blast
  have N: "SlotsPerHistoricalRoot sample_preset = 64" by (simp add: SlotsPerHistoricalRoot_def)
  have "ev_htr_state sample_root_env (sample_state 1) \<noteq> h256_zero" by (simp add: sample_root_env_def)
  from slots_keep_history [OF s' sample_state_wf_preset _ disjI2 [OF this]] N s' show ?thesis
    by (auto simp: u64_bound_def sample_root_env_def sample_env_def)
qed

text \<open>
  C21. Slots can be processed in pieces: advancing to an intermediate slot and from there to the
  target gives the same result, or the same error, as advancing at once.
\<close>

theorem process_slots_compose:
  assumes "slot s < middle" "middle < target"
  shows "process_slots E config P s target =
    and_then (process_slots E config P s middle) (\<lambda>s. process_slots E config P s target)"
proof -
  have split: "[slot s..<target] = [slot s..<middle] @ [middle..<target]"
    using assms upt_add_eq_append [of "slot s" middle "target - middle"] by simp
  have "process_slots_loop E config P target s =
      and_then (process_slots_loop E config P middle s) (process_slots_loop E config P target)"
  proof -
    have "try_fold (\<lambda>_ s. slot_iteration E config P s) [middle..<target] s1 = process_slots_loop E config P target s1"
      if "process_slots_loop E config P middle s = Ok s1" for s1
      using process_slots_loop_slot [OF that] assms(1) by (simp add: process_slots_loop_fold)
    then show ?thesis
      by (simp add: process_slots_loop_fold [of _ _ _ target s] split try_fold_append
          flip: process_slots_loop_fold [of _ _ _ middle s] cong: and_then_cong)
  qed
  moreover have "process_slots E config P s1 target = process_slots_loop E config P target s1"
    if "process_slots_loop E config P middle s = Ok s1" for s1
    using process_slots_loop_slot [OF that] assms by (simp add: process_slots_def)
  ultimately show ?thesis
    using assms by (auto simp: process_slots_def intro!: and_then_cong)
qed

theorem process_slots_compose_witness:
  "slot (sample_state 1) < 71
   \<and> process_slots sample_root_env config_minimal sample_preset (sample_state 1) 72 =
     and_then (process_slots sample_root_env config_minimal sample_preset (sample_state 1) 71)
       (\<lambda>s. process_slots sample_root_env config_minimal sample_preset s 72)"
  using process_slots_compose [of "sample_state 1" 71 72 sample_root_env config_minimal sample_preset] by simp

end
