(* ===== verification/Withdrawals.thy ===== *)
theory Withdrawals
  imports Slot_Processing
begin

text \<open>
  Withdrawals of a block (\<open>get_expected_withdrawals\<close> and \<open>process_withdrawals\<close> in
  \<open>transition_functions/src/electra/block_processing.rs\<close>, and
  \<open>update_next_withdrawal_validator_index\<close> in \<open>transition_functions/src/capella/block_processing.rs\<close>).
\<close>

text \<open>The mutable variables of \<open>get_expected_withdrawals\<close>.\<close>

record withdrawals_loop =
  wl_withdrawal_index :: nat
  wl_validator_index :: validator_index
  wl_withdrawals :: "withdrawal list"
  wl_processed :: nat

definition total_withdrawn :: "withdrawal list \<Rightarrow> validator_index \<Rightarrow> gwei res" where
  "total_withdrawn withdrawals index =
     sum_rs (map wd_amount (filter (\<lambda>w. wd_validator_index w = index) withdrawals))"

definition pending_withdrawal_step ::
  "preset \<Rightarrow> beacon_state \<Rightarrow> epoch \<Rightarrow> pending_partial_withdrawal \<Rightarrow> withdrawals_loop \<Rightarrow> withdrawals_loop control res" where
  "pending_withdrawal_step P state epoch withdrawal l =
     (if epoch < pw_withdrawable_epoch withdrawal
         \<or> length (wl_withdrawals l) = MAX_PENDING_PARTIALS_PER_WITHDRAWALS_SWEEP P
      then Ok (Break l)
      else
        let index = pw_validator_index withdrawal in
        and_then (vl_get (validators state) index) (\<lambda>validator.
        let has_sufficient_effective_balance = (MIN_ACTIVATION_BALANCE P \<le> val_effective_balance validator) in
        and_then (total_withdrawn (wl_withdrawals l) index) (\<lambda>withdrawn.
        and_then (list_get (balances state) index) (\<lambda>balance.
        and_then (try_sub balance withdrawn) (\<lambda>validator_balance.
        let has_excess_balance = (MIN_ACTIVATION_BALANCE P < validator_balance) in
        and_then
          (if val_exit_epoch validator = FAR_FUTURE_EPOCH \<and> has_sufficient_effective_balance
              \<and> has_excess_balance
           then
             and_then (try_sub validator_balance (MIN_ACTIVATION_BALANCE P)) (\<lambda>excess.
             let l = l\<lparr> wl_withdrawals := wl_withdrawals l @
                   [\<lparr> wd_index = wl_withdrawal_index l, wd_validator_index = index,
                      wd_address = drop 12 (val_withdrawal_credentials validator),
                      wd_amount = min (pw_amount withdrawal) excess \<rparr>] \<rparr> in
             map_ok (\<lambda>i. l\<lparr> wl_withdrawal_index := i \<rparr>) (try_add (wl_withdrawal_index l) 1))
           else Ok l) (\<lambda>l.
        map_ok (\<lambda>n. Continue (l\<lparr> wl_processed := n \<rparr>)) (usize_try_add (wl_processed l) 1)))))))"

definition push_withdrawal :: "execution_address \<Rightarrow> gwei \<Rightarrow> withdrawals_loop \<Rightarrow> withdrawals_loop res" where
  "push_withdrawal address amount l =
     map_ok (\<lambda>i. l\<lparr> wl_withdrawals := wl_withdrawals l @
           [\<lparr> wd_index = wl_withdrawal_index l, wd_validator_index = wl_validator_index l,
              wd_address = address, wd_amount = amount \<rparr>],
         wl_withdrawal_index := i \<rparr>)
       (ok_or (checked_add (wl_withdrawal_index l) 1) (Transition WithdrawalIndexOverflow))"

definition sweep_step ::
  "preset \<Rightarrow> beacon_state \<Rightarrow> epoch \<Rightarrow> nat \<Rightarrow> withdrawals_loop \<Rightarrow> withdrawals_loop control res" where
  "sweep_step P state epoch _ l =
     (let index = wl_validator_index l in
      and_then (vl_partial_validator (validators state) index) (\<lambda>validator.
      and_then (vl_effective_balance (validators state) index) (\<lambda>effective_balance.
      and_then (total_withdrawn (wl_withdrawals l) index) (\<lambda>partially_withdrawn_balance.
      and_then (list_get (balances state) index) (\<lambda>balance.
      and_then (try_sub balance partially_withdrawn_balance) (\<lambda>balance.
      let address = drop PREFIX_LEN (pv_withdrawal_credentials validator) in
      and_then
        (if is_fully_withdrawable_validator validator balance epoch
         then push_withdrawal address balance l
         else if is_partially_withdrawable_validator P validator effective_balance balance
         then and_then (expect (checked_sub balance (get_max_effective_balance P validator))) (\<lambda>amount.
              push_withdrawal address amount l)
         else Ok l) (\<lambda>l.
      if length (wl_withdrawals l) = MaxWithdrawalsPerPayload P then Ok (Break l)
      else
        and_then (ok_or (checked_add index 1) (Transition ValidatorIndexOverflow)) (\<lambda>next.
        and_then (expect (checked_rem next (vl_len (validators state)))) (\<lambda>next.
        Ok (Continue (l\<lparr> wl_validator_index := next \<rparr>)))))))))))"

definition get_expected_withdrawals :: "preset \<Rightarrow> beacon_state \<Rightarrow> (withdrawal list \<times> nat) res" where
  "get_expected_withdrawals P state =
     (let epoch = get_current_epoch P state;
          total_validators = vl_len (validators state);
          bound = min total_validators (MAX_VALIDATORS_PER_WITHDRAWALS_SWEEP P) in
      and_then (loop_with_break (pending_withdrawal_step P state epoch) (pending_partial_withdrawals state)
        \<lparr> wl_withdrawal_index = next_withdrawal_index state,
          wl_validator_index = next_withdrawal_validator_index state,
          wl_withdrawals = [], wl_processed = 0 \<rparr>) (\<lambda>l.
      and_then (loop_with_break (sweep_step P state epoch) [0..<bound] l) (\<lambda>l.
      Ok (wl_withdrawals l, wl_processed l))))"

definition update_next_withdrawal_validator_index ::
  "preset \<Rightarrow> beacon_state \<Rightarrow> withdrawal list \<Rightarrow> beacon_state res" where
  "update_next_withdrawal_validator_index P state expected_withdrawals =
     (if length expected_withdrawals = MaxWithdrawalsPerPayload P
      then
        and_then (expect (if expected_withdrawals = [] then None else Some (last expected_withdrawals))) (\<lambda>latest.
        and_then (try_add (wd_validator_index latest) 1) (\<lambda>next.
        and_then (try_rem next (vl_len (validators state))) (\<lambda>next.
        Ok (state\<lparr> next_withdrawal_validator_index := next \<rparr>))))
      else
        and_then (try_add (next_withdrawal_validator_index state) (MAX_VALIDATORS_PER_WITHDRAWALS_SWEEP P)) (\<lambda>next.
        and_then (try_rem next (vl_len (validators state))) (\<lambda>next.
        Ok (state\<lparr> next_withdrawal_validator_index := next \<rparr>))))"

definition apply_withdrawal :: "withdrawal \<times> withdrawal \<Rightarrow> beacon_state \<Rightarrow> beacon_state res" where
  "apply_withdrawal = (\<lambda>(computed, in_block) state.
     and_then (ensure (computed = in_block) (Transition (WithdrawalMismatch computed in_block))) (\<lambda>_.
     update_balance state (wd_validator_index computed)
       (\<lambda>b. Ok (decrease_balance b (wd_amount computed)))))"

definition process_withdrawals :: "preset \<Rightarrow> beacon_state \<Rightarrow> execution_payload \<Rightarrow> beacon_state res" where
  "process_withdrawals P state payload =
     and_then (get_expected_withdrawals P state) (\<lambda>(expected, processed).
     let computed = length expected; in_block = length (ep_withdrawals payload) in
     and_then (ensure (computed = in_block) (Transition (WithdrawalCountMismatch computed in_block))) (\<lambda>_.
     and_then (try_fold apply_withdrawal (zip expected (ep_withdrawals payload)) state) (\<lambda>state.
     and_then (list_try_from_iter (PendingPartialWithdrawalsLimit P)
        (drop processed (pending_partial_withdrawals state))) (\<lambda>pending.
     let state = state\<lparr> pending_partial_withdrawals := pending \<rparr> in
     and_then
       (if expected = [] then Ok state
        else map_ok (\<lambda>i. state\<lparr> next_withdrawal_index := i \<rparr>) (try_add (wd_index (last expected)) 1)) (\<lambda>state.
     update_next_withdrawal_validator_index P state expected)))))"

subsection \<open>Withdrawals are covered by the balances\<close>

definition withdrawn :: "withdrawal list \<Rightarrow> validator_index \<Rightarrow> gwei" where
  "withdrawn ws i = sum_list (map wd_amount (filter (\<lambda>w. wd_validator_index w = i) ws))"

lemma withdrawn_Nil [simp]: "withdrawn [] i = 0"
  by (simp add: withdrawn_def)

lemma withdrawn_snoc [simp]:
  "withdrawn (ws @ [w]) i = withdrawn ws i + (if wd_validator_index w = i then wd_amount w else 0)"
  by (simp add: withdrawn_def)

lemma total_withdrawn_Ok: "total_withdrawn ws i = Ok a \<longleftrightarrow> a = withdrawn ws i \<and> a < u64_bound"
  by (auto simp: total_withdrawn_def withdrawn_def sum_rs_Ok)

text \<open>
  A validator keeps the minimum activation balance unless it is withdrawable or nothing is
  withdrawn from it.
\<close>

definition leaves_minimum :: "preset \<Rightarrow> beacon_state \<Rightarrow> withdrawal list \<Rightarrow> validator_index \<Rightarrow> bool" where
  "leaves_minimum P state ws i \<longleftrightarrow>
     withdrawn ws i = 0 \<or> MIN_ACTIVATION_BALANCE P \<le> balances state ! i - withdrawn ws i
     \<or> pv_withdrawable_epoch (vl_partial_validators (validators state) ! i) \<le> get_current_epoch P state"

definition covered :: "preset \<Rightarrow> beacon_state \<Rightarrow> withdrawal list \<Rightarrow> bool" where
  "covered P state ws \<longleftrightarrow>
     map wd_index ws = [next_withdrawal_index state ..< next_withdrawal_index state + length ws]
     \<and> (\<forall>w \<in> set ws. wd_validator_index w < length (balances state))
     \<and> (\<forall>i < length (balances state). withdrawn ws i \<le> balances state ! i \<and> leaves_minimum P state ws i)"

lemma covered_Nil: "covered P state []"
  by (simp add: covered_def leaves_minimum_def)

lemma covered_snoc:
  assumes "covered P state ws" "wd_index w = next_withdrawal_index state + length ws"
    and "wd_validator_index w = i" "i < length (balances state)"
    and "withdrawn ws i + wd_amount w \<le> balances state ! i"
    and "MIN_ACTIVATION_BALANCE P \<le> balances state ! i - (withdrawn ws i + wd_amount w)
      \<or> pv_withdrawable_epoch (vl_partial_validators (validators state) ! i) \<le> get_current_epoch P state"
  shows "covered P state (ws @ [w])"
  using assms by (auto simp: covered_def leaves_minimum_def)

definition withdrawals_inv :: "preset \<Rightarrow> beacon_state \<Rightarrow> withdrawals_loop \<Rightarrow> bool" where
  "withdrawals_inv P state l \<longleftrightarrow>
     covered P state (wl_withdrawals l)
     \<and> wl_withdrawal_index l = next_withdrawal_index state + length (wl_withdrawals l)"

lemma pending_withdrawal_step_cases:
  assumes "pending_withdrawal_step P state epoch w l = Ok c"
  obtains (stop) "c = Break l"
    | (skipped) "c = Continue (l\<lparr> wl_processed := wl_processed l + 1 \<rparr>)"
        "length (wl_withdrawals l) \<noteq> MAX_PENDING_PARTIALS_PER_WITHDRAWALS_SWEEP P"
    | (pushed) wd where "c = Continue (l\<lparr> wl_withdrawals := wl_withdrawals l @ [wd],
          wl_withdrawal_index := wl_withdrawal_index l + 1, wl_processed := wl_processed l + 1 \<rparr>)"
        "length (wl_withdrawals l) \<noteq> MAX_PENDING_PARTIALS_PER_WITHDRAWALS_SWEEP P"
        "wd_index wd = wl_withdrawal_index l" "wd_validator_index wd = pw_validator_index w"
        "pw_validator_index w < length (balances state)"
        "withdrawn (wl_withdrawals l) (pw_validator_index w) + wd_amount wd + MIN_ACTIVATION_BALANCE P
           \<le> balances state ! pw_validator_index w"
proof (cases "epoch < pw_withdrawable_epoch w
    \<or> length (wl_withdrawals l) = MAX_PENDING_PARTIALS_PER_WITHDRAWALS_SWEEP P")
  case True
  then show ?thesis using assms by (intro stop) (simp add: pending_withdrawal_step_def)
next
  case False
  from False assms obtain v t b vb l1 where v: "vl_get (validators state) (pw_validator_index w) = Ok v"
    "t = withdrawn (wl_withdrawals l) (pw_validator_index w)"
    "pw_validator_index w < length (balances state)" "b = balances state ! pw_validator_index w"
    "vb = b - t" "t \<le> b"
    and l1: "(if val_exit_epoch v = FAR_FUTURE_EPOCH \<and> MIN_ACTIVATION_BALANCE P \<le> val_effective_balance v
           \<and> MIN_ACTIVATION_BALANCE P < vb
         then and_then (try_sub vb (MIN_ACTIVATION_BALANCE P)) (\<lambda>excess.
             let l = l\<lparr> wl_withdrawals := wl_withdrawals l @
                   [\<lparr> wd_index = wl_withdrawal_index l, wd_validator_index = pw_validator_index w,
                      wd_address = drop 12 (val_withdrawal_credentials v),
                      wd_amount = min (pw_amount w) excess \<rparr>] \<rparr> in
             map_ok (\<lambda>i. l\<lparr> wl_withdrawal_index := i \<rparr>) (try_add (wl_withdrawal_index l) 1))
         else Ok l) = Ok l1"
    and c: "c = Continue (l1\<lparr> wl_processed := wl_processed l1 + 1 \<rparr>)"
    unfolding pending_withdrawal_step_def Let_def
    by (auto simp: and_then_eq_Ok map_ok_eq_Ok total_withdrawn_Ok list_get_Ok try_sub_Ok usize_try_add_Ok)
  show ?thesis
  proof (cases "val_exit_epoch v = FAR_FUTURE_EPOCH \<and> MIN_ACTIVATION_BALANCE P \<le> val_effective_balance v
      \<and> MIN_ACTIVATION_BALANCE P < vb")
    case True
    then show ?thesis
      using l1 c v False
      by (intro pushed) (auto simp: and_then_eq_Ok map_ok_eq_Ok try_sub_Ok try_add_Ok Let_def)
  next
    case f: False
    then show ?thesis using l1 c False by (intro skipped) auto
  qed
qed

lemma push_withdrawal_Ok:
  "push_withdrawal a m l = Ok l' \<longleftrightarrow>
     l' = l\<lparr> wl_withdrawals := wl_withdrawals l @ [\<lparr> wd_index = wl_withdrawal_index l,
            wd_validator_index = wl_validator_index l, wd_address = a, wd_amount = m \<rparr>],
          wl_withdrawal_index := wl_withdrawal_index l + 1 \<rparr> \<and> wl_withdrawal_index l + 1 < u64_bound"
  by (auto simp: push_withdrawal_def map_ok_eq_Ok checked_add_def ok_or_def)

text \<open>A step of the sweep leaves the list of withdrawals as it is or adds one that is covered.\<close>

definition sweep_pushes :: "preset \<Rightarrow> beacon_state \<Rightarrow> epoch \<Rightarrow> withdrawals_loop \<Rightarrow> withdrawals_loop \<Rightarrow> bool" where
  "sweep_pushes P state epoch l l1 \<longleftrightarrow>
     (\<exists>a m. l1 = l\<lparr> wl_withdrawals := wl_withdrawals l @ [\<lparr> wd_index = wl_withdrawal_index l,
              wd_validator_index = wl_validator_index l, wd_address = a, wd_amount = m \<rparr>],
            wl_withdrawal_index := wl_withdrawal_index l + 1 \<rparr>
        \<and> wl_validator_index l < length (balances state)
        \<and> withdrawn (wl_withdrawals l) (wl_validator_index l) + m \<le> balances state ! wl_validator_index l
        \<and> (MIN_ACTIVATION_BALANCE P
             \<le> balances state ! wl_validator_index l - (withdrawn (wl_withdrawals l) (wl_validator_index l) + m)
           \<or> pv_withdrawable_epoch (vl_partial_validators (validators state) ! wl_validator_index l) \<le> epoch))"

lemma sweep_pushesI:
  assumes "push_withdrawal a m l = Ok l1" "wl_validator_index l < length (balances state)"
    and "withdrawn (wl_withdrawals l) (wl_validator_index l) + m \<le> balances state ! wl_validator_index l"
    and "MIN_ACTIVATION_BALANCE P
        \<le> balances state ! wl_validator_index l - (withdrawn (wl_withdrawals l) (wl_validator_index l) + m)
      \<or> pv_withdrawable_epoch (vl_partial_validators (validators state) ! wl_validator_index l) \<le> epoch"
  shows "sweep_pushes P state epoch l l1"
  using assms unfolding push_withdrawal_Ok sweep_pushes_def by blast

lemma sweep_step_cases:
  assumes "sweep_step P state epoch x l = Ok c" "MIN_ACTIVATION_BALANCE P \<le> MAX_EFFECTIVE_BALANCE_ELECTRA P"
  obtains l1 where "l1 = l \<or> sweep_pushes P state epoch l l1"
    "c = Break l1 \<and> length (wl_withdrawals l1) = MaxWithdrawalsPerPayload P
     \<or> (\<exists>n. c = Continue (l1\<lparr> wl_validator_index := n \<rparr>)) \<and> length (wl_withdrawals l1) \<noteq> MaxWithdrawalsPerPayload P"
  using assms(1) unfolding sweep_step_def Let_def
proof (elim and_then_OkE, goal_cases)
  case (1 v eb t b vb l1)
  let ?i = "wl_validator_index l"
  have v: "v = vl_partial_validators (validators state) ! ?i" using vl_partial_validator_Ok [OF 1(2)] by simp
  have b: "?i < length (balances state)" "b = balances state ! ?i" "t = withdrawn (wl_withdrawals l) ?i"
    "t \<le> b" "vb = b - t"
    using 1(4,5,6) by (auto simp: total_withdrawn_Ok list_get_Ok try_sub_Ok)
  have "l1 = l \<or> sweep_pushes P state epoch l l1"
  proof (cases "is_fully_withdrawable_validator v vb epoch")
    case True
    then have "sweep_pushes P state epoch l l1"
      using 1(7) b v by (intro sweep_pushesI) (auto simp: is_fully_withdrawable_validator_def)
    then show ?thesis ..
  next
    case nf: False
    have max: "MIN_ACTIVATION_BALANCE P \<le> get_max_effective_balance P v"
      using assms(2) by (simp add: get_max_effective_balance_def)
    show ?thesis
    proof (cases "is_partially_withdrawable_validator P v eb vb")
      case True
      then obtain m where m: "m = vb - get_max_effective_balance P v" "get_max_effective_balance P v \<le> vb"
        "push_withdrawal (drop PREFIX_LEN (pv_withdrawal_credentials v)) m l = Ok l1"
        using 1(7) nf by (auto simp: and_then_eq_Ok expect_eq_Ok checked_sub_def split: if_splits)
      have "sweep_pushes P state epoch l l1"
        using m(1,2) b max by (intro sweep_pushesI [OF m(3)]) auto
      then show ?thesis ..
    qed (use 1(7) nf in simp)
  qed
  then show ?case
    using 1(1) [of l1] 1(8) by (auto simp: and_then_eq_Ok split: if_splits)
qed

lemma sweep_pushes_inv:
  assumes "withdrawals_inv P state l" "sweep_pushes P state (get_current_epoch P state) l l1"
  shows "withdrawals_inv P state l1" "length (wl_withdrawals l1) = length (wl_withdrawals l) + 1"
    "wl_processed l1 = wl_processed l"
  using assms by (auto simp: withdrawals_inv_def sweep_pushes_def intro!: covered_snoc)

definition pending_withdrawals_inv ::
  "preset \<Rightarrow> beacon_state \<Rightarrow> pending_partial_withdrawal list \<Rightarrow> withdrawals_loop \<Rightarrow> bool" where
  "pending_withdrawals_inv P state pre l \<longleftrightarrow>
     withdrawals_inv P state l \<and> wl_processed l = length pre
     \<and> length (wl_withdrawals l) \<le> MAX_PENDING_PARTIALS_PER_WITHDRAWALS_SWEEP P"

interpretation pending_withdrawals: loop_body "pending_withdrawals_inv P state"
  "pending_withdrawal_step P state epoch" for P state epoch
proof
  fix pre l w l'
  assume inv: "pending_withdrawals_inv P state pre l"
    and step: "pending_withdrawal_step P state epoch w l = Ok (Continue l')"
  note i = inv [unfolded pending_withdrawals_inv_def withdrawals_inv_def]
  from step show "pending_withdrawals_inv P state (pre @ [w]) l'"
  proof (cases rule: pending_withdrawal_step_cases)
    case (pushed wd)
    have "covered P state (wl_withdrawals l @ [wd])"
      using i pushed by (intro covered_snoc) auto
    then show ?thesis using i pushed by (simp add: pending_withdrawals_inv_def withdrawals_inv_def)
  qed (use i in \<open>auto simp: pending_withdrawals_inv_def withdrawals_inv_def\<close>)
next
  fix pre l w l'
  assume "pending_withdrawals_inv P state pre l" "pending_withdrawal_step P state epoch w l = Ok (Break l')"
  then show "pending_withdrawals_inv P state pre l'"
    by (auto elim: pending_withdrawal_step_cases)
qed

definition sweep_inv :: "preset \<Rightarrow> beacon_state \<Rightarrow> nat \<Rightarrow> nat list \<Rightarrow> withdrawals_loop \<Rightarrow> bool" where
  "sweep_inv P state n pre l \<longleftrightarrow>
     withdrawals_inv P state l \<and> wl_processed l = n \<and> length (wl_withdrawals l) < MaxWithdrawalsPerPayload P"

definition sweep_post :: "preset \<Rightarrow> beacon_state \<Rightarrow> nat \<Rightarrow> nat list \<Rightarrow> withdrawals_loop \<Rightarrow> bool" where
  "sweep_post P state n pre l \<longleftrightarrow>
     withdrawals_inv P state l \<and> wl_processed l = n \<and> length (wl_withdrawals l) \<le> MaxWithdrawalsPerPayload P"

context preset_laws
begin

lemma sweep_step_post:
  assumes "sweep_inv P state n pre l" "sweep_step P state (get_current_epoch P state) x l = Ok c"
  shows "case c of Break l' \<Rightarrow> sweep_post P state n pre l' | Continue l' \<Rightarrow> sweep_inv P state n (pre @ [x]) l'"
  using assms(2) activation_le_max
proof (rule sweep_step_cases, goal_cases)
  case (1 l1)
  have "withdrawals_inv P state l1 \<and> wl_processed l1 = n \<and> length (wl_withdrawals l1) \<le> MaxWithdrawalsPerPayload P"
    using assms(1) 1(1) sweep_pushes_inv by (fastforce simp: sweep_inv_def)
  then show ?case using 1(2) by (auto simp: sweep_inv_def sweep_post_def withdrawals_inv_def)
qed

end

sublocale preset_laws \<subseteq> sweep: loop_exit "sweep_inv P state n" "sweep_post P state n"
  "sweep_step P state (get_current_epoch P state)" for state n
  by unfold_locales
    (fastforce dest: sweep_step_post, fastforce dest: sweep_step_post, simp add: sweep_inv_def sweep_post_def)

context preset_laws
begin

lemma expected_withdrawals:
  assumes "get_expected_withdrawals P state = Ok (ws, n)"
    and "MAX_PENDING_PARTIALS_PER_WITHDRAWALS_SWEEP P < MaxWithdrawalsPerPayload P"
  shows "covered P state ws" "length ws \<le> MaxWithdrawalsPerPayload P" "n \<le> length (pending_partial_withdrawals state)"
proof -
  let ?epoch = "get_current_epoch P state"
  let ?l0 = "\<lparr> wl_withdrawal_index = next_withdrawal_index state,
    wl_validator_index = next_withdrawal_validator_index state, wl_withdrawals = [], wl_processed = 0 \<rparr>"
  obtain l l' where l: "loop_with_break (pending_withdrawal_step P state ?epoch) (pending_partial_withdrawals state) ?l0 = Ok l"
    and l': "loop_with_break (sweep_step P state ?epoch)
      [0..<min (vl_len (validators state)) (MAX_VALIDATORS_PER_WITHDRAWALS_SWEEP P)] l = Ok l'"
    "ws = wl_withdrawals l'" "n = wl_processed l'"
    using assms(1) by (auto simp: get_expected_withdrawals_def Let_def and_then_eq_Ok)
  have "pending_withdrawals_inv P state [] ?l0"
    by (simp add: pending_withdrawals_inv_def withdrawals_inv_def covered_Nil)
  from pending_withdrawals.loop_inv [OF this l] obtain k where k: "k \<le> length (pending_partial_withdrawals state)"
    "pending_withdrawals_inv P state (take k (pending_partial_withdrawals state)) l" by auto
  then have "sweep_inv P state k [] l"
    using assms(2) by (auto simp: pending_withdrawals_inv_def sweep_inv_def)
  from sweep.loop_post [OF this l'(1)] obtain pre where "sweep_post P state k pre l'" by auto
  then show "covered P state ws" "length ws \<le> MaxWithdrawalsPerPayload P" "n \<le> length (pending_partial_withdrawals state)"
    using k l' by (auto simp: sweep_post_def withdrawals_inv_def)
qed

end

lemma apply_withdrawals:
  assumes "try_fold apply_withdrawal (zip ws ws') s = Ok s'" "length ws' = length ws"
  shows "ws' = ws \<and> s' = s\<lparr> balances := balances s' \<rparr> \<and> length (balances s') = length (balances s)
    \<and> (\<forall>i < length (balances s). balances s' ! i = balances s ! i - withdrawn ws i)"
  using assms
proof (induction ws arbitrary: ws' s)
  case (Cons w ws)
  obtain x xs where ws': "ws' = x # xs" using Cons.prems(2) by (cases ws') auto
  obtain s1 where s1: "x = w" "update_balance s (wd_validator_index w) (\<lambda>b. Ok (decrease_balance b (wd_amount w))) = Ok s1"
    "try_fold apply_withdrawal (zip ws xs) s1 = Ok s'"
    using Cons.prems(1) by (auto simp: ws' apply_withdrawal_def and_then_eq_Ok ensure_eq_Ok)
  have b1: "s1 = s\<lparr> balances := (balances s)[wd_validator_index w :=
      balances s ! wd_validator_index w - wd_amount w] \<rparr>"
    using s1(2) by (auto simp: update_balance_Ok decrease_balance_def saturating_sub_def)
  have "withdrawn (w # ws) i = (if wd_validator_index w = i then wd_amount w else 0) + withdrawn ws i" for i
    by (simp add: withdrawn_def)
  then show ?case
    using Cons.IH [OF s1(3)] Cons.prems(2) b1 by (auto simp: ws' s1(1) nth_list_update)
qed simp

lemma withdrawn_total:
  "\<forall>w \<in> set ws. wd_validator_index w < n \<Longrightarrow> (\<Sum>i<n. withdrawn ws i) = sum_list (map wd_amount ws)"
proof (induction ws)
  case (Cons w ws)
  have "withdrawn (w # ws) i = (if i = wd_validator_index w then wd_amount w else 0) + withdrawn ws i" for i
    by (simp add: withdrawn_def)
  then show ?case using Cons by (simp add: sum.distrib)
qed (simp add: withdrawn_def)

lemma covered_sum:
  assumes "covered P s ws" "length bs = length (balances s)"
    and "\<forall>i < length (balances s). bs ! i = balances s ! i - withdrawn ws i"
  shows "sum_list bs + sum_list (map wd_amount ws) = sum_list (balances s)"
proof -
  let ?n = "length (balances s)"
  have "(\<Sum>i<?n. bs ! i) + (\<Sum>i<?n. withdrawn ws i) = (\<Sum>i<?n. balances s ! i)"
    using assms by (simp add: covered_def flip: sum.distrib)
  moreover have "(\<Sum>i<?n. withdrawn ws i) = sum_list (map wd_amount ws)"
    using assms(1) by (intro withdrawn_total) (simp add: covered_def)
  ultimately show ?thesis using assms(2) by (simp add: sum_list_sum_nth atLeast0LessThan)
qed

lemma process_withdrawals_cases:
  assumes "process_withdrawals P s payload = Ok s'"
  obtains ws n bs nvi where "get_expected_withdrawals P s = Ok (ws, n)" "ep_withdrawals payload = ws"
    "length bs = length (balances s)" "\<forall>i < length (balances s). bs ! i = balances s ! i - withdrawn ws i"
    "s' = s\<lparr> balances := bs, pending_partial_withdrawals := drop n (pending_partial_withdrawals s),
       next_withdrawal_index := if ws = [] then next_withdrawal_index s else wd_index (last ws) + 1,
       next_withdrawal_validator_index := nvi \<rparr>"
  using assms unfolding process_withdrawals_def Let_def split_def
proof (elim and_then_OkE, goal_cases)
  case (1 e u s1 pending s2)
  obtain ws n where e: "e = (ws, n)" by (cases e)
  have "ep_withdrawals payload = ws \<and> s1 = s\<lparr> balances := balances s1 \<rparr> \<and> length (balances s1) = length (balances s)
    \<and> (\<forall>i < length (balances s). balances s1 ! i = balances s ! i - withdrawn ws i)"
    using apply_withdrawals [of ws "ep_withdrawals payload" s s1] 1(3,4) by (simp add: e ensure_eq_Ok)
  then obtain bs where a: "ep_withdrawals payload = ws" "s1 = s\<lparr> balances := bs \<rparr>" "length bs = length (balances s)"
    "\<forall>i < length (balances s). bs ! i = balances s ! i - withdrawn ws i" by blast
  have p: "pending = drop n (pending_partial_withdrawals s)"
    using 1(5) by (simp add: e a(2) list_try_from_iter_Ok)
  have s2: "s2 = s\<lparr> balances := bs, pending_partial_withdrawals := drop n (pending_partial_withdrawals s),
      next_withdrawal_index := if ws = [] then next_withdrawal_index s else wd_index (last ws) + 1 \<rparr>"
    using 1(6) by (auto simp: e a(2) p map_ok_eq_Ok try_add_Ok split: if_splits)
  obtain nvi where "s' = s2\<lparr> next_withdrawal_validator_index := nvi \<rparr>"
    using 1(7) by (auto simp: update_next_withdrawal_validator_index_def and_then_eq_Ok split: if_splits)
  then show ?case using 1(1) [of ws n bs nvi] 1(2) a e s2 by simp
qed

text \<open>
  C4. A block withdraws exactly what the state owes and never more than the balances.  When
  \<open>process_withdrawals\<close> succeeds, the payload holds exactly the expected withdrawals, at most
  \<open>MAX_WITHDRAWALS_PER_PAYLOAD\<close> of them with consecutive indices; for every validator their sum is
  at most its balance and leaves it the minimum activation balance unless it is withdrawable; the
  balances decrease by exactly the amounts; and a prefix of the pending partial withdrawals leaves
  the queue.
\<close>

theorem withdrawals_covered:
  assumes "process_withdrawals P s payload = Ok s'" "preset_laws P"
    and "MAX_PENDING_PARTIALS_PER_WITHDRAWALS_SWEEP P < MaxWithdrawalsPerPayload P"
  defines "ws \<equiv> ep_withdrawals payload"
  shows "(\<exists>n. get_expected_withdrawals P s = Ok (ws, n)
       \<and> pending_partial_withdrawals s' = drop n (pending_partial_withdrawals s))
    \<and> length ws \<le> MaxWithdrawalsPerPayload P
    \<and> map wd_index ws = [next_withdrawal_index s ..< next_withdrawal_index s']
    \<and> (\<forall>i < length (balances s). withdrawn ws i \<le> balances s ! i
         \<and> balances s' ! i = balances s ! i - withdrawn ws i \<and> leaves_minimum P s ws i)
    \<and> sum_list (balances s') + sum_list (map wd_amount ws) = sum_list (balances s)"
  using assms(1)
proof (rule process_withdrawals_cases, goal_cases)
  case (1 ws' n bs nvi)
  note e = preset_laws.expected_withdrawals [OF assms(2) 1(1) assms(3)]
  have "next_withdrawal_index s' = next_withdrawal_index s + length ws'"
  proof (cases ws' rule: rev_cases)
    case (snoc xs w)
    then have "wd_index w = next_withdrawal_index s + length xs"
      using e(1) by (simp add: covered_def)
    then show ?thesis using 1(5) snoc by simp
  qed (use 1(5) in simp)
  then show ?case
    using 1 e covered_sum [OF e(1) 1(3,4)] by (simp add: ws_def covered_def)
qed

definition sample_excess :: beacon_state where
  "sample_excess = (sample_state 1)\<lparr> balances := [33000000000] \<rparr>"

definition sample_withdrawal :: withdrawal where
  "sample_withdrawal = \<lparr> wd_index = 0, wd_validator_index = 0, wd_address = replicate 20 0, wd_amount = 1000000000 \<rparr>"

definition sample_payload :: execution_payload where
  "sample_payload =
     \<lparr> ep_parent_hash = h256_zero, ep_fee_recipient = replicate 20 0, ep_state_root = h256_zero,
       ep_receipts_root = h256_zero, ep_logs_bloom = replicate 256 0, ep_prev_randao = h256_zero, ep_block_number = 0,
       ep_gas_limit = 0, ep_gas_used = 0, ep_timestamp = 0, ep_extra_data = [], ep_base_fee_per_gas = 0,
       ep_block_hash = h256_zero, ep_transactions = [], ep_withdrawals = [], ep_blob_gas_used = 0, ep_excess_blob_gas = 0 \<rparr>"

lemma sample_excess_fields:
  "slot sample_excess = 70" "validators sample_excess = sample_registry 1" "balances sample_excess = [33000000000]"
  "pending_partial_withdrawals sample_excess = []" "next_withdrawal_index sample_excess = 0"
  "next_withdrawal_validator_index sample_excess = 0"
  by (simp_all add: sample_excess_def sample_state_def)

lemma sample_preset_withdrawals [simp]:
  "MaxWithdrawalsPerPayload sample_preset = 4" "MAX_VALIDATORS_PER_WITHDRAWALS_SWEEP sample_preset = 16"
  "MAX_PENDING_PARTIALS_PER_WITHDRAWALS_SWEEP sample_preset = 2" "PendingPartialWithdrawalsLimit sample_preset = 64"
  by (simp_all add: sample_preset_def MinimalPreset_def MainnetPreset_def)

lemma sample_expected_withdrawals:
  "get_expected_withdrawals sample_preset sample_excess = Ok ([sample_withdrawal], 0)"
proof -
  have reg: "vl_partial_validator (sample_registry 1) 0 = Ok \<lparr> pv_withdrawal_credentials = 1 # replicate 31 0, pv_slashed = False,
     pv_activation_eligibility_epoch = 0, pv_activation_epoch = 0,
     pv_exit_epoch = FAR_FUTURE_EPOCH, pv_withdrawable_epoch = FAR_FUTURE_EPOCH \<rparr>"
    "vl_effective_balance (sample_registry 1) 0 = Ok 32000000000"
    using sample_top_up_index(2)
    by (simp_all add: sample_top_up_fields vl_effective_balance_def raw_effective_balance_def raw_validate_index_def
        validate_index_def raw_len_def pubkeys_len_def nth_rs_def sample_registry_def pubkeys_from_iter_def)
  have one: "[0..<1] = [0::nat]" by simp
  show ?thesis
    by (simp add: get_expected_withdrawals_def one sample_excess_fields Let_def sweep_step_def reg total_withdrawn_def
        sum_rs_eq list_get_def validate_index_def arith_defs ok_or_def u64_bound_def is_fully_withdrawable_validator_def
        is_partially_withdrawable_validator_def has_execution_withdrawal_credential_def has_eth1_withdrawal_credential_def
        has_compounding_withdrawal_credential_def is_compounding_withdrawal_credential_def starts_with_def
        ETH1_ADDRESS_WITHDRAWAL_PREFIX_def COMPOUNDING_WITHDRAWAL_PREFIX_def get_max_effective_balance_def
        expect_def push_withdrawal_def FAR_FUTURE_EPOCH_def sample_withdrawal_def PREFIX_LEN_def sample_epochs
        del: One_nat_def)
qed

lemma sample_process_withdrawals:
  "process_withdrawals sample_preset sample_excess (sample_payload\<lparr> ep_withdrawals := [sample_withdrawal] \<rparr>) =
     Ok (sample_excess\<lparr> balances := [32000000000], pending_partial_withdrawals := [], next_withdrawal_index := 1,
           next_withdrawal_validator_index := 0 \<rparr>)"
  by (simp add: process_withdrawals_def sample_expected_withdrawals [unfolded sample_withdrawal_def] apply_withdrawal_def update_balance_def list_get_def
      validate_index_def decrease_balance_def saturating_sub_def list_try_from_iter_def saturating_usize_def
      update_next_withdrawal_validator_index_def arith_defs ok_or_def u64_bound_def sample_excess_fields
      sample_withdrawal_def Let_def del: One_nat_def)

theorem withdrawals_covered_witness:
  "\<exists>s'. process_withdrawals sample_preset sample_excess (sample_payload\<lparr> ep_withdrawals := [sample_withdrawal] \<rparr>) = Ok s'
     \<and> sum_list (balances s') + 1000000000 = sum_list (balances sample_excess)"
  using withdrawals_covered [OF sample_process_withdrawals sample_preset.preset_laws_axioms] sample_process_withdrawals
  by (simp add: sample_withdrawal_def)

end
