(* ===== verification/Block_Processing.thy ===== *)
theory Block_Processing
  imports Withdrawals "HOL-Library.Option_ord"
begin

unbundle bit_operations_syntax

text \<open>
  Block processing of Electra (\<open>transition_functions/src/electra/block_processing.rs\<close>) with the parts
  that are shared between phases (\<open>unphased/block_processing.rs\<close>, \<open>altair/block_processing.rs\<close> and
  \<open>capella/block_processing.rs\<close> in the same crate).  Each handler takes the verifier that the source
  passes: \<open>NullVerifier\<close> when signatures are checked separately, as \<open>state_transition\<close> does, or
  \<open>SingleVerifier\<close>; neither has any of the options that skip a check.  Slot reports only record what
  is done to the state and are left out.
\<close>

subsection \<open>Block header\<close>

definition process_block_header_for_gossip ::
  "env \<Rightarrow> preset \<Rightarrow> beacon_state \<Rightarrow> beacon_block \<Rightarrow> unit res" where
  "process_block_header_for_gossip E P state block =
     and_then (ensure (blk_slot block = slot state) (Transition (SlotMismatch (slot state) (blk_slot block)))) (\<lambda>_.
     and_then (ensure (hdr_slot (latest_block_header state) < blk_slot block)
       (Transition (BlockNotNewerThanLatestBlockHeader (blk_slot block) (hdr_slot (latest_block_header state))))) (\<lambda>_.
     and_then (get_beacon_proposer_index E P state) (\<lambda>computed.
     let in_block = blk_proposer_index block in
     and_then (ensure (computed = in_block) (Transition (ProposerIndexMismatch computed in_block))) (\<lambda>_.
     let computed = ev_htr_header E (latest_block_header state);
         in_block = blk_parent_root block in
     ensure (computed = in_block) (Transition (ParentRootMismatch computed in_block))))))"

definition process_block_header :: "env \<Rightarrow> preset \<Rightarrow> beacon_state \<Rightarrow> beacon_block \<Rightarrow> beacon_state res" where
  "process_block_header E P state block =
     and_then (process_block_header_for_gossip E P state block) (\<lambda>_.
     let state = state\<lparr> latest_block_header :=
           \<lparr> hdr_slot = blk_slot block, hdr_proposer_index = blk_proposer_index block,
             hdr_parent_root = blk_parent_root block, hdr_state_root = h256_zero,
             hdr_body_root = ev_htr_body E (blk_body block) \<rparr> \<rparr>;
         index = blk_proposer_index block in
     and_then (vl_partial_validator (validators state) index) (\<lambda>proposer.
     and_then (ensure (\<not> pv_slashed proposer) (Transition (ProposerSlashed index))) (\<lambda>_.
     Ok state)))"

subsection \<open>RANDAO and Eth1 data\<close>

text \<open>\<open>SszHash for u64\<close>: the little-endian bytes, padded with zeros.\<close>

definition htr_u64 :: "nat \<Rightarrow> h256" where
  "htr_u64 n = copy_from_slice 0 (to_le_bytes 8 n) h256_zero"

definition xor_h256 :: "h256 \<Rightarrow> h256 \<Rightarrow> h256" where
  "xor_h256 a b = map2 (XOR) a b"

definition process_randao ::
  "env \<Rightarrow> config \<Rightarrow> preset \<Rightarrow> beacon_state \<Rightarrow> beacon_block_body \<Rightarrow> verifier \<Rightarrow> beacon_state res" where
  "process_randao E config P state body v =
     (let epoch = get_current_epoch P state;
          randao_reveal = bb_randao_reveal body in
      and_then (get_beacon_proposer_index E P state) (\<lambda>proposer_index.
      and_then (vl_pubkey (validators state) proposer_index) (\<lambda>public_key.
      and_then (ev_decompress E public_key) (\<lambda>key.
      and_then (verify_singular E v
        (signing_root_single_fork E config state DOMAIN_RANDAO epoch (htr_u64 epoch))
        randao_reveal key SkRandao) (\<lambda>_.
      and_then (get_randao_mix P state epoch) (\<lambda>mix.
      and_then (mod_index_mut (EpochsPerHistoricalVector P) (randao_mixes state) epoch
        (\<lambda>_. xor_h256 mix (hash_768 (ev_compress E) randao_reveal))) (\<lambda>mixes.
      Ok (state\<lparr> randao_mixes := mixes \<rparr>))))))))"

definition SlotsPerEth1VotingPeriod :: "preset \<Rightarrow> nat" where
  "SlotsPerEth1VotingPeriod P = EpochsPerEth1VotingPeriod P * SlotsPerEpoch P"

definition process_eth1_data :: "preset \<Rightarrow> beacon_state \<Rightarrow> beacon_block_body \<Rightarrow> beacon_state res" where
  "process_eth1_data P state body =
     and_then (list_push (SlotsPerEth1VotingPeriod P) (eth1_data_votes state) (bb_eth1_data body)) (\<lambda>votes.
     let state = state\<lparr> eth1_data_votes := votes \<rparr>;
         vote_count = length (filter (\<lambda>vote. vote = bb_eth1_data body) (eth1_data_votes state)) in
     and_then (usize_try_mul vote_count 2) (\<lambda>n.
     Ok (if SlotsPerEth1VotingPeriod P < n then state\<lparr> eth1_data := bb_eth1_data body \<rparr> else state)))"

subsection \<open>Execution payload\<close>

text \<open>
  \<open>From<&ExecutionPayload<P>> for ExecutionPayloadHeader<P>\<close> in
  \<open>types/src/deneb/container_impls.rs\<close>.
\<close>

definition payload_header :: "env \<Rightarrow> execution_payload \<Rightarrow> execution_payload_header" where
  "payload_header E payload =
     \<lparr> eh_parent_hash = ep_parent_hash payload, eh_fee_recipient = ep_fee_recipient payload,
       eh_state_root = ep_state_root payload, eh_receipts_root = ep_receipts_root payload,
       eh_logs_bloom = ep_logs_bloom payload, eh_prev_randao = ep_prev_randao payload,
       eh_block_number = ep_block_number payload, eh_gas_limit = ep_gas_limit payload,
       eh_gas_used = ep_gas_used payload, eh_timestamp = ep_timestamp payload,
       eh_extra_data = ep_extra_data payload, eh_base_fee_per_gas = ep_base_fee_per_gas payload,
       eh_block_hash = ep_block_hash payload,
       eh_transactions_root = ev_htr_transactions E (ep_transactions payload),
       eh_withdrawals_root = ev_htr_withdrawals E (ep_withdrawals payload),
       eh_blob_gas_used = ep_blob_gas_used payload, eh_excess_blob_gas = ep_excess_blob_gas payload \<rparr>"

definition compute_timestamp_at_slot :: "config \<Rightarrow> beacon_state \<Rightarrow> slot \<Rightarrow> unix_seconds res" where
  "compute_timestamp_at_slot config state s =
     and_then (try_sub s GENESIS_SLOT) (\<lambda>slots_since_genesis.
     and_then (try_mul slots_since_genesis (cfg_slot_duration_ms config div 1000)) (\<lambda>n.
     try_add (genesis_time state) n))"

definition VERSIONED_HASH_VERSION_KZG :: bytes where
  "VERSIONED_HASH_VERSION_KZG = [0x01]"

definition kzg_commitment_to_versioned_hash :: "env \<Rightarrow> bytes \<Rightarrow> h256" where
  "kzg_commitment_to_versioned_hash E commitment =
     copy_from_slice 0 VERSIONED_HASH_VERSION_KZG (hash_384 (ev_compress E) commitment)"

definition process_execution_payload_for_gossip ::
  "config \<Rightarrow> beacon_state \<Rightarrow> beacon_block_body \<Rightarrow> unit res" where
  "process_execution_payload_for_gossip config state body =
     (let payload = bb_execution_payload body in
      and_then (compute_timestamp_at_slot config state (slot state)) (\<lambda>computed.
      let in_block = ep_timestamp payload in
      and_then (ensure (computed = in_block) (Transition (ExecutionPayloadTimestampMismatch computed in_block))) (\<lambda>_.
      let maximum = cfg_max_blobs_per_block_electra config;
          in_block = length (bb_blob_kzg_commitments body) in
      ensure (in_block \<le> maximum) (Transition (TooManyBlockKzgCommitments maximum in_block)))))"

text \<open>
  The execution engine is a parameter: \<open>None\<close> is an engine with \<open>IS_NULL\<close>, otherwise the function
  is \<open>notify_new_payload\<close>, with the root of the block, the payload, the versioned hashes, the root of
  the parent block and the execution requests.
\<close>

type_synonym execution_engine =
  "(h256 \<Rightarrow> execution_payload \<Rightarrow> h256 list \<Rightarrow> h256 \<Rightarrow> execution_requests \<Rightarrow> unit res) option"

definition process_execution_payload ::
  "env \<Rightarrow> config \<Rightarrow> preset \<Rightarrow> beacon_state \<Rightarrow> beacon_block \<Rightarrow> execution_engine \<Rightarrow> beacon_state res" where
  "process_execution_payload E config P state block engine =
     (let body = blk_body block;
          payload = bb_execution_payload body;
          in_state = eh_block_hash (latest_execution_payload_header state);
          in_block = ep_parent_hash payload in
      and_then (ensure (in_state = in_block) (Transition (ExecutionPayloadParentHashMismatch in_state in_block))) (\<lambda>_.
      and_then (get_randao_mix P state (get_current_epoch P state)) (\<lambda>in_state.
      let in_block = ep_prev_randao payload in
      and_then (ensure (in_state = in_block) (Transition (ExecutionPayloadPrevRandaoMismatch in_state in_block))) (\<lambda>_.
      and_then (process_execution_payload_for_gossip config state body) (\<lambda>_.
      and_then
        (case engine of
           None \<Rightarrow> Ok ()
         | Some notify_new_payload \<Rightarrow>
             notify_new_payload (ev_htr_block E block) payload
               (map (kzg_commitment_to_versioned_hash E) (bb_blob_kzg_commitments body))
               (hdr_parent_root (latest_block_header state)) (bb_execution_requests body)) (\<lambda>_.
      Ok (state\<lparr> latest_execution_payload_header := payload_header E payload \<rparr>)))))))"

subsection \<open>Slashings\<close>

definition validate_proposer_slashing_with_verifier ::
  "env \<Rightarrow> config \<Rightarrow> preset \<Rightarrow> beacon_state \<Rightarrow> proposer_slashing \<Rightarrow> verifier \<Rightarrow> unit res" where
  "validate_proposer_slashing_with_verifier E config P state slashing v =
     (let header_1 = shdr_message (ps_signed_header_1 slashing);
          header_2 = shdr_message (ps_signed_header_2 slashing) in
      and_then (ensure (hdr_slot header_1 = hdr_slot header_2)
        (Transition (ProposerSlashingSlotMismatch (hdr_slot header_1) (hdr_slot header_2)))) (\<lambda>_.
      and_then (ensure (hdr_proposer_index header_1 = hdr_proposer_index header_2)
        (Transition (ProposerSlashingProposerMismatch (hdr_proposer_index header_1) (hdr_proposer_index header_2)))) (\<lambda>_.
      and_then (ensure (header_1 \<noteq> header_2) (Transition (ProposerSlashingHeadersIdentical header_1))) (\<lambda>_.
      let index = hdr_proposer_index header_1 in
      and_then (vl_partial_validator (validators state) index) (\<lambda>proposer.
      and_then (vl_pubkey (validators state) index) (\<lambda>proposer_pubkey.
      and_then
        (if is_slashable_validator proposer (get_current_epoch P state) then Ok ()
         else and_then (vl_get (validators state) index) (\<lambda>proposer.
              Err (Transition (ProposerNotSlashable index proposer)))) (\<lambda>_.
      try_fold (\<lambda>signed_header _.
        and_then (ev_decompress E proposer_pubkey) (\<lambda>key.
        verify_singular E v
          (signing_root_single_fork E config state DOMAIN_BEACON_PROPOSER
             (compute_epoch_at_slot P (hdr_slot (shdr_message signed_header)))
             (ev_htr_header E (shdr_message signed_header)))
          (shdr_signature signed_header) key SkBlock))
        [ps_signed_header_1 slashing, ps_signed_header_2 slashing] ())))))))"

definition process_proposer_slashing ::
  "env \<Rightarrow> config \<Rightarrow> preset \<Rightarrow> verifier \<Rightarrow> proposer_slashing \<Rightarrow> beacon_state \<Rightarrow> beacon_state res" where
  "process_proposer_slashing E config P v slashing state =
     and_then (validate_proposer_slashing_with_verifier E config P state slashing v) (\<lambda>_.
     slash_validator E config P state (hdr_proposer_index (shdr_message (ps_signed_header_1 slashing))) None)"

definition validate_attester_slashing_with_verifier ::
  "env \<Rightarrow> config \<Rightarrow> preset \<Rightarrow> beacon_state \<Rightarrow> attester_slashing \<Rightarrow> verifier \<Rightarrow> validator_index list res" where
  "validate_attester_slashing_with_verifier E config P state slashing v =
     (let attestation_1 = as_attestation_1 slashing;
          attestation_2 = as_attestation_2 slashing;
          data_1 = ia_data attestation_1;
          data_2 = ia_data attestation_2 in
      and_then (ensure (is_slashable_attestation_data data_1 data_2)
        (Transition (AttestationDataNotSlashable data_1 data_2))) (\<lambda>_.
      and_then (validate_received_indexed_attestation E config P state attestation_1 v) (\<lambda>_.
      and_then (validate_received_indexed_attestation E config P state attestation_2 v) (\<lambda>_.
      let current_epoch = get_current_epoch P state in
      and_then (try_map (\<lambda>index.
          map_ok (\<lambda>attester. (index, attester)) (vl_partial_validator (validators state) index))
        (slashable_indices slashing)) (\<lambda>attesters.
      let indices = map fst (filter (\<lambda>(_, attester). is_slashable_validator attester current_epoch) attesters) in
      and_then (ensure (indices \<noteq> []) (Transition NoAttestersSlashed)) (\<lambda>_.
      Ok indices))))))"

definition process_attester_slashing ::
  "env \<Rightarrow> config \<Rightarrow> preset \<Rightarrow> verifier \<Rightarrow> attester_slashing \<Rightarrow> beacon_state \<Rightarrow> beacon_state res" where
  "process_attester_slashing E config P v slashing state =
     and_then (validate_attester_slashing_with_verifier E config P state slashing v) (\<lambda>indices.
     try_fold (\<lambda>index state. slash_validator E config P state index None) indices state)"

subsection \<open>Attestations\<close>

text \<open>The checks before the signature of an attestation is verified; the result is the indexed attestation.\<close>

definition validate_attestation_data ::
  "env \<Rightarrow> preset \<Rightarrow> beacon_state \<Rightarrow> attestation \<Rightarrow> indexed_attestation res" where
  "validate_attestation_data E P state att =
     (let adata = att_data att; attestation_slot = data_slot adata; target = data_target adata in
      and_then (attestation_epoch_of P state (cp_epoch target)) (\<lambda>attestation_epoch.
      and_then (ensure (cp_epoch target = compute_epoch_at_slot P attestation_slot)
        (Transition (AttestationTargetsWrongEpoch att))) (\<lambda>_.
      and_then (try_add attestation_slot (MIN_ATTESTATION_INCLUSION_DELAY P)) (\<lambda>low_slot.
      and_then (ensure (low_slot \<le> slot state)
        (Transition (AttestationOutsideInclusionRange (slot state) attestation_slot))) (\<lambda>_.
      and_then (ensure (data_index adata = 0) (Transition (AttestationWithNonZeroCommitteeIndex att))) (\<lambda>_.
      let in_state =
            (case attestation_epoch of
               APrevious \<Rightarrow> previous_justified_checkpoint state
             | ACurrent \<Rightarrow> current_justified_checkpoint state);
          in_block = data_source adata in
      and_then (ensure (in_state = in_block) (Transition (AttestationSourceMismatch in_state in_block))) (\<lambda>_.
      get_indexed_attestation E P state att)))))))"

definition validate_attestation_with_verifier ::
  "env \<Rightarrow> config \<Rightarrow> preset \<Rightarrow> beacon_state \<Rightarrow> attestation \<Rightarrow> verifier \<Rightarrow> unit res" where
  "validate_attestation_with_verifier E config P state att v =
     and_then (validate_attestation_data E P state att) (\<lambda>indexed.
     validate_constructed_indexed_attestation E config P state indexed v)"

text \<open>
  The same with a \<open>Triple\<close> as the verifier: the checks other than the signature are those with
  \<open>NullVerifier\<close>, and the message, the signature and the aggregated public key are recorded.
\<close>

type_synonym triple = "h256 \<times> signature_bytes \<times> public_key_bytes"

definition indexed_attestation_triple ::
  "env \<Rightarrow> config \<Rightarrow> preset \<Rightarrow> beacon_state \<Rightarrow> indexed_attestation \<Rightarrow> triple res" where
  "indexed_attestation_triple E config P state indexed =
     and_then (validate_constructed_indexed_attestation E config P state indexed NullVerifier) (\<lambda>_.
     map_ok (\<lambda>keys.
         (signing_root_single_fork E config state DOMAIN_BEACON_ATTESTER
            (cp_epoch (data_target (ia_data indexed))) (ev_htr_attestation_data E (ia_data indexed)),
          ia_signature indexed, ev_aggregate_keys E keys))
       (try_map (validator_key E state) (ia_attesting_indices indexed)))"

text \<open>\<open>Verifier::extend\<close> for \<open>SingleVerifier\<close>: the triples are checked one after the other.\<close>

definition verifier_extend :: "env \<Rightarrow> verifier \<Rightarrow> triple list \<Rightarrow> signature_kind \<Rightarrow> unit res" where
  "verifier_extend E v triples kind =
     try_fold (\<lambda>(message, signature, key) _. verify_singular E v message signature key kind) triples ()"

text \<open>
  \<open>initialize_shuffled_indices\<close> fills the caches that the attestations need, here as with empty caches.
  The source returns at once when both are filled already.  An attestation of a wrong epoch is then
  rejected only when its turn comes, so a block with several invalid attestations can be rejected
  with the error of another one of them.
\<close>

definition initialize_shuffled_indices :: "env \<Rightarrow> preset \<Rightarrow> beacon_state \<Rightarrow> attestation list \<Rightarrow> unit res" where
  "initialize_shuffled_indices E P state atts =
     and_then (try_map (\<lambda>att. attestation_epoch_of P state (cp_epoch (data_target (att_data att)))) atts) (\<lambda>epochs.
     and_then (if APrevious \<in> set epochs
       then map_ok (\<lambda>_. ()) (active_validator_indices_shuffled E P state RPrevious) else Ok ()) (\<lambda>_.
     if ACurrent \<in> set epochs
     then map_ok (\<lambda>_. ()) (active_validator_indices_shuffled E P state RCurrent) else Ok ()))"

definition validate_attestations ::
  "env \<Rightarrow> config \<Rightarrow> preset \<Rightarrow> beacon_state \<Rightarrow> attestation list \<Rightarrow> verifier \<Rightarrow> unit res" where
  "validate_attestations E config P state atts v =
     (if v = NullVerifier
      then try_fold (\<lambda>att _. validate_attestation_with_verifier E config P state att v) atts ()
      else
        and_then (initialize_shuffled_indices E P state atts) (\<lambda>_.
        and_then (try_map (\<lambda>att.
            and_then (validate_attestation_data E P state att) (indexed_attestation_triple E config P state))
          atts) (\<lambda>triples.
        verifier_extend E v triples SkAttestation)))"

definition PARTICIPATION_FLAG_WEIGHTS :: "(nat \<times> nat) list" where
  "PARTICIPATION_FLAG_WEIGHTS =
     [(TIMELY_SOURCE_FLAG_INDEX, TIMELY_SOURCE_WEIGHT), (TIMELY_TARGET_FLAG_INDEX, TIMELY_TARGET_WEIGHT),
      (TIMELY_HEAD_FLAG_INDEX, TIMELY_HEAD_WEIGHT)]"

definition add_flag_reward ::
  "participation_flags \<Rightarrow> participation_flags \<Rightarrow> gwei \<Rightarrow> nat \<times> nat \<Rightarrow> gwei \<Rightarrow> gwei res" where
  "add_flag_reward flags present base_reward = (\<lambda>(flag_index, weight) numerator.
     if bit flags flag_index \<and> \<not> bit present flag_index
     then and_then (try_mul base_reward weight) (\<lambda>r. try_add numerator r)
     else Ok numerator)"

definition update_participation ::
  "participation_flags \<Rightarrow> validator_index \<times> gwei \<Rightarrow> participation_flags list \<times> gwei
    \<Rightarrow> (participation_flags list \<times> gwei) res" where
  "update_participation flags = (\<lambda>(index, base_reward) (participation, numerator).
     and_then (list_get participation index) (\<lambda>present.
     and_then (try_fold (add_flag_reward flags present base_reward) PARTICIPATION_FLAG_WEIGHTS numerator) (\<lambda>numerator.
     Ok (participation[index := present OR flags], numerator))))"

definition apply_attestation ::
  "env \<Rightarrow> preset \<Rightarrow> attestation \<Rightarrow> beacon_state \<Rightarrow> beacon_state res" where
  "apply_attestation E P att state =
     and_then (try_sub (slot state) (data_slot (att_data att))) (\<lambda>inclusion_delay.
     and_then (get_attestation_participation_flags E P state (att_data att) inclusion_delay) (\<lambda>flags.
     and_then (get_base_reward_per_increment E P state) (\<lambda>per_increment.
     and_then (get_attesting_indices E P state att) (\<lambda>attesting_indices.
     and_then (try_map (\<lambda>index.
         map_ok (\<lambda>base_reward. (index, base_reward)) (get_base_reward P state index per_increment))
       attesting_indices) (\<lambda>with_base_rewards.
     and_then (attestation_epoch_of P state (cp_epoch (data_target (att_data att)))) (\<lambda>epoch.
     let epoch_participation =
           (case epoch of
              APrevious \<Rightarrow> previous_epoch_participation state
            | ACurrent \<Rightarrow> current_epoch_participation state) in
     and_then (try_fold (update_participation flags) with_base_rewards (epoch_participation, 0))
       (\<lambda>(epoch_participation, numerator).
     let state =
           (case epoch of
              APrevious \<Rightarrow> state\<lparr> previous_epoch_participation := epoch_participation \<rparr>
            | ACurrent \<Rightarrow> state\<lparr> current_epoch_participation := epoch_participation \<rparr>) in
     and_then (get_beacon_proposer_index E P state) (\<lambda>proposer_index.
     and_then (try_sub WEIGHT_DENOMINATOR PROPOSER_WEIGHT) (\<lambda>n.
     and_then (try_mul n WEIGHT_DENOMINATOR) (\<lambda>n.
     let denominator = n div PROPOSER_WEIGHT in
     and_then (try_div numerator denominator) (\<lambda>proposer_reward.
     update_balance state proposer_index (\<lambda>b. increase_balance b proposer_reward))))))))))))"

subsection \<open>Deposits\<close>

datatype combined_deposit =
    NewValidator public_key_bytes "h256 list" "gwei list" "signature_bytes list" "nat list"
  | TopUp validator_index "h256 list" "gwei list" "signature_bytes list" "nat list"

fun positions :: "combined_deposit \<Rightarrow> nat list" where
  "positions (NewValidator pubkey credentials values signatures ps) = ps"
| "positions (TopUp index credentials values signatures ps) = ps"

definition first_position :: "combined_deposit \<Rightarrow> nat option" where
  "first_position d = (case positions d of [] \<Rightarrow> None | p # _ \<Rightarrow> Some p)"

text \<open>
  \<open>into_group_map_by\<close>: the deposits with their positions, grouped by public key.  The source iterates
  over a hash map; the groups are taken here in the order of their first deposit, and the final
  sort by position makes the result independent of the order.
\<close>

definition group_by_pubkey :: "deposit list \<Rightarrow> (public_key_bytes \<times> (nat \<times> deposit) list) list" where
  "group_by_pubkey deposits =
     (let indexed = enumerate 0 deposits;
          keys = rev (remdups (rev (map (\<lambda>d. dd_pubkey (dep_data d)) deposits)))
      in map (\<lambda>key. (key, filter (\<lambda>(_, d). dd_pubkey (dep_data d) = key) indexed)) keys)"

definition deposit_message_of :: "deposit_data \<Rightarrow> deposit_message" where
  "deposit_message_of d =
     \<lparr> dm_pubkey = dd_pubkey d, dm_withdrawal_credentials = dd_withdrawal_credentials d, dm_amount = dd_amount d \<rparr>"

definition deposit_signing_root :: "env \<Rightarrow> config \<Rightarrow> deposit_data \<Rightarrow> h256" where
  "deposit_signing_root E config d =
     signing_root_all_forks E config DOMAIN_DEPOSIT (ev_htr_deposit_message E (deposit_message_of d))"

definition deposit_signature_valid :: "env \<Rightarrow> config \<Rightarrow> deposit_data \<Rightarrow> bool" where
  "deposit_signature_valid E config d =
     is_ok (and_then (ev_decompress E (dd_pubkey d)) (\<lambda>key.
       verify_singular E SingleVerifier (deposit_signing_root E config d) (dd_signature d) key SkDeposit))"

definition multi_verifier_finish :: "env \<Rightarrow> triple list \<Rightarrow> unit res" where
  "multi_verifier_finish E triples =
     (if triples = [] then Ok ()
      else
        and_then (try_map (\<lambda>(_, signature, _). ev_signature E signature) triples) (\<lambda>_.
        ensure (ev_multi_verify E triples) (Helper (SignatureInvalid SkMulti))))"

definition verify_deposit_merkle_branch :: "env \<Rightarrow> beacon_state \<Rightarrow> nat \<Rightarrow> deposit \<Rightarrow> unit res" where
  "verify_deposit_merkle_branch E state index d =
     ensure (is_valid_merkle_branch (ev_compress E) (ev_index_bit E) (ev_htr_deposit_data E (dep_data d))
        (dep_proof d) index (e1_deposit_root (eth1_data state)))
       (Transition (DepositProofInvalid d))"

definition combine_deposits ::
  "(validator_index option \<times> public_key_bytes \<times> (nat \<times> deposit) list) \<Rightarrow> bool \<Rightarrow> (deposit_data \<Rightarrow> bool)
    \<Rightarrow> combined_deposit option" where
  "combine_deposits = (\<lambda>(existing, pubkey, deposits) all_valid valid.
     case existing of
       Some index \<Rightarrow>
         Some (TopUp index (map (\<lambda>(_, d). dd_withdrawal_credentials (dep_data d)) deposits)
           (map (\<lambda>(_, d). dd_amount (dep_data d)) deposits)
           (map (\<lambda>(_, d). dd_signature (dep_data d)) deposits) (map fst deposits))
     | None \<Rightarrow>
         (case (if all_valid then deposits else dropWhile (\<lambda>(_, d). \<not> valid (dep_data d)) deposits) of
            [] \<Rightarrow> None
          | used \<Rightarrow>
              Some (NewValidator pubkey (map (\<lambda>(_, d). dd_withdrawal_credentials (dep_data d)) used)
                (map (\<lambda>(_, d). dd_amount (dep_data d)) used)
                (map (\<lambda>(_, d). dd_signature (dep_data d)) used) (map fst used))))"

text \<open>
  The source groups the deposits of a block in a hash map and checks the groups in parallel.  The
  groups are here in the order of the first deposit of each key; the combined deposits are sorted by
  position in both, and only which error is reported, when several deposits are invalid, can differ.
\<close>

definition validate_deposits ::
  "env \<Rightarrow> config \<Rightarrow> beacon_state \<Rightarrow> deposit list \<Rightarrow> combined_deposit list res" where
  "validate_deposits E config state deposits =
     (let by_pubkey = map (\<lambda>(pubkey, ds). (index_of_public_key state pubkey, pubkey, ds)) (group_by_pubkey deposits);
          required_signatures_valid =
            is_ok (and_then (try_map (\<lambda>(_, pubkey, ds).
                and_then (ev_decompress E pubkey) (\<lambda>key.
                Ok (deposit_signing_root E config (dep_data (snd (hd ds))), dd_signature (dep_data (snd (hd ds))), key)))
              (filter (\<lambda>(existing, _, _). existing = None) by_pubkey))
             (multi_verifier_finish E)) in
      and_then (try_map (\<lambda>(existing, pubkey, ds).
          and_then (try_fold (\<lambda>(position, d) _.
              and_then (try_add (eth1_deposit_index state) position) (\<lambda>index.
              verify_deposit_merkle_branch E state index d)) ds ()) (\<lambda>_.
          Ok (combine_deposits (existing, pubkey, ds) required_signatures_valid (deposit_signature_valid E config))))
        by_pubkey) (\<lambda>combined.
      Ok (sort_key first_position (concat (map (\<lambda>x. case x of None \<Rightarrow> [] | Some d \<Rightarrow> [d]) combined)))))"

definition zip4 ::
  "'a list \<Rightarrow> 'b list \<Rightarrow> 'c list \<Rightarrow> 'd list \<Rightarrow> ('a \<times> 'b \<times> 'c \<times> 'd) list" where
  "zip4 as bs cs ds = zip as (zip bs (zip cs ds))"

definition genesis_pending :: "public_key_bytes \<Rightarrow> h256 \<times> gwei \<times> signature_bytes \<times> nat \<Rightarrow> pending_deposit \<times> nat" where
  "genesis_pending pubkey = (\<lambda>(credentials, amount, signature, position).
     (\<lparr> pd_pubkey = pubkey, pd_withdrawal_credentials = credentials, pd_amount = amount,
        pd_signature = signature, pd_slot = GENESIS_SLOT \<rparr>, position))"

fun apply_combined_deposit ::
  "preset \<Rightarrow> combined_deposit \<Rightarrow> beacon_state \<times> (pending_deposit \<times> nat) list
    \<Rightarrow> (beacon_state \<times> (pending_deposit \<times> nat) list) res" where
  "apply_combined_deposit P (NewValidator pubkey credentials values signatures ps) (state, pending) =
     and_then (nth_rs credentials 0) (\<lambda>first_credentials.
     and_then (add_validator_to_registry P state pubkey first_credentials 0) (\<lambda>state.
     Ok (state, pending @ map (genesis_pending pubkey) (zip4 credentials values signatures ps))))"
| "apply_combined_deposit P (TopUp index credentials values signatures ps) (state, pending) =
     and_then (public_key state index) (\<lambda>pubkey.
     Ok (state, pending @ map (genesis_pending pubkey) (zip4 credentials values signatures ps)))"

definition push_pending_deposit :: "preset \<Rightarrow> pending_deposit \<Rightarrow> beacon_state \<Rightarrow> beacon_state res" where
  "push_pending_deposit P deposit state =
     map_ok (\<lambda>ds. state\<lparr> pending_deposits := ds \<rparr>)
       (list_push (PendingDepositsLimit P) (pending_deposits state) deposit)"

definition apply_deposits :: "preset \<Rightarrow> combined_deposit list \<Rightarrow> beacon_state \<Rightarrow> beacon_state res" where
  "apply_deposits P deposits state =
     and_then (try_fold (apply_combined_deposit P) deposits (state, [])) (\<lambda>(state, pending).
     try_fold (push_pending_deposit P) (map fst (sort_key snd pending)) state)"

definition process_deposit_data ::
  "env \<Rightarrow> config \<Rightarrow> preset \<Rightarrow> beacon_state \<Rightarrow> deposit_data \<Rightarrow> (validator_index option \<times> beacon_state) res" where
  "process_deposit_data E config P state d =
     and_then (try_add (eth1_deposit_index state) 1) (\<lambda>n.
     let state = state\<lparr> eth1_deposit_index := n \<rparr> in
     case index_of_public_key state (dd_pubkey d) of
       Some index \<Rightarrow>
         map_ok (\<lambda>state. (Some index, state))
           (apply_deposits P [TopUp index [dd_withdrawal_credentials d] [dd_amount d] [dd_signature d] [0]] state)
     | None \<Rightarrow>
         if deposit_signature_valid E config d
         then
           let index = vl_len (validators state) in
           map_ok (\<lambda>state. (Some index, state))
             (apply_deposits P [NewValidator (dd_pubkey d) [dd_withdrawal_credentials d] [dd_amount d]
                [dd_signature d] [0]] state)
         else Ok (None, state))"

subsection \<open>Voluntary exits and credential changes\<close>

definition voluntary_exit_signing_root ::
  "env \<Rightarrow> config \<Rightarrow> beacon_state \<Rightarrow> voluntary_exit \<Rightarrow> h256" where
  "voluntary_exit_signing_root E config state exit =
     (let current_fork_version = fork_current_version (fork state);
          domain =
            (if current_fork_version = cfg_deneb_fork_version config
                \<or> current_fork_version = cfg_electra_fork_version config
                \<or> current_fork_version = cfg_fulu_fork_version config
                \<or> current_fork_version = cfg_gloas_fork_version config
             then compute_domain E config DOMAIN_VOLUNTARY_EXIT (Some (cfg_capella_fork_version config))
                    (Some (genesis_validators_root state))
             else get_domain_from_fork_info E config (fork state) (genesis_validators_root state)
                    DOMAIN_VOLUNTARY_EXIT (ve_epoch exit))
      in compute_signing_root E (ev_htr_voluntary_exit E exit) domain)"

definition unphased_validate_voluntary_exit_with_verifier ::
  "env \<Rightarrow> config \<Rightarrow> preset \<Rightarrow> beacon_state \<Rightarrow> signed_voluntary_exit \<Rightarrow> verifier \<Rightarrow> unit res" where
  "unphased_validate_voluntary_exit_with_verifier E config P state signed_exit v =
     (let exit = sve_message signed_exit; index = ve_validator_index exit in
      and_then (vl_partial_validator (validators state) index) (\<lambda>validator.
      and_then (vl_pubkey (validators state) index) (\<lambda>pubkey.
      let current_epoch = get_current_epoch P state in
      and_then
        (if is_active_validator validator current_epoch then Ok ()
         else and_then (vl_get (validators state) index) (\<lambda>validator.
              Err (Transition (ValidatorNotActive index validator current_epoch)))) (\<lambda>_.
      and_then (ensure (pv_exit_epoch validator = FAR_FUTURE_EPOCH)
        (Transition (ValidatorAlreadyExited index (pv_exit_epoch validator)))) (\<lambda>_.
      and_then (ensure (ve_epoch exit \<le> current_epoch)
        (Transition (VoluntaryExitIsExpired (ve_epoch exit) current_epoch))) (\<lambda>_.
      and_then (try_add (pv_activation_epoch validator) (cfg_shard_committee_period config)) (\<lambda>allowed.
      and_then (ensure (allowed \<le> current_epoch)
        (Transition (ValidatorHasNotBeenActiveLongEnough index (pv_activation_epoch validator) current_epoch))) (\<lambda>_.
      and_then (ev_decompress E pubkey) (\<lambda>key.
      verify_singular E v (voluntary_exit_signing_root E config state exit) (sve_signature signed_exit) key
        SkVoluntaryExit)))))))))"

definition validate_voluntary_exit_with_verifier ::
  "env \<Rightarrow> config \<Rightarrow> preset \<Rightarrow> beacon_state \<Rightarrow> signed_voluntary_exit \<Rightarrow> verifier \<Rightarrow> unit res" where
  "validate_voluntary_exit_with_verifier E config P state signed_exit v =
     and_then (unphased_validate_voluntary_exit_with_verifier E config P state signed_exit v) (\<lambda>_.
     and_then (get_pending_balance_to_withdraw state (ve_validator_index (sve_message signed_exit))) (\<lambda>pending.
     ensure (pending = 0) (Transition VoluntaryExitWithPendingWithdrawals)))"

definition process_voluntary_exit ::
  "env \<Rightarrow> config \<Rightarrow> preset \<Rightarrow> verifier \<Rightarrow> signed_voluntary_exit \<Rightarrow> beacon_state \<Rightarrow> beacon_state res" where
  "process_voluntary_exit E config P v signed_exit state =
     and_then (validate_voluntary_exit_with_verifier E config P state signed_exit v) (\<lambda>_.
     initiate_validator_exit config P state (ve_validator_index (sve_message signed_exit)))"

definition validate_bls_to_execution_change_with_verifier ::
  "env \<Rightarrow> config \<Rightarrow> beacon_state \<Rightarrow> signed_bls_to_execution_change \<Rightarrow> verifier \<Rightarrow> unit res" where
  "validate_bls_to_execution_change_with_verifier E config state signed_change v =
     (let address_change = sbc_message signed_change in
      and_then (vl_get (validators state) (bc_validator_index address_change)) (\<lambda>validator.
      let in_state = val_withdrawal_credentials validator;
          in_block = bls_withdrawal_credentials E (bc_from_bls_pubkey address_change) in
      and_then (ensure (in_state = in_block) (Transition (WithdrawalCredentialsMismatch in_state in_block))) (\<lambda>_.
      and_then (ev_decompress E (bc_from_bls_pubkey address_change)) (\<lambda>key.
      verify_singular E v
        (signing_root_with_genesis E config state DOMAIN_BLS_TO_EXECUTION_CHANGE (ev_htr_bls_change E address_change))
        (sbc_signature signed_change) key SkBlsToExecutionChange))))"

definition process_bls_to_execution_change ::
  "env \<Rightarrow> config \<Rightarrow> verifier \<Rightarrow> signed_bls_to_execution_change \<Rightarrow> beacon_state \<Rightarrow> beacon_state res" where
  "process_bls_to_execution_change E config v signed_change state =
     and_then (validate_bls_to_execution_change_with_verifier E config state signed_change v) (\<lambda>_.
     let address_change = sbc_message signed_change in
     update_partial_validator state (bc_validator_index address_change) (\<lambda>validator.
       validator\<lparr> pv_withdrawal_credentials :=
         eth1_address_withdrawal_credentials (bc_to_execution_address address_change) \<rparr>))"

subsection \<open>Operations\<close>

definition check_deposit_count :: "preset \<Rightarrow> beacon_state \<Rightarrow> beacon_block_body \<Rightarrow> unit res" where
  "check_deposit_count P state body =
     (let limit = min (e1_deposit_count (eth1_data state)) (deposit_requests_start_index state);
          in_block = length (bb_deposits body) in
      if eth1_deposit_index state < limit
      then
        and_then (try_sub limit (eth1_deposit_index state)) (\<lambda>n.
        let computed = min (MaxDeposits P) n in
        ensure (computed = in_block) (Transition (DepositCountMismatch computed in_block)))
      else ensure (in_block = 0) (Transition (DepositCountMismatch 0 in_block)))"

definition process_deposits :: "env \<Rightarrow> config \<Rightarrow> preset \<Rightarrow> deposit list \<Rightarrow> beacon_state \<Rightarrow> beacon_state res" where
  "process_deposits E config P deposits state =
     (if 0 < length deposits
      then
        and_then (validate_deposits E config state deposits) (\<lambda>combined_deposits.
        and_then (try_add (eth1_deposit_index state) (length deposits)) (\<lambda>n.
        apply_deposits P combined_deposits (state\<lparr> eth1_deposit_index := n \<rparr>)))
      else Ok state)"

definition process_operations ::
  "env \<Rightarrow> config \<Rightarrow> preset \<Rightarrow> beacon_state \<Rightarrow> beacon_block_body \<Rightarrow> verifier \<Rightarrow> beacon_state res" where
  "process_operations E config P state body v =
     and_then (check_deposit_count P state body) (\<lambda>_.
     and_then (try_fold (process_proposer_slashing E config P v) (bb_proposer_slashings body) state) (\<lambda>state.
     and_then (try_fold (process_attester_slashing E config P v) (bb_attester_slashings body) state) (\<lambda>state.
     and_then (validate_attestations E config P state (bb_attestations body) v) (\<lambda>_.
     and_then (try_fold (apply_attestation E P) (bb_attestations body) state) (\<lambda>state.
     and_then (process_deposits E config P (bb_deposits body) state) (\<lambda>state.
     and_then (try_fold (process_voluntary_exit E config P v) (bb_voluntary_exits body) state) (\<lambda>state.
     try_fold (process_bls_to_execution_change E config v) (bb_bls_to_execution_changes body) state)))))))"

subsection \<open>Execution requests\<close>

definition process_deposit_request :: "preset \<Rightarrow> deposit_request \<Rightarrow> beacon_state \<Rightarrow> beacon_state res" where
  "process_deposit_request P request state =
     (let s = slot state;
          state =
            (if deposit_requests_start_index state = UNSET_DEPOSIT_REQUESTS_START_INDEX
             then state\<lparr> deposit_requests_start_index := dr_index request \<rparr> else state) in
      push_pending_deposit P
        \<lparr> pd_pubkey = dr_pubkey request, pd_withdrawal_credentials = dr_withdrawal_credentials request,
          pd_amount = dr_amount request, pd_signature = dr_signature request, pd_slot = s \<rparr> state)"

definition compute_source_address :: "partial_validator \<Rightarrow> execution_address" where
  "compute_source_address validator = drop PREFIX_LEN (pv_withdrawal_credentials validator)"

text \<open>
  The checks of \<open>process_withdrawal_request\<close> on the validator, in the order of the source; a request
  that fails one is ignored.
\<close>

definition withdrawal_request_valid ::
  "config \<Rightarrow> preset \<Rightarrow> beacon_state \<Rightarrow> withdrawal_request \<Rightarrow> partial_validator \<Rightarrow> bool res" where
  "withdrawal_request_valid config P state request validator =
     (if \<not> (has_execution_withdrawal_credential validator
            \<and> compute_source_address validator = wr_source_address request) then Ok False
      else if \<not> is_active_validator validator (get_current_epoch P state) then Ok False
      else if pv_exit_epoch validator \<noteq> FAR_FUTURE_EPOCH then Ok False
      else
        map_ok (\<lambda>allowed. \<not> get_current_epoch P state < allowed)
          (try_add (pv_activation_epoch validator) (cfg_shard_committee_period config)))"

definition queue_partial_withdrawal ::
  "config \<Rightarrow> preset \<Rightarrow> beacon_state \<Rightarrow> validator_index \<Rightarrow> gwei \<Rightarrow> gwei \<Rightarrow> gwei \<Rightarrow> beacon_state res" where
  "queue_partial_withdrawal config P state index amount validator_balance pending_balance =
     and_then (try_sub validator_balance (MIN_ACTIVATION_BALANCE P)) (\<lambda>n.
     and_then (try_sub n pending_balance) (\<lambda>available.
     let to_withdraw = min amount available in
     and_then (compute_exit_epoch_and_update_churn config P state to_withdraw) (\<lambda>(exit_queue_epoch, state).
     and_then (try_add exit_queue_epoch (cfg_min_validator_withdrawability_delay config)) (\<lambda>withdrawable_epoch.
     map_ok (\<lambda>ws. state\<lparr> pending_partial_withdrawals := ws \<rparr>)
       (list_push (PendingPartialWithdrawalsLimit P) (pending_partial_withdrawals state)
          \<lparr> pw_validator_index = index, pw_amount = to_withdraw, pw_withdrawable_epoch = withdrawable_epoch \<rparr>)))))"

definition process_withdrawal_request ::
  "config \<Rightarrow> preset \<Rightarrow> withdrawal_request \<Rightarrow> beacon_state \<Rightarrow> beacon_state res" where
  "process_withdrawal_request config P request state =
     (let amount = wr_amount request;
          is_full_exit_request = (amount = FULL_EXIT_REQUEST_AMOUNT) in
      if length (pending_partial_withdrawals state) = PendingPartialWithdrawalsLimit P \<and> \<not> is_full_exit_request
      then Ok state
      else case index_of_public_key state (wr_validator_pubkey request) of
        None \<Rightarrow> Ok state
      | Some index \<Rightarrow>
          and_then (list_get (balances state) index) (\<lambda>validator_balance.
          and_then (vl_partial_validator (validators state) index) (\<lambda>validator.
          and_then (vl_effective_balance (validators state) index) (\<lambda>effective_balance.
          and_then (withdrawal_request_valid config P state request validator) (\<lambda>valid.
          if \<not> valid then Ok state
          else
            and_then (get_pending_balance_to_withdraw state index) (\<lambda>pending_balance.
            if is_full_exit_request
            then (if pending_balance = 0 then initiate_validator_exit config P state index else Ok state)
            else
              let has_sufficient_effective_balance = (MIN_ACTIVATION_BALANCE P \<le> effective_balance) in
              and_then (try_add (MIN_ACTIVATION_BALANCE P) pending_balance) (\<lambda>n.
              let has_excess_balance = (n < validator_balance) in
              if has_compounding_withdrawal_credential validator \<and> has_sufficient_effective_balance
                 \<and> has_excess_balance
              then queue_partial_withdrawal config P state index amount validator_balance pending_balance
              else Ok state)))))))"

definition is_valid_switch_to_compounding_request ::
  "preset \<Rightarrow> beacon_state \<Rightarrow> consolidation_request \<Rightarrow> bool res" where
  "is_valid_switch_to_compounding_request P state request =
     (if cr_source_pubkey request \<noteq> cr_target_pubkey request then Ok False
      else case index_of_public_key state (cr_source_pubkey request) of
        None \<Rightarrow> Ok False
      | Some source_index \<Rightarrow>
          and_then (vl_partial_validator (validators state) source_index) (\<lambda>source.
          Ok (compute_source_address source = cr_source_address request
              \<and> has_eth1_withdrawal_credential source
              \<and> is_active_validator source (get_current_epoch P state)
              \<and> pv_exit_epoch source = FAR_FUTURE_EPOCH)))"

text \<open>The checks of \<open>process_consolidation_request\<close> on the source and the target, in the order of the source.\<close>

definition consolidation_request_valid ::
  "config \<Rightarrow> preset \<Rightarrow> beacon_state \<Rightarrow> consolidation_request \<Rightarrow> validator_index \<Rightarrow> partial_validator
    \<Rightarrow> partial_validator \<Rightarrow> bool res" where
  "consolidation_request_valid config P state request source_index source target =
     (let current_epoch = get_current_epoch P state in
      if \<not> (has_execution_withdrawal_credential source
            \<and> compute_source_address source = cr_source_address request) then Ok False
      else if \<not> has_compounding_withdrawal_credential target then Ok False
      else if \<not> is_active_validator source current_epoch then Ok False
      else if \<not> is_active_validator target current_epoch then Ok False
      else if pv_exit_epoch source \<noteq> FAR_FUTURE_EPOCH then Ok False
      else if pv_exit_epoch target \<noteq> FAR_FUTURE_EPOCH then Ok False
      else
        and_then (try_add (pv_activation_epoch source) (cfg_shard_committee_period config)) (\<lambda>allowed.
        if current_epoch < allowed then Ok False
        else map_ok (\<lambda>pending. \<not> 0 < pending) (get_pending_balance_to_withdraw state source_index)))"

definition queue_consolidation ::
  "config \<Rightarrow> preset \<Rightarrow> beacon_state \<Rightarrow> validator_index \<Rightarrow> validator_index \<Rightarrow> beacon_state res" where
  "queue_consolidation config P state source_index target_index =
     and_then (vl_effective_balance (validators state) source_index) (\<lambda>source_effective_balance.
     and_then (compute_consolidation_epoch_and_update_churn config P state source_effective_balance)
       (\<lambda>(exit_epoch, state).
     and_then (vl_partial_validator (validators state) source_index) (\<lambda>_.
     and_then (try_add exit_epoch (cfg_min_validator_withdrawability_delay config)) (\<lambda>withdrawable_epoch.
     and_then (update_partial_validator state source_index (\<lambda>source.
         source\<lparr> pv_exit_epoch := exit_epoch, pv_withdrawable_epoch := withdrawable_epoch \<rparr>)) (\<lambda>state.
     map_ok (\<lambda>cs. state\<lparr> pending_consolidations := cs \<rparr>)
       (list_push (PendingConsolidationsLimit P) (pending_consolidations state)
          \<lparr> pc_source_index = source_index, pc_target_index = target_index \<rparr>))))))"

definition process_consolidation_request ::
  "config \<Rightarrow> preset \<Rightarrow> consolidation_request \<Rightarrow> beacon_state \<Rightarrow> beacon_state res" where
  "process_consolidation_request config P request state =
     and_then (is_valid_switch_to_compounding_request P state request) (\<lambda>switch.
     if switch then
       (case index_of_public_key state (cr_source_pubkey request) of
          None \<Rightarrow> Ok state
        | Some source_index \<Rightarrow> switch_to_compounding_validator P state source_index)
     else if cr_source_pubkey request = cr_target_pubkey request then Ok state
     else if length (pending_consolidations state) = PendingConsolidationsLimit P then Ok state
     else
       and_then (get_consolidation_churn_limit config P state) (\<lambda>churn_limit.
       if churn_limit \<le> MIN_ACTIVATION_BALANCE P then Ok state
       else
         (case (index_of_public_key state (cr_source_pubkey request),
                index_of_public_key state (cr_target_pubkey request)) of
            (Some source_index, Some target_index) \<Rightarrow>
              and_then (vl_partial_validator (validators state) source_index) (\<lambda>source.
              and_then (vl_partial_validator (validators state) target_index) (\<lambda>target.
              and_then (consolidation_request_valid config P state request source_index source target) (\<lambda>valid.
              if valid then queue_consolidation config P state source_index target_index else Ok state)))
          | _ \<Rightarrow> Ok state)))"

subsection \<open>Sync aggregate\<close>

definition verify_sync_aggregate_signature ::
  "env \<Rightarrow> config \<Rightarrow> preset \<Rightarrow> beacon_state \<Rightarrow> sync_aggregate \<Rightarrow> verifier \<Rightarrow> unit res" where
  "verify_sync_aggregate_signature E config P state aggregate v =
     (if v = NullVerifier then Ok ()
      else
        let participant_pubkeys =
              map (\<lambda>(pubkey, _). ev_decompress E pubkey)
                (filter (\<lambda>(_, b). b)
                  (zip (sc_pubkeys (current_sync_committee state)) (sa_sync_committee_bits aggregate)));
            previous = previous_slot (slot state) in
        and_then (expect_ok (get_block_root_at_slot P state previous)) (\<lambda>block_root.
        verify_aggregate_allowing_empty E v
          (signing_root_single_fork E config state DOMAIN_SYNC_COMMITTEE
             (compute_epoch_at_slot P previous) block_root)
          (sa_sync_committee_signature aggregate) participant_pubkeys SkSyncAggregate))"

definition apply_sync_participant ::
  "gwei \<Rightarrow> public_key_bytes \<times> bool \<Rightarrow> beacon_state \<times> nat \<Rightarrow> (beacon_state \<times> nat) res" where
  "apply_sync_participant participant_reward = (\<lambda>(pubkey, participation_bit) (state, participation).
     and_then (expect (index_of_public_key state pubkey)) (\<lambda>index.
     if participation_bit then
       and_then (update_balance state index (\<lambda>b. increase_balance b participant_reward)) (\<lambda>state.
       map_ok (\<lambda>n. (state, n)) (try_add participation 1))
     else
       map_ok (\<lambda>state. (state, participation))
         (update_balance state index (\<lambda>b. Ok (decrease_balance b participant_reward)))))"

definition process_sync_aggregate ::
  "env \<Rightarrow> config \<Rightarrow> preset \<Rightarrow> beacon_state \<Rightarrow> sync_aggregate \<Rightarrow> verifier \<Rightarrow> beacon_state res" where
  "process_sync_aggregate E config P state aggregate v =
     and_then (verify_sync_aggregate_signature E config P state aggregate v) (\<lambda>_.
     and_then (total_active_balance P state) (\<lambda>total_balance.
     let total_active_increments = total_balance div EFFECTIVE_BALANCE_INCREMENT P in
     and_then (get_base_reward_per_increment E P state) (\<lambda>per_increment.
     and_then (try_mul per_increment total_active_increments) (\<lambda>total_base_rewards.
     and_then (try_mul total_base_rewards SYNC_REWARD_WEIGHT) (\<lambda>n.
     let max_participant_rewards = n div WEIGHT_DENOMINATOR div SlotsPerEpoch P;
         participant_reward = max_participant_rewards div SyncCommitteeSize P in
     and_then (try_mul participant_reward PROPOSER_WEIGHT) (\<lambda>n.
     and_then (try_sub WEIGHT_DENOMINATOR PROPOSER_WEIGHT) (\<lambda>d.
     and_then (try_div n d) (\<lambda>proposer_reward.
     and_then (get_beacon_proposer_index E P state) (\<lambda>proposer_index.
     and_then (try_fold (apply_sync_participant participant_reward)
        (zip (sc_pubkeys (current_sync_committee state)) (sa_sync_committee_bits aggregate))
        (state, 0)) (\<lambda>(state, participation).
     and_then (try_mul proposer_reward participation) (\<lambda>reward.
     update_balance state proposer_index (\<lambda>b. increase_balance b reward))))))))))))"

subsection \<open>Blocks\<close>

definition custom_process_block ::
  "env \<Rightarrow> config \<Rightarrow> preset \<Rightarrow> beacon_state \<Rightarrow> beacon_block \<Rightarrow> execution_engine \<Rightarrow> verifier \<Rightarrow> beacon_state res" where
  "custom_process_block E config P state block engine v =
     (let body = blk_body block; requests = bb_execution_requests body in
      and_then (process_block_header E P state block) (\<lambda>state.
      and_then (process_withdrawals P state (bb_execution_payload body)) (\<lambda>state.
      and_then (process_execution_payload E config P state block engine) (\<lambda>state.
      and_then (process_randao E config P state body v) (\<lambda>state.
      and_then (process_eth1_data P state body) (\<lambda>state.
      and_then (process_operations E config P state body v) (\<lambda>state.
      and_then (try_fold (process_deposit_request P) (er_deposits requests) state) (\<lambda>state.
      and_then (try_fold (process_withdrawal_request config P) (er_withdrawals requests) state) (\<lambda>state.
      and_then (try_fold (process_consolidation_request config P) (er_consolidations requests) state) (\<lambda>state.
      process_sync_aggregate E config P state (bb_sync_aggregate body) v))))))))))"

definition phase0_count_required_signatures :: "beacon_block_body \<Rightarrow> nat res" where
  "phase0_count_required_signatures body =
     and_then (usize_try_mul 2 (length (bb_proposer_slashings body))) (\<lambda>a.
     and_then (usize_try_add 1 a) (\<lambda>n.
     and_then (usize_try_mul 2 (length (bb_attester_slashings body))) (\<lambda>a.
     and_then (usize_try_add n a) (\<lambda>n.
     and_then (usize_try_add n (length (bb_attestations body))) (\<lambda>n.
     usize_try_add n (length (bb_voluntary_exits body)))))))"

definition altair_count_required_signatures :: "beacon_block_body \<Rightarrow> nat res" where
  "altair_count_required_signatures body =
     and_then (phase0_count_required_signatures body) (\<lambda>n. usize_try_add n 1)"

definition count_required_signatures :: "beacon_block \<Rightarrow> nat res" where
  "count_required_signatures block =
     and_then (altair_count_required_signatures (blk_body block)) (\<lambda>n.
     usize_try_add n (length (bb_bls_to_execution_changes (blk_body block))))"

definition process_block ::
  "env \<Rightarrow> config \<Rightarrow> preset \<Rightarrow> beacon_state \<Rightarrow> beacon_block \<Rightarrow> verifier \<Rightarrow> beacon_state res" where
  "process_block E config P state block v =
     and_then (count_required_signatures block) (\<lambda>_.
     custom_process_block E config P state block None v)"

definition process_block_for_gossip ::
  "env \<Rightarrow> config \<Rightarrow> preset \<Rightarrow> beacon_state \<Rightarrow> signed_beacon_block \<Rightarrow> unit res" where
  "process_block_for_gossip E config P state signed_block =
     (let block = sblk_message signed_block in
      and_then (process_block_header_for_gossip E P state block) (\<lambda>_.
      and_then (process_execution_payload_for_gossip config state (blk_body block)) (\<lambda>_.
      and_then (public_key state (blk_proposer_index block)) (\<lambda>pubkey.
      and_then (ev_decompress E pubkey) (\<lambda>key.
      verify_singular E SingleVerifier
        (signing_root_single_fork E config state DOMAIN_BEACON_PROPOSER
           (compute_epoch_at_slot P (blk_slot block)) (ev_htr_block E block))
        (sblk_signature signed_block) key SkBlock)))))"

end
