(* ===== verification/Block_Invariants.thy ===== *)
theory Block_Invariants
  imports Block_Processing
begin

text \<open>
  What the operations of a block keep: none of them touches the slot, the recorded roots or the
  checkpoints, and all keep the state well formed.  Only the header changes the latest block header.
\<close>

lemma withdrawals_keeps: "process_withdrawals P s payload = Ok s' \<Longrightarrow> keeps P s s'"
  by (erule process_withdrawals_cases) (rule keeps_frame; simp)

lemma execution_payload_keeps: "process_execution_payload E config P s block engine = Ok s' \<Longrightarrow> keeps P s s'"
  unfolding process_execution_payload_def Let_def
  by (rule keeps_frame) (auto simp: and_then_eq_Ok)

lemma randao_keeps: "process_randao E config P s body v = Ok s' \<Longrightarrow> keeps P s s'"
  unfolding process_randao_def Let_def
  by (rule keeps_frame) (auto simp: and_then_eq_Ok mod_index_mut_Ok)

lemma eth1_data_keeps: "process_eth1_data P s body = Ok s' \<Longrightarrow> keeps P s s'"
  unfolding process_eth1_data_def Let_def
  by (rule keeps_frame) (auto simp: and_then_eq_Ok split: if_splits)

lemma slash_validator_keeps:
  assumes "slash_validator E config P s i w = Ok s'"
  shows "keeps P s s'"
  using assms unfolding slash_validator_def Let_def
proof (elim and_then_OkE, goal_cases)
  case (1 s1 eb se s2 sl sl' ss s3 pi n rem s4)
  have "keeps P s s1" by (rule initiate_validator_exit_keeps [OF 1(1)])
  also have "keeps P s1 s2" by (rule update_partial_validator_keeps [OF 1(4)])
  also have "keeps P s2 (s2\<lparr> slashings := ss \<rparr>)" using 1(7) by (intro keeps_frame) (auto simp: mod_index_mut_Ok)
  also have "keeps P (s2\<lparr> slashings := ss \<rparr>) s3" by (rule update_balance_keeps [OF 1(8)])
  also have "keeps P s3 s4" by (rule update_balance_keeps [OF 1(12)])
  also have "keeps P s4 s'" by (rule update_balance_keeps [OF 1(13)])
  finally show ?case .
qed

lemma proposer_slashing_keeps: "process_proposer_slashing E config P v x s = Ok s' \<Longrightarrow> keeps P s s'"
  by (auto simp: process_proposer_slashing_def and_then_eq_Ok dest: slash_validator_keeps)

interpretation slashed: preserving "keeps P s0" "\<lambda>i s. slash_validator E config P s i None" for P s0 E config
  by unfold_locales (rule keeps_trans, assumption, rule slash_validator_keeps)

lemma attester_slashing_keeps: "process_attester_slashing E config P v x s = Ok s' \<Longrightarrow> keeps P s s'"
  by (auto simp: process_attester_slashing_def and_then_eq_Ok dest: slashed.fold_preserves [OF keeps_refl])

lemma update_participation_length:
  "update_participation flags x p = Ok q \<Longrightarrow> length (fst q) = length (fst p)"
  by (cases x; cases p) (auto simp: update_participation_def and_then_eq_Ok)

interpretation participation_updates: preserving "\<lambda>p. length (fst p) = n" "update_participation flags" for n flags
  by unfold_locales (simp add: update_participation_length)

lemma apply_attestation_keeps:
  assumes "apply_attestation E P att s = Ok s'"
  shows "keeps P s s'"
  using assms unfolding apply_attestation_def Let_def
proof (elim and_then_OkE, goal_cases)
  case (1 delay flags per idx rewards epoch r)
  obtain ps num where r: "r = (ps, num)" by (cases r)
  have len: "length ps = length (case epoch of APrevious \<Rightarrow> previous_epoch_participation s
      | ACurrent \<Rightarrow> current_epoch_participation s)"
    using participation_updates.fold_preserves [OF refl 1(7)] r by simp
  let ?s1 = "case epoch of APrevious \<Rightarrow> s\<lparr> previous_epoch_participation := ps \<rparr>
    | ACurrent \<Rightarrow> s\<lparr> current_epoch_participation := ps \<rparr>"
  have "keeps P s ?s1" using len by (cases epoch) (auto intro!: keeps_frame)
  also have "keeps P ?s1 s'" using 1(8) by (auto simp: r and_then_eq_Ok dest: update_balance_keeps)
  finally show ?case .
qed

lemma push_pending_deposit_keeps: "push_pending_deposit P d s = Ok s' \<Longrightarrow> keeps P s s'"
  unfolding push_pending_deposit_def by (rule keeps_frame) (auto simp: map_ok_eq_Ok)

interpretation pending_pushes: preserving "keeps P s0" "push_pending_deposit P" for P s0
  by unfold_locales (rule keeps_trans, assumption, rule push_pending_deposit_keeps)

lemma apply_combined_deposit_keeps: "apply_combined_deposit P d p = Ok q \<Longrightarrow> keeps P (fst p) (fst q)"
  by (cases p; cases d) (auto simp: and_then_eq_Ok dest: add_validator_keeps)

interpretation combined_deposits: preserving "\<lambda>p. keeps P s0 (fst p)" "apply_combined_deposit P" for P s0
  by unfold_locales (rule keeps_trans, assumption, rule apply_combined_deposit_keeps)

lemma apply_deposits_keeps:
  assumes "apply_deposits P ds s = Ok s'"
  shows "keeps P s s'"
  using assms unfolding apply_deposits_def
proof (elim and_then_OkE, goal_cases)
  case (1 p)
  obtain t pending where p: "p = (t, pending)" by (cases p)
  have "keeps P s t" using combined_deposits.fold_preserves [of P s "(s, [])"] 1(1) p by fastforce
  also have "keeps P t s'" using 1(2) p pending_pushes.fold_preserves [OF keeps_refl] by auto
  finally show ?case .
qed

lemma process_deposits_keeps: "process_deposits E config P ds s = Ok s' \<Longrightarrow> keeps P s s'"
proof -
  assume *: "process_deposits E config P ds s = Ok s'"
  have "keeps P s (s\<lparr> eth1_deposit_index := n \<rparr>)" for n by (rule keeps_frame) simp_all
  then show "keeps P s s'"
    using * by (auto simp: process_deposits_def and_then_eq_Ok dest!: apply_deposits_keeps intro: keeps_trans split: if_splits)
qed

lemma voluntary_exit_keeps: "process_voluntary_exit E config P v x s = Ok s' \<Longrightarrow> keeps P s s'"
  by (auto simp: process_voluntary_exit_def and_then_eq_Ok dest: initiate_validator_exit_keeps)

lemma bls_change_keeps: "process_bls_to_execution_change E config v x s = Ok s' \<Longrightarrow> keeps P s s'"
  by (auto simp: process_bls_to_execution_change_def and_then_eq_Ok Let_def dest: update_partial_validator_keeps)

lemma deposit_request_keeps: "process_deposit_request P x s = Ok s' \<Longrightarrow> keeps P s s'"
proof -
  assume *: "process_deposit_request P x s = Ok s'"
  have "keeps P s (s\<lparr> deposit_requests_start_index := n \<rparr>)" for n by (rule keeps_frame) simp_all
  then show "keeps P s s'"
    using * by (auto simp: process_deposit_request_def Let_def dest!: push_pending_deposit_keeps intro: keeps_trans split: if_splits)
qed

lemma exit_churn_keeps: "compute_exit_epoch_and_update_churn config P s b = Ok (e, s') \<Longrightarrow> keeps P s s'"
  unfolding compute_exit_epoch_and_update_churn_def Let_def
  by (rule keeps_frame) (auto simp: and_then_eq_Ok split_def)

lemma consolidation_churn_keeps:
  "compute_consolidation_epoch_and_update_churn config P s b = Ok (e, s') \<Longrightarrow> keeps P s s'"
  unfolding compute_consolidation_epoch_and_update_churn_def Let_def
  by (rule keeps_frame) (auto simp: and_then_eq_Ok split_def)

lemma queue_partial_withdrawal_keeps:
  assumes "queue_partial_withdrawal config P s i a b p = Ok s'"
  shows "keeps P s s'"
  using assms unfolding queue_partial_withdrawal_def Let_def
proof (elim and_then_OkE, goal_cases)
  case (1 n available r)
  obtain e s1 where r: "r = (e, s1)" by (cases r)
  have "keeps P s s1" using 1(3) r exit_churn_keeps by simp
  also have "keeps P s1 s'" using 1(4) r by (intro keeps_frame) (auto simp: and_then_eq_Ok map_ok_eq_Ok)
  finally show ?case .
qed

lemma withdrawal_request_keeps: "process_withdrawal_request config P x s = Ok s' \<Longrightarrow> keeps P s s'"
  by (auto simp: process_withdrawal_request_def Let_def and_then_eq_Ok split: if_splits option.splits
      dest: initiate_validator_exit_keeps queue_partial_withdrawal_keeps)

lemma switch_to_compounding_keeps:
  assumes "switch_to_compounding_validator P s i = Ok s'"
  shows "keeps P s s'"
  using assms unfolding switch_to_compounding_validator_def
proof (elim and_then_OkE, goal_cases)
  case (1 s1)
  have "keeps P s s1" by (rule update_partial_validator_keeps [OF 1(1)])
  also have "keeps P s1 s'"
    using 1(2) unfolding queue_excess_active_balance_def
    by (intro keeps_frame) (auto simp: and_then_eq_Ok list_modify_Ok split: if_splits)
  finally show ?case .
qed

lemma queue_consolidation_keeps:
  assumes "queue_consolidation config P s i j = Ok s'"
  shows "keeps P s s'"
  using assms unfolding queue_consolidation_def
proof (elim and_then_OkE, goal_cases)
  case (1 eb r)
  obtain e s1 where r: "r = (e, s1)" by (cases r)
  have "keeps P s s1" using 1(2) r consolidation_churn_keeps by simp
  also obtain f s2 cs where s2: "update_partial_validator s1 i f = Ok s2" "s' = s2\<lparr> pending_consolidations := cs \<rparr>"
    using 1(3) by (auto simp: r and_then_eq_Ok map_ok_eq_Ok)
  then have "keeps P s1 s2" by (intro update_partial_validator_keeps)
  also have "keeps P s2 s'" unfolding s2(2) by (rule keeps_frame) simp_all
  finally show ?case .
qed

lemma consolidation_request_keeps: "process_consolidation_request config P x s = Ok s' \<Longrightarrow> keeps P s s'"
  by (auto simp: process_consolidation_request_def and_then_eq_Ok split: if_splits option.splits
      dest: switch_to_compounding_keeps queue_consolidation_keeps)

lemma apply_sync_participant_keeps: "apply_sync_participant r x p = Ok q \<Longrightarrow> keeps P (fst p) (fst q)"
  by (cases x; cases p)
    (auto simp: apply_sync_participant_def and_then_eq_Ok map_ok_eq_Ok dest: update_balance_keeps split: if_splits)

interpretation sync_participants: preserving "\<lambda>p. keeps P s0 (fst p)" "apply_sync_participant r" for P s0 r
  by unfold_locales (rule keeps_trans, assumption, rule apply_sync_participant_keeps)

lemma sync_aggregate_keeps:
  assumes "process_sync_aggregate E config P s agg v = Ok s'"
  shows "keeps P s s'"
  using assms unfolding process_sync_aggregate_def Let_def
proof (elim and_then_OkE, goal_cases)
  case (1 u t per tb n m d pr pi p)
  obtain t participation where p: "p = (t, participation)" by (cases p)
  have "keeps P s t" using sync_participants.fold_preserves [of P s "(s, 0)"] 1(10) p by fastforce
  also have "keeps P t s'" using 1(11) by (auto simp: p and_then_eq_Ok dest: update_balance_keeps)
  finally show ?case .
qed

interpretation proposer_slashings: preserving "keeps P s0" "process_proposer_slashing E config P v" for P s0 E config v
  by unfold_locales (rule keeps_trans, assumption, rule proposer_slashing_keeps)

interpretation attester_slashings: preserving "keeps P s0" "process_attester_slashing E config P v" for P s0 E config v
  by unfold_locales (rule keeps_trans, assumption, rule attester_slashing_keeps)

interpretation attestations: preserving "keeps P s0" "apply_attestation E P" for P s0 E
  by unfold_locales (rule keeps_trans, assumption, rule apply_attestation_keeps)

interpretation voluntary_exits: preserving "keeps P s0" "process_voluntary_exit E config P v" for P s0 E config v
  by unfold_locales (rule keeps_trans, assumption, rule voluntary_exit_keeps)

interpretation bls_changes: preserving "keeps P s0" "process_bls_to_execution_change E config v" for P s0 E config v
  by unfold_locales (rule keeps_trans, assumption, rule bls_change_keeps)

interpretation deposit_requests: preserving "keeps P s0" "process_deposit_request P" for P s0
  by unfold_locales (rule keeps_trans, assumption, rule deposit_request_keeps)

interpretation withdrawal_requests: preserving "keeps P s0" "process_withdrawal_request config P" for P s0 config
  by unfold_locales (rule keeps_trans, assumption, rule withdrawal_request_keeps)

interpretation consolidation_requests: preserving "keeps P s0" "process_consolidation_request config P" for P s0 config
  by unfold_locales (rule keeps_trans, assumption, rule consolidation_request_keeps)

lemma operations_keeps:
  assumes "process_operations E config P s body v = Ok s'"
  shows "keeps P s s'"
  using assms unfolding process_operations_def
proof (elim and_then_OkE, goal_cases)
  case (1 u s1 s2 w s3 s4 s5)
  have "keeps P s s1" by (rule proposer_slashings.fold_preserves [OF keeps_refl 1(2)])
  also have "keeps P s1 s2" by (rule attester_slashings.fold_preserves [OF keeps_refl 1(3)])
  also have "keeps P s2 s3" by (rule attestations.fold_preserves [OF keeps_refl 1(5)])
  also have "keeps P s3 s4" by (rule process_deposits_keeps [OF 1(6)])
  also have "keeps P s4 s5" by (rule voluntary_exits.fold_preserves [OF keeps_refl 1(7)])
  also have "keeps P s5 s'" by (rule bls_changes.fold_preserves [OF keeps_refl 1(8)])
  finally show ?case .
qed

text \<open>The header is the only part of a block that changes the history, and it changes only the latest header.\<close>

definition header_of :: "env \<Rightarrow> beacon_block \<Rightarrow> beacon_block_header" where
  "header_of E block =
     \<lparr> hdr_slot = blk_slot block, hdr_proposer_index = blk_proposer_index block,
       hdr_parent_root = blk_parent_root block, hdr_state_root = h256_zero,
       hdr_body_root = ev_htr_body E (blk_body block) \<rparr>"

lemma process_block_header_cases:
  assumes "process_block_header E P s block = Ok s'"
  obtains "s' = s\<lparr> latest_block_header := header_of E block \<rparr>" "blk_slot block = slot s"
    "hdr_slot (latest_block_header s) < slot s" "get_beacon_proposer_index E P s = Ok (blk_proposer_index block)"
    "blk_parent_root block = ev_htr_header E (latest_block_header s)"
    "blk_proposer_index block < vl_len (validators s)"
    "\<not> pv_slashed (vl_partial_validators (validators s) ! blk_proposer_index block)"
proof -
  have g: "blk_slot block = slot s" "hdr_slot (latest_block_header s) < blk_slot block"
    "get_beacon_proposer_index E P s = Ok (blk_proposer_index block)"
    "blk_parent_root block = ev_htr_header E (latest_block_header s)"
    using assms by (auto simp: process_block_header_def process_block_header_for_gossip_def Let_def and_then_eq_Ok ensure_eq_Ok)
  obtain pv where pv: "vl_partial_validator (validators s) (blk_proposer_index block) = Ok pv" "\<not> pv_slashed pv"
    "s' = s\<lparr> latest_block_header := header_of E block \<rparr>"
    using assms by (auto simp: process_block_header_def Let_def and_then_eq_Ok ensure_eq_Ok header_of_def)
  show ?thesis using g pv vl_partial_validator_Ok [OF pv(1)] by (intro that) auto
qed

lemma custom_process_block_cases:
  assumes "custom_process_block E config P s block engine v = Ok s'"
  obtains s1 where "process_block_header E P s block = Ok s1" "keeps P s1 s'"
  using assms unfolding custom_process_block_def Let_def
proof (elim and_then_OkE, goal_cases)
  case (1 s1 s2 s3 s4 s5 s6 s7 s8 s9)
  have "keeps P s1 s2" by (rule withdrawals_keeps [OF 1(3)])
  also have "keeps P s2 s3" by (rule execution_payload_keeps [OF 1(4)])
  also have "keeps P s3 s4" by (rule randao_keeps [OF 1(5)])
  also have "keeps P s4 s5" by (rule eth1_data_keeps [OF 1(6)])
  also have "keeps P s5 s6" by (rule operations_keeps [OF 1(7)])
  also have "keeps P s6 s7" by (rule deposit_requests.fold_preserves [OF keeps_refl 1(8)])
  also have "keeps P s7 s8" by (rule withdrawal_requests.fold_preserves [OF keeps_refl 1(9)])
  also have "keeps P s8 s9" by (rule consolidation_requests.fold_preserves [OF keeps_refl 1(10)])
  also have "keeps P s9 s'" by (rule sync_aggregate_keeps [OF 1(11)])
  finally show ?case by (rule 1(1) [OF 1(2)])
qed

end
