(* ===== verification/State_Transition.thy ===== *)
theory State_Transition
  imports Block_Invariants
begin

text \<open>
  The state transition (\<open>transition_functions/src/electra/state_transition.rs\<close> and
  \<open>transition_functions/src/unphased/state_transition.rs\<close>): slots up to the block, the block with its
  signatures, and the check of the state root; and chains of blocks applied one after the other.
\<close>

datatype state_root_policy = Verify | Trust

text \<open>\<open>StateRootPolicy::verify\<close>; with \<open>Trust\<close> the source only caches the root of the block.\<close>

definition verify_state_root :: "env \<Rightarrow> state_root_policy \<Rightarrow> beacon_state \<Rightarrow> beacon_block \<Rightarrow> unit res" where
  "verify_state_root E policy state block =
     (case policy of
        Verify \<Rightarrow>
          let computed = ev_htr_state E state; in_block = blk_state_root block
          in ensure (computed = in_block) (Transition (StateRootMismatch computed in_block))
      | Trust \<Rightarrow> Ok ())"

definition verify_header_signature ::
  "env \<Rightarrow> config \<Rightarrow> preset \<Rightarrow> beacon_state \<Rightarrow> verifier \<Rightarrow> signed_beacon_block_header \<Rightarrow> unit res" where
  "verify_header_signature E config P state v signed_header =
     and_then (validator_key E state (hdr_proposer_index (shdr_message signed_header))) (\<lambda>key.
     verify_singular E v
       (signing_root_single_fork E config state DOMAIN_BEACON_PROPOSER
          (compute_epoch_at_slot P (hdr_slot (shdr_message signed_header)))
          (ev_htr_header E (shdr_message signed_header)))
       (shdr_signature signed_header) key SkBlock)"

definition verify_indexed_signature ::
  "env \<Rightarrow> config \<Rightarrow> beacon_state \<Rightarrow> verifier \<Rightarrow> indexed_attestation \<Rightarrow> unit res" where
  "verify_indexed_signature E config state v att =
     verify_aggregate E v
       (signing_root_single_fork E config state DOMAIN_BEACON_ATTESTER
          (cp_epoch (data_target (ia_data att))) (ev_htr_attestation_data E (ia_data att)))
       (ia_signature att) (map (validator_key E state) (ia_attesting_indices att)) SkAttestation"

definition verify_exit_signature ::
  "env \<Rightarrow> config \<Rightarrow> beacon_state \<Rightarrow> verifier \<Rightarrow> signed_voluntary_exit \<Rightarrow> unit res" where
  "verify_exit_signature E config state v signed_exit =
     and_then (validator_key E state (ve_validator_index (sve_message signed_exit))) (\<lambda>key.
     verify_singular E v (voluntary_exit_signing_root E config state (sve_message signed_exit))
       (sve_signature signed_exit) key SkVoluntaryExit)"

definition verify_bls_change_signature ::
  "env \<Rightarrow> config \<Rightarrow> beacon_state \<Rightarrow> verifier \<Rightarrow> signed_bls_to_execution_change \<Rightarrow> unit res" where
  "verify_bls_change_signature E config state v signed_change =
     and_then (ev_decompress E (bc_from_bls_pubkey (sbc_message signed_change))) (\<lambda>key.
     verify_singular E v
       (signing_root_with_genesis E config state DOMAIN_BLS_TO_EXECUTION_CHANGE
          (ev_htr_bls_change E (sbc_message signed_change)))
       (sbc_signature signed_change) key SkBlsToExecutionChange)"

definition verify_signatures ::
  "env \<Rightarrow> config \<Rightarrow> preset \<Rightarrow> beacon_state \<Rightarrow> signed_beacon_block \<Rightarrow> verifier \<Rightarrow> unit res" where
  "verify_signatures E config P state signed_block v =
     (let block = sblk_message signed_block; body = blk_body block in
      and_then (count_required_signatures block) (\<lambda>n.
      and_then (usize_try_add n 1) (\<lambda>_.
      and_then (validator_key E state (blk_proposer_index block)) (\<lambda>pubkey.
      and_then (verify_singular E v
        (signing_root_single_fork E config state DOMAIN_BEACON_PROPOSER
           (compute_epoch_at_slot P (blk_slot block)) (ev_htr_block E block))
        (sblk_signature signed_block) pubkey SkBlock) (\<lambda>_.
      let epoch = compute_epoch_at_slot P (blk_slot block) in
      and_then (verify_singular E v
        (signing_root_single_fork E config state DOMAIN_RANDAO epoch (htr_u64 epoch))
        (bb_randao_reveal body) pubkey SkRandao) (\<lambda>_.
      and_then (try_fold (\<lambda>x _. try_fold (\<lambda>h _. verify_header_signature E config P state v h)
          [ps_signed_header_1 x, ps_signed_header_2 x] ()) (bb_proposer_slashings body) ()) (\<lambda>_.
      and_then (try_fold (\<lambda>x _. try_fold (\<lambda>att _. verify_indexed_signature E config state v att)
          [as_attestation_1 x, as_attestation_2 x] ()) (bb_attester_slashings body) ()) (\<lambda>_.
      and_then (initialize_shuffled_indices E P state (bb_attestations body)) (\<lambda>_.
      and_then (try_map (\<lambda>att.
          and_then (get_indexed_attestation E P state att) (indexed_attestation_triple E config P state))
        (bb_attestations body)) (\<lambda>triples.
      and_then (verifier_extend E v triples SkAttestation) (\<lambda>_.
      and_then (try_fold (\<lambda>x _. verify_exit_signature E config state v x) (bb_voluntary_exits body) ()) (\<lambda>_.
      and_then (verify_sync_aggregate_signature E config P state (bb_sync_aggregate body) v) (\<lambda>_.
      try_fold (\<lambda>x _. verify_bls_change_signature E config state v x)
        (bb_bls_to_execution_changes body) ())))))))))))))"

definition process_and_check ::
  "env \<Rightarrow> config \<Rightarrow> preset \<Rightarrow> beacon_state \<Rightarrow> beacon_block \<Rightarrow> state_root_policy \<Rightarrow> execution_engine \<Rightarrow> beacon_state res" where
  "process_and_check E config P state block policy engine =
     and_then (custom_process_block E config P state block engine NullVerifier) (\<lambda>state.
     and_then (verify_state_root E policy state block) (\<lambda>_.
     Ok state))"

text \<open>
  The block and its signatures are checked in parallel; an error of the signatures takes precedence
  over an error of the block, and a panic of either is a panic.
\<close>

definition state_transition ::
  "env \<Rightarrow> config \<Rightarrow> preset \<Rightarrow> beacon_state \<Rightarrow> signed_beacon_block \<Rightarrow> process_slots_policy
    \<Rightarrow> state_root_policy \<Rightarrow> execution_engine \<Rightarrow> verifier \<Rightarrow> beacon_state res" where
  "state_transition E config P state signed_block slots policy engine v =
     (let block = sblk_message signed_block in
      and_then (if should_process slots state block then process_slots E config P state (blk_slot block) else Ok state)
        (\<lambda>state.
      if v = NullVerifier then process_and_check E config P state block policy engine
      else case process_and_check E config P state block policy engine of
        Panic \<Rightarrow> Panic
      | block_result \<Rightarrow>
          and_then (verify_signatures E config P state signed_block v) (\<lambda>_. block_result)))"

subsection \<open>Checkpoints stay in order from slot to slot\<close>

lemma process_slot_finality: "process_slot E P s = Ok s' \<Longrightarrow> finality s' = finality s"
  by (erule process_slot_cases) simp

lemma process_slot_wf: "process_slot E P s = Ok s' \<Longrightarrow> state_wf P s \<Longrightarrow> state_wf P s'"
  by (erule process_slot_cases) (erule state_wf_frame; simp add: mod_index_mut_Ok)

context preset_laws
begin

lemma epoch_start_True:
  assumes "is_epoch_start P n = Ok True" "n < u64_bound"
  shows "n = compute_epoch_at_slot P n * SlotsPerEpoch P"
  using assms slots_per_epoch_pos div_times_less_eq_dividend [of n "SlotsPerEpoch P"]
  by (auto simp: is_epoch_start_def slots_since_epoch_start_def map_ok_eq_Ok expect_ok_Ok try_sub_Ok
      compute_start_slot_at_epoch_def compute_epoch_at_slot_def saturating_mul_def u64_bound_def split: if_splits)

lemma previous_epoch_eq: "previous_epoch e = e - 1"
  by (simp add: previous_epoch_def GENESIS_EPOCH_def try_sub_def checked_sub_def ok_or_def)

lemma previous_epoch_mono:
  assumes "slot s' = slot s + 1"
  shows "get_previous_epoch P s \<le> get_previous_epoch P s'"
  using assms div_le_mono [of "slot s" "slot s + 1" "SlotsPerEpoch P"]
  by (simp add: get_previous_epoch_def previous_epoch_eq get_current_epoch_def compute_epoch_at_slot_def diff_le_mono)

lemma previous_epoch_boundary:
  assumes "slot s' = slot s + 1" "is_epoch_start P (slot s + 1) = Ok True" "slot s + 1 < u64_bound"
  shows "get_previous_epoch P s' = get_current_epoch P s"
proof -
  let ?n = "SlotsPerEpoch P"
  have "?n dvd slot s + 1" using epoch_start_True [OF assms(2,3)] by (metis dvd_triv_right)
  then have "(slot s + 1) div ?n = slot s div ?n + 1"
    using slots_per_epoch_pos by (metis Suc_eq_plus1 add.commute div_Suc dvd_imp_mod_0 plus_1_eq_Suc)
  then show ?thesis
    using assms(1) by (simp add: get_previous_epoch_def previous_epoch_eq get_current_epoch_def compute_epoch_at_slot_def)
qed

lemma slot_iteration_ffg:
  assumes "slot_iteration E config P s = Ok s'" "state_wf P s" "ffg_ordered P s"
  shows "ffg_ordered P s' \<and> cp_epoch (finalized_checkpoint s) \<le> cp_epoch (finalized_checkpoint s')
    \<and> cp_epoch (current_justified_checkpoint s) \<le> cp_epoch (current_justified_checkpoint s')"
  using assms(1)
proof (cases rule: slot_iteration_cases)
  case (1 s1 s2)
  have s1: "finality s1 = finality s" "slot s1 = slot s" "state_wf P s1"
    using process_slot_finality [OF 1(1)] process_slot_slot [OF 1(1)] process_slot_wf [OF 1(1) assms(2)] by blast+
  show ?thesis
  proof (cases "is_epoch_start P (slot s + 1) = Ok True")
    case True
    then have "process_epoch E config P s1 = Ok s2" using 1(2) by simp
    then obtain stats s3 where s3: "process_justification_and_finalization P s1 stats = Ok s3" "keeps P s3 s2"
      by (rule process_epoch_cases)
    have "ffg_ordered P s1"
      using assms(3) s1 by (simp add: ffg_ordered_def get_previous_epoch_def get_current_epoch_def)
    moreover have "length (justification_bits s1) = 4" using s1(3) by (simp add: state_wf_def vector_sizes_def)
    ultimately have o: "cp_epoch (finalized_checkpoint s1) \<le> cp_epoch (finalized_checkpoint s3)
        \<and> cp_epoch (finalized_checkpoint s3) \<le> cp_epoch (previous_justified_checkpoint s3)
        \<and> cp_epoch (previous_justified_checkpoint s3) \<le> cp_epoch (current_justified_checkpoint s3)
        \<and> cp_epoch (current_justified_checkpoint s1) \<le> cp_epoch (current_justified_checkpoint s3)
        \<and> cp_epoch (current_justified_checkpoint s3) \<le> get_current_epoch P s3"
      using justification_ordered [OF s3(1)] by blast
    have "slot s3 = slot s" using s3(2) 1(4) s1(2) by (simp add: keeps_def keeps_history_def)
    then have "get_current_epoch P s3 = get_current_epoch P s" by (simp add: get_current_epoch_def)
    moreover have "get_previous_epoch P s' = get_current_epoch P s"
      using 1(3,5) True by (intro previous_epoch_boundary) simp_all
    ultimately show ?thesis using o s3(2) s1(1) 1(5) by (simp add: ffg_ordered_def keeps_def)
  next
    case False
    then have "s2 = s1" using 1(2) by simp
    moreover have "get_previous_epoch P s \<le> get_previous_epoch P s'" using 1(5) by (intro previous_epoch_mono) simp
    ultimately show ?thesis using assms(3) s1(1) 1(5) by (simp add: ffg_ordered_def)
  qed
qed

lemma process_slots_ffg:
  assumes "process_slots E config P s target = Ok s'" "state_wf P s" "ffg_ordered P s"
  shows "ffg_ordered P s' \<and> state_wf P s' \<and> slot s < target \<and> slot s' = target
    \<and> cp_epoch (finalized_checkpoint s) \<le> cp_epoch (finalized_checkpoint s')
    \<and> cp_epoch (current_justified_checkpoint s) \<le> cp_epoch (current_justified_checkpoint s')"
proof -
  have loop: "slot s < target" "process_slots_loop E config P target s = Ok s'"
    using assms(1) by (auto simp: process_slots_def and_then_eq_Ok ensure_eq_Ok)
  have "state_wf P s \<and> ffg_ordered P s \<longrightarrow> ffg_ordered P s'
      \<and> cp_epoch (finalized_checkpoint s) \<le> cp_epoch (finalized_checkpoint s')
      \<and> cp_epoch (current_justified_checkpoint s) \<le> cp_epoch (current_justified_checkpoint s')"
    using loop(2)
  proof (induction rule: process_slots_loop_Ok_induct)
    case (step s s1 s')
    then show ?case using slot_iteration_ffg slot_iteration_history(5) by (meson le_trans)
  qed simp
  then show ?thesis using assms loop process_slots_loop_wf process_slots_loop_slot [OF loop(2)] by auto
qed

end

subsection \<open>Accepted blocks\<close>

lemma state_transition_cases:
  assumes "state_transition E config P s signed_block slots policy engine v = Ok s'"
  obtains s1 where
    "(if should_process slots s (sblk_message signed_block)
      then process_slots E config P s (blk_slot (sblk_message signed_block)) else Ok s) = Ok s1"
    "custom_process_block E config P s1 (sblk_message signed_block) engine NullVerifier = Ok s'"
    "verify_state_root E policy s' (sblk_message signed_block) = Ok ()"
    "v = NullVerifier \<or> verify_signatures E config P s1 signed_block v = Ok ()"
  using assms unfolding state_transition_def Let_def
proof (elim and_then_OkE, goal_cases)
  case (1 s1)
  have "process_and_check E config P s1 (sblk_message signed_block) policy engine = Ok s'
      \<and> (v = NullVerifier \<or> verify_signatures E config P s1 signed_block v = Ok ())"
    using 1(3) by (auto simp: and_then_eq_Ok split: if_splits result.splits)
  then show ?case using 1(1) [OF 1(2)] by (auto simp: process_and_check_def and_then_eq_Ok)
qed

lemma custom_process_block_history:
  assumes "custom_process_block E config P s block engine v = Ok s'"
  shows "slot s' = slot s" "latest_block_header s' = header_of E block" "finality s' = finality s"
    "state_wf P s \<Longrightarrow> state_wf P s'" "blk_slot block = slot s" "hdr_slot (latest_block_header s) < slot s"
    "get_beacon_proposer_index E P s = Ok (blk_proposer_index block)"
    "blk_parent_root block = ev_htr_header E (latest_block_header s)"
    "\<not> pv_slashed (vl_partial_validators (validators s) ! blk_proposer_index block)"
proof -
  obtain s1 where s1: "process_block_header E P s block = Ok s1" "keeps P s1 s'"
    using assms by (rule custom_process_block_cases)
  have h: "s1 = s\<lparr> latest_block_header := header_of E block \<rparr>" "blk_slot block = slot s"
    "hdr_slot (latest_block_header s) < slot s" "get_beacon_proposer_index E P s = Ok (blk_proposer_index block)"
    "blk_parent_root block = ev_htr_header E (latest_block_header s)"
    "\<not> pv_slashed (vl_partial_validators (validators s) ! blk_proposer_index block)"
    using s1(1) by (rule process_block_header_cases; blast)+
  show "slot s' = slot s" "latest_block_header s' = header_of E block" "finality s' = finality s"
    "blk_slot block = slot s" "hdr_slot (latest_block_header s) < slot s"
    "get_beacon_proposer_index E P s = Ok (blk_proposer_index block)"
    "blk_parent_root block = ev_htr_header E (latest_block_header s)"
    "\<not> pv_slashed (vl_partial_validators (validators s) ! blk_proposer_index block)"
    using s1(2) h by (simp_all add: keeps_def)
  assume wf: "state_wf P s"
  have "state_wf P s1" unfolding h(1) using wf by (rule state_wf_frame) simp_all
  then show "state_wf P s'" using s1(2) by (simp add: keeps_def)
qed

lemma slots_header:
  assumes "(if c then process_slots E config P s target else Ok s) = Ok s1"
  shows "hdr_slot (latest_block_header s1) = hdr_slot (latest_block_header s)"
proof -
  have "hdr_slot (latest_block_header s') = hdr_slot (latest_block_header t)"
    if "process_slots_loop E config P target t = Ok s'" for t s'
    using that by (induction rule: process_slots_loop_Ok_induct)
      (auto dest: slot_iteration_history(1) simp: fill_state_root_def)
  then show ?thesis
    using assms by (auto simp: process_slots_def and_then_eq_Ok split: if_splits)
qed

text \<open>
  C2. A block is accepted only if it extends the state.  When the state transition succeeds, the new
  state is at the slot of the block and its latest header is the header of the block; the block is
  newer than the latest block before it, names its root as the parent, and comes from the expected
  proposer, who is not slashed; with \<open>StateRootPolicy::Verify\<close> the state root of the block is the root
  of the new state; and unless the verifier is the null one all signatures were verified.
\<close>

theorem accepted_block_extends_state:
  assumes "state_transition E config P s \<lparr> sblk_message = block, sblk_signature = signature \<rparr> slots policy engine v = Ok s'"
  shows "slot s' = blk_slot block \<and> latest_block_header s' = header_of E block
    \<and> hdr_slot (latest_block_header s) < blk_slot block
    \<and> (policy = Verify \<longrightarrow> ev_htr_state E s' = blk_state_root block)
    \<and> (\<exists>s1. (if should_process slots s block then process_slots E config P s (blk_slot block) else Ok s) = Ok s1
         \<and> blk_parent_root block = ev_htr_header E (latest_block_header s1)
         \<and> get_beacon_proposer_index E P s1 = Ok (blk_proposer_index block)
         \<and> \<not> pv_slashed (vl_partial_validators (validators s1) ! blk_proposer_index block)
         \<and> (v = NullVerifier
            \<or> verify_signatures E config P s1 \<lparr> sblk_message = block, sblk_signature = signature \<rparr> v = Ok ()))"
  using assms
proof (rule state_transition_cases, goal_cases)
  case (1 s1)
  note step = 1 [unfolded signed_beacon_block.select_convs]
  note h = custom_process_block_history [OF step(2)]
  have "policy = Verify \<longrightarrow> ev_htr_state E s' = blk_state_root block"
    using step(3) by (auto simp: verify_state_root_def Let_def ensure_eq_Ok)
  then show ?case using step(1,4) h slots_header [OF step(1)] by metis
qed

subsection \<open>Chains of blocks\<close>

text \<open>
  The states that a sequence of blocks leads to: each block is applied to the state after the one
  before it, with the slots in between processed as needed and the state root verified.
\<close>

inductive chain ::
  "env \<Rightarrow> config \<Rightarrow> preset \<Rightarrow> execution_engine \<Rightarrow> verifier \<Rightarrow> beacon_state \<Rightarrow> signed_beacon_block list
    \<Rightarrow> beacon_state \<Rightarrow> bool"
  for E config P engine v where
  chain_empty: "chain E config P engine v s [] s"
| chain_block: "state_transition E config P s b IfNeeded Verify engine v = Ok s1 \<Longrightarrow>
    chain E config P engine v s1 bs s' \<Longrightarrow> chain E config P engine v s (b # bs) s'"

inductive_cases chain_ConsE: "chain E config P engine v s (b # bs) s'"

text \<open>
  C6. Blocks of a chain are linked by their hashes.  If one block is accepted after another, with state
  roots verified, then the second names as its parent the root of the header of the first with the
  first block's own state root, and it is at a later slot.
\<close>

theorem blocks_linked:
  assumes "state_transition E config P s b1 IfNeeded Verify engine v = Ok s1"
    and "state_transition E config P s1 b2 IfNeeded Verify engine v = Ok s2"
    and "blk_state_root (sblk_message b1) \<noteq> h256_zero"
  shows "blk_parent_root (sblk_message b2) =
      ev_htr_header E ((header_of E (sblk_message b1))\<lparr> hdr_state_root := blk_state_root (sblk_message b1) \<rparr>)
    \<and> blk_slot (sblk_message b1) < blk_slot (sblk_message b2)"
proof -
  obtain t1 where t1: "custom_process_block E config P t1 (sblk_message b1) engine NullVerifier = Ok s1"
    "verify_state_root E Verify s1 (sblk_message b1) = Ok ()"
    using assms(1) by (rule state_transition_cases)
  note h1 = custom_process_block_history [OF t1(1)]
  have root: "ev_htr_state E s1 = blk_state_root (sblk_message b1)"
    using t1(2) by (simp add: verify_state_root_def Let_def ensure_eq_Ok)
  obtain t2 where t2: "(if should_process IfNeeded s1 (sblk_message b2)
      then process_slots E config P s1 (blk_slot (sblk_message b2)) else Ok s1) = Ok t2"
    "custom_process_block E config P t2 (sblk_message b2) engine NullVerifier = Ok s2"
    using assms(2) by (rule state_transition_cases)
  note h2 = custom_process_block_history [OF t2(2)]
  have lt: "blk_slot (sblk_message b1) < blk_slot (sblk_message b2)"
    using h2(5,6) slots_header [OF t2(1)] h1(2) by (simp add: header_of_def)
  then have "process_slots_loop E config P (blk_slot (sblk_message b2)) s1 = Ok t2" "slot s1 < blk_slot (sblk_message b2)"
    using t2(1) h1(1,5) by (auto simp: should_process_def process_slots_def and_then_eq_Ok ensure_eq_Ok split: if_splits)
  then obtain t where t: "slot_iteration E config P s1 = Ok t"
    "process_slots_loop E config P (blk_slot (sblk_message b2)) t = Ok t2"
    by (auto simp: process_slots_loop.simps [of E config P _ s1] and_then_eq_Ok)
  have "latest_block_header t = (header_of E (sblk_message b1))\<lparr> hdr_state_root := blk_state_root (sblk_message b1) \<rparr>"
    using slot_iteration_history(1) [OF t(1)] h1(2) root by (simp add: fill_state_root_def header_of_def)
  then have "latest_block_header t2 = (header_of E (sblk_message b1))\<lparr> hdr_state_root := blk_state_root (sblk_message b1) \<rparr>"
    using process_slots_loop_header [OF t(2)] assms(3) by simp
  then show ?thesis using h2(8) lt by simp
qed

context preset_laws
begin

lemma state_transition_ffg:
  assumes "state_transition E config P s b slots policy engine v = Ok s'" "state_wf P s" "ffg_ordered P s"
  shows "ffg_ordered P s' \<and> state_wf P s'
    \<and> cp_epoch (finalized_checkpoint s) \<le> cp_epoch (finalized_checkpoint s')
    \<and> cp_epoch (current_justified_checkpoint s) \<le> cp_epoch (current_justified_checkpoint s')"
  using assms(1)
proof (rule state_transition_cases, goal_cases)
  case (1 s1)
  have s1: "ffg_ordered P s1 \<and> state_wf P s1
    \<and> cp_epoch (finalized_checkpoint s) \<le> cp_epoch (finalized_checkpoint s1)
    \<and> cp_epoch (current_justified_checkpoint s) \<le> cp_epoch (current_justified_checkpoint s1)"
    using 1(1) process_slots_ffg assms(2,3) by (auto split: if_splits)
  note h = custom_process_block_history [OF 1(2)]
  have "get_previous_epoch P s' = get_previous_epoch P s1"
    using h(1) by (simp add: get_previous_epoch_def get_current_epoch_def)
  then show ?case using s1 h(3,4) by (simp add: ffg_ordered_def)
qed

lemma chain_ffg:
  assumes "chain E config P engine v s bs s'" "state_wf P s" "ffg_ordered P s"
  shows "state_wf P s' \<and> ffg_ordered P s'
    \<and> cp_epoch (finalized_checkpoint s) \<le> cp_epoch (finalized_checkpoint s')
    \<and> cp_epoch (current_justified_checkpoint s) \<le> cp_epoch (current_justified_checkpoint s')"
  using assms
proof (induction rule: chain.induct)
  case (chain_block s b s1 bs s')
  then show ?case using state_transition_ffg [OF chain_block(1)] by (meson le_trans)
qed simp

end

lemma state_transition_slots:
  assumes "state_transition E config P s b slots policy engine v = Ok s'"
  shows "hdr_slot (latest_block_header s) < blk_slot (sblk_message b)"
    "hdr_slot (latest_block_header s') = blk_slot (sblk_message b)"
proof -
  obtain s1 where s1: "(if should_process slots s (sblk_message b)
      then process_slots E config P s (blk_slot (sblk_message b)) else Ok s) = Ok s1"
    "custom_process_block E config P s1 (sblk_message b) engine NullVerifier = Ok s'"
    using assms by (rule state_transition_cases)
  note h = custom_process_block_history [OF s1(2)]
  show "hdr_slot (latest_block_header s) < blk_slot (sblk_message b)"
    "hdr_slot (latest_block_header s') = blk_slot (sblk_message b)"
    using slots_header [OF s1(1)] h(2,5,6) by (simp_all add: header_of_def)
qed

lemma chain_sorted:
  "chain E config P engine v s bs s' \<Longrightarrow>
     sorted_wrt (<) (hdr_slot (latest_block_header s) # map (\<lambda>b. blk_slot (sblk_message b)) bs)"
proof (induction rule: chain.induct)
  case (chain_block s b s1 bs s')
  then show ?case using state_transition_slots [OF chain_block(1)] by (auto intro: less_trans)
qed simp

text \<open>
  C1. Along every chain of accepted blocks the state stays well formed, the checkpoints stay in order
  and finality never moves backwards: neither the finalized nor the current justified checkpoint
  becomes older; and the slots of the blocks strictly increase.
\<close>

theorem chain_safe:
  assumes "chain E config P engine v s bs s'" "preset_laws P" "state_wf P s" "ffg_ordered P s"
  shows "state_wf P s' \<and> ffg_ordered P s'
    \<and> cp_epoch (finalized_checkpoint s) \<le> cp_epoch (finalized_checkpoint s')
    \<and> cp_epoch (current_justified_checkpoint s) \<le> cp_epoch (current_justified_checkpoint s')
    \<and> sorted_wrt (<) (hdr_slot (latest_block_header s) # map (\<lambda>b. blk_slot (sblk_message b)) bs)"
  using preset_laws.chain_ffg [OF assms(2,1,3,4)] chain_sorted [OF assms(1)] by blast

subsection \<open>Two blocks on a small state\<close>

definition sample_body :: "slot \<Rightarrow> beacon_block_body" where
  "sample_body k =
     \<lparr> bb_randao_reveal = replicate 96 0,
       bb_eth1_data = \<lparr> e1_deposit_root = h256_zero, e1_deposit_count = 1, e1_block_hash = h256_zero \<rparr>,
       bb_graffiti = h256_zero, bb_proposer_slashings = [], bb_attester_slashings = [], bb_attestations = [],
       bb_deposits = [], bb_voluntary_exits = [],
       bb_sync_aggregate = \<lparr> sa_sync_committee_bits = [], sa_sync_committee_signature = signature_empty \<rparr>,
       bb_execution_payload = sample_payload\<lparr> ep_timestamp := 6 * k \<rparr>, bb_bls_to_execution_changes = [],
       bb_blob_kzg_commitments = [],
       bb_execution_requests = \<lparr> er_deposits = [], er_withdrawals = [], er_consolidations = [] \<rparr> \<rparr>"

definition sample_block :: "slot \<Rightarrow> beacon_block" where
  "sample_block k =
     \<lparr> blk_slot = k, blk_proposer_index = 0, blk_parent_root = h256_zero, blk_state_root = replicate 32 1,
       blk_body = sample_body k \<rparr>"

definition sample_ready :: "slot \<Rightarrow> nat \<Rightarrow> beacon_state \<Rightarrow> bool" where
  "sample_ready k n s \<longleftrightarrow>
     slot s = k \<and> validators s = sample_registry 1 \<and> balances s = [32000000000]
     \<and> randao_mixes s = replicate 64 h256_zero \<and> length (eth1_data_votes s) = n
     \<and> e1_deposit_count (eth1_data s) = 1 \<and> eth1_deposit_index s = 1
     \<and> pending_partial_withdrawals s = [] \<and> next_withdrawal_validator_index s = 0 \<and> genesis_time s = 0
     \<and> sc_pubkeys (current_sync_committee s) = [] \<and> eh_block_hash (latest_execution_payload_header s) = h256_zero
     \<and> length (block_roots s) = 64 \<and> length (state_roots s) = 64"

lemma sample_output: "sha256_output (replicate 8 0) = h256_zero"
proof -
  have "word_to_be_bytes 0 = replicate 4 0"
    by (simp add: word_to_be_bytes_def to_be_bytes_def to_le_bytes_def upt_rec replicate_4)
  then show ?thesis
    by (simp add: sha256_output_def replicate_4 numeral_eq_Suc)
qed

lemma sample_hash_zero: "hash_768 (ev_compress sample_root_env) bs = h256_zero"
  by (simp add: hash_768_def sample_root_env_def sample_env_def compress_multiple_def sample_output)

lemma sample_ready_active:
  assumes "sample_ready k n s" "64 \<le> k" "k < 72"
  shows "\<exists>p. active_validator_indices_ordered sample_preset s RCurrent = Ok p \<and> unpack_indices p = [0]"
proof -
  have "k div 8 = 8" using assms by simp
  then have "get_current_epoch sample_preset s = 8"
    using assms(1) by (simp add: sample_ready_def get_current_epoch_def compute_epoch_at_slot_def)
  moreover have "validators s = sample_registry 1" using assms(1) by (simp add: sample_ready_def)
  then have "get_active_validator_indices_by_epoch s 8 = [0]"
    by (simp add: get_active_validator_indices_by_epoch_def get_filtered_active_validator_indices_by_epoch_def
        sample_one_columns is_active_validator_def FAR_FUTURE_EPOCH_def u64_bound_def del: One_nat_def)
  ultimately show ?thesis
    by (simp add: active_validator_indices_ordered_def get_active_validator_indices_def absolute_epoch_def
        pack_indices_def pack_one_def)
qed

lemma sample_ready_proposer:
  assumes "sample_ready k n s" "64 \<le> k" "k < 72"
  shows "get_beacon_proposer_index sample_root_env sample_preset s = Ok 0"
proof -
  obtain p where p: "active_validator_indices_ordered sample_preset s RCurrent = Ok p" "unpack_indices p = [0]"
    using sample_ready_active [OF assms] by blast
  have k: "k div 8 = 8" using assms by simp
  have "random_value (ev_compress sample_root_env) seed 0 = 0" for seed
    by (simp add: random_value_def hash_256_64_def compress_single_def compress_multiple_def sample_env_def
        sample_root_env_def sample_hash)
  then have "selection_candidate sample_root_env sample_preset s (unpack_indices p) seed 0 = Ok (0, True)" for seed
    using assms(1)
    by (simp add: selection_candidate_def p(2) compute_shuffled_index_def shuffle_single_def assert_rs_def
        expect_ok_def vl_effective_balance_def raw_effective_balance_def raw_validate_index_def sample_registry_def
        raw_len_def pubkeys_len_def try_mul_def checked_mul_def ok_or_def u64_bound_def sample_ready_def
        pubkeys_from_iter_def)
  then have "proposer_loop sample_root_env sample_preset s (unpack_indices p) seed 0 = Ok 0" for seed
    by (subst proposer_loop.simps) (simp add: SELECTION_ATTEMPTS_def u64_bound_def)
  then show ?thesis
    using p assms(1) k
    by (simp add: get_beacon_proposer_index_def get_beacon_proposer_index_at_slot_def relative_epoch_of_def
        get_next_epoch_def get_current_epoch_def compute_epoch_at_slot_def try_add_def checked_add_def
        checked_sub_def ok_or_def u64_bound_def get_seed_def absolute_epoch_def get_seed_by_epoch_def try_sub_def
        get_randao_mix_def mod_index_def list_get_def validate_index_def compute_proposer_index_def packed_len_unpack
        sample_ready_def)
qed

lemma sample_ready_registry:
  assumes "sample_ready k n s"
  shows "vl_partial_validator (validators s) 0 = Ok \<lparr> pv_withdrawal_credentials = 1 # replicate 31 0, pv_slashed = False,
       pv_activation_eligibility_epoch = 0, pv_activation_epoch = 0,
       pv_exit_epoch = FAR_FUTURE_EPOCH, pv_withdrawable_epoch = FAR_FUTURE_EPOCH \<rparr>"
    "vl_effective_balance (validators s) 0 = Ok 32000000000" "vl_pubkey (validators s) 0 = Ok (replicate 48 0)"
    "vl_len (validators s) = 1"
  using assms
  by (simp_all add: sample_ready_def vl_partial_validator_def raw_partial_validator_def raw_validate_index_def
      vl_effective_balance_def raw_effective_balance_def validate_index_def raw_len_def pubkeys_len_def nth_rs_def
      vl_len_def vl_pubkey_def raw_pubkey_def pubkeys_get_def expect_def sample_registry_def pubkeys_from_iter_def)

lemma sample_header:
  assumes "sample_ready k n s" "64 \<le> k" "k < 72" "hdr_slot (latest_block_header s) < k"
  shows "process_block_header sample_root_env sample_preset s (sample_block k) =
    Ok (s\<lparr> latest_block_header := header_of sample_root_env (sample_block k) \<rparr>)"
  using assms sample_ready_proposer [OF assms(1-3)] sample_ready_registry(1) [OF assms(1)]
  by (simp add: process_block_header_def process_block_header_for_gossip_def sample_block_def header_of_def
      sample_root_env_def sample_env_def sample_ready_def Let_def)

lemma sample_no_withdrawals:
  assumes "sample_ready k n s" "k < 72"
  shows "process_withdrawals sample_preset s (sample_payload\<lparr> ep_timestamp := t \<rparr>) =
    Ok (s\<lparr> pending_partial_withdrawals := [], next_withdrawal_validator_index := 0 \<rparr>)"
proof -
  have one: "[0..<1] = [0::nat]" by simp
  have "k < u64_bound - 1"
    using assms(2) by (simp add: u64_bound_def)
  then have "\<not> u64_bound - 1 \<le> k div 8"
    by simp
  then have "get_expected_withdrawals sample_preset s = Ok ([], 0)"
    using assms sample_ready_registry [OF assms(1)]
    by (simp add: get_expected_withdrawals_def one sample_ready_def Let_def sweep_step_def total_withdrawn_def
        sum_rs_eq list_get_def validate_index_def arith_defs ok_or_def u64_bound_def is_fully_withdrawable_validator_def
        is_partially_withdrawable_validator_def get_max_effective_balance_def FAR_FUTURE_EPOCH_def
        has_compounding_withdrawal_credential_def is_compounding_withdrawal_credential_def starts_with_def
        COMPOUNDING_WITHDRAWAL_PREFIX_def expect_def get_current_epoch_def compute_epoch_at_slot_def
        del: One_nat_def)
  then show ?thesis
    using assms sample_ready_registry(4) [OF assms(1)]
    by (simp add: process_withdrawals_def sample_payload_def list_try_from_iter_def saturating_usize_def
        update_next_withdrawal_validator_index_def arith_defs ok_or_def u64_bound_def sample_ready_def Let_def
        del: One_nat_def)
qed

lemma sample_payload_processed:
  assumes "sample_ready k n s" "k < 72"
  shows "process_execution_payload sample_root_env config_minimal sample_preset s (sample_block k) None =
    Ok (s\<lparr> latest_execution_payload_header := payload_header sample_root_env (sample_payload\<lparr> ep_timestamp := 6 * k \<rparr>) \<rparr>)"
  using assms
  by (simp add: process_execution_payload_def process_execution_payload_for_gossip_def compute_timestamp_at_slot_def
      sample_block_def sample_body_def sample_payload_def sample_ready_def GENESIS_SLOT_def arith_defs ok_or_def
      u64_bound_def config_minimal_def config_default_def get_randao_mix_def mod_index_def list_get_def
      validate_index_def Let_def mult.commute)

lemma sample_randao:
  assumes "sample_ready k n s" "64 \<le> k" "k < 72"
  shows "process_randao sample_root_env config_minimal sample_preset s (sample_body k) NullVerifier =
    Ok (s\<lparr> randao_mixes := replicate 64 h256_zero \<rparr>)"
proof -
  have "xor_h256 h256_zero h256_zero = h256_zero"
    by (simp add: xor_h256_def zip_replicate map_replicate_const)
  moreover have "(replicate 64 h256_zero)[8 := h256_zero] = replicate 64 h256_zero"
    using list_update_id [of "replicate 64 h256_zero" 8] by simp
  moreover have "get_current_epoch sample_preset s = 8"
    using assms by (simp add: get_current_epoch_def compute_epoch_at_slot_def sample_ready_def)
  moreover have "ev_decompress sample_root_env bs = Ok bs" for bs
    by (simp add: sample_root_env_def sample_env_def)
  ultimately show ?thesis
    using assms sample_ready_proposer [OF assms] sample_ready_registry(3) [OF assms(1)]
    by (simp add: process_randao_def sample_body_def sample_hash_zero sample_ready_def get_randao_mix_def mod_index_def
        mod_index_mut_def list_modify_def list_get_def validate_index_def Let_def)
qed

lemma sample_eth1:
  assumes "sample_ready k n s" "n < 30"
  shows "\<exists>s'. process_eth1_data sample_preset s (sample_body k) = Ok s' \<and> sample_ready k (Suc n) s'
    \<and> latest_block_header s' = latest_block_header s"
proof -
  have "SlotsPerEth1VotingPeriod sample_preset = 32"
    by (simp add: SlotsPerEth1VotingPeriod_def)
  moreover have "length (filter p (eth1_data_votes s)) * 2 + 2 < u64_bound" for p
    using length_filter_le [of p "eth1_data_votes s"] assms unfolding sample_ready_def u64_bound_def by linarith
  ultimately show ?thesis
    using assms
    by (simp add: process_eth1_data_def sample_ready_def list_push_def Let_def arith_defs ok_or_def sample_body_def)
qed

lemma sample_operations:
  assumes "sample_ready k n s"
  shows "process_operations sample_root_env config_minimal sample_preset s (sample_body k) NullVerifier = Ok s"
  using assms
  by (simp add: process_operations_def check_deposit_count_def sample_ready_def sample_body_def Let_def
      validate_attestations_def process_deposits_def)

lemma sample_sqrt: "ev_sqrt sample_root_env n = n div 2"
  by (simp add: sample_root_env_def sample_env_def)

lemma sample_sync:
  assumes "sample_ready k n s" "64 \<le> k" "k < 72"
  shows "process_sync_aggregate sample_root_env config_minimal sample_preset s (bb_sync_aggregate (sample_body k)) NullVerifier = Ok s"
proof -
  have "total_active_balance sample_preset s = Ok 32000000000"
    using assms by (simp add: total_active_balance_def sample_ready_def sample_one_columns is_active_validator_def
      FAR_FUTURE_EPOCH_def sum_rs_eq u64_bound_def get_current_epoch_def compute_epoch_at_slot_def
      Let_def del: One_nat_def)
  then show ?thesis
    using assms sample_ready_proposer [OF assms]
    by (simp add: process_sync_aggregate_def verify_sync_aggregate_signature_def get_base_reward_per_increment_def
      sample_ready_def arith_defs ok_or_def u64_bound_def Let_def sample_body_def update_balance_def list_get_def
      validate_index_def increase_balance_def sample_sqrt WEIGHT_DENOMINATOR_def
      PROPOSER_WEIGHT_def SYNC_REWARD_WEIGHT_def sample_preset_def MinimalPreset_def MainnetPreset_def)
qed

lemma sample_ready_updates [simp]:
  "sample_ready k n (s\<lparr> latest_block_header := h \<rparr>) = sample_ready k n s"
  by (simp add: sample_ready_def)

lemma sample_block_processed:
  assumes "sample_ready k n s" "64 \<le> k" "k < 72" "n < 30" "hdr_slot (latest_block_header s) < k"
  shows "\<exists>s'. custom_process_block sample_root_env config_minimal sample_preset s (sample_block k) None NullVerifier = Ok s'
    \<and> sample_ready k (Suc n) s' \<and> latest_block_header s' = header_of sample_root_env (sample_block k)"
proof -
  define header where "header = header_of sample_root_env (sample_block k)"
  define s1 where "s1 = s\<lparr> latest_block_header := header \<rparr>"
  define s2 where "s2 = s1\<lparr> pending_partial_withdrawals := [], next_withdrawal_validator_index := 0 \<rparr>"
  define s3 where "s3 = s2\<lparr> latest_execution_payload_header := payload_header sample_root_env (sample_payload\<lparr> ep_timestamp := 6 * k \<rparr>) \<rparr>"
  define s4 where "s4 = s3\<lparr> randao_mixes := replicate 64 h256_zero \<rparr>"
  have r1: "sample_ready k n s1" using assms(1) by (simp add: s1_def)
  then have r2: "sample_ready k n s2" by (simp add: s2_def sample_ready_def)
  then have r3: "sample_ready k n s3" by (simp add: s3_def sample_ready_def payload_header_def sample_payload_def)
  then have r4: "sample_ready k n s4" by (simp add: s4_def sample_ready_def)
  obtain s5 where s5: "process_eth1_data sample_preset s4 (sample_body k) = Ok s5" "sample_ready k (Suc n) s5"
    "latest_block_header s5 = latest_block_header s4"
    using sample_eth1 [OF r4 assms(4)] by blast
  have h: "latest_block_header s5 = header"
    using s5(3) by (simp add: s4_def s3_def s2_def s1_def)
  note steps = sample_header [OF assms(1-3,5), folded header_def, folded s1_def]
    sample_no_withdrawals [OF r1 assms(3), folded s2_def] sample_payload_processed [OF r2 assms(3), folded s3_def]
    sample_randao [OF r3 assms(2,3), folded s4_def] s5(1) sample_operations [OF s5(2)] sample_sync [OF s5(2) assms(2,3)]
  have parts: "blk_body (sample_block k) = sample_body k"
    "bb_execution_payload (sample_body k) = sample_payload\<lparr> ep_timestamp := 6 * k \<rparr>"
    "bb_execution_requests (sample_body k) = \<lparr> er_deposits = [], er_withdrawals = [], er_consolidations = [] \<rparr>"
    by (simp_all add: sample_block_def sample_body_def)
  have "custom_process_block sample_root_env config_minimal sample_preset s (sample_block k) None NullVerifier = Ok s5"
    by (simp add: custom_process_block_def Let_def parts steps)
  then show ?thesis using s5(2) h header_def by blast
qed

abbreviation sample_signed :: "slot \<Rightarrow> signed_beacon_block" where
  "sample_signed k \<equiv> \<lparr> sblk_message = sample_block k, sblk_signature = replicate 96 0 \<rparr>"

lemma sample_slots:
  assumes "sample_ready 70 n s"
  shows "\<exists>s'. process_slots sample_root_env config_minimal sample_preset s 71 = Ok s' \<and> sample_ready 71 n s'
    \<and> hdr_slot (latest_block_header s') = hdr_slot (latest_block_header s)"
proof -
  have "SlotsPerHistoricalRoot sample_preset = 64" by (simp add: SlotsPerHistoricalRoot_def)
  moreover have "is_epoch_start sample_preset 71 = Ok False"
    by (simp add: is_epoch_start_def slots_since_epoch_start_def compute_start_slot_at_epoch_def
        compute_epoch_at_slot_def saturating_mul_def expect_ok_def arith_defs ok_or_def u64_bound_def)
  ultimately show ?thesis
    using assms
    by (simp add: process_slots_def process_slots_loop.simps slot_iteration_def process_slot_def sample_ready_def
        mod_index_mut_def list_modify_def validate_index_def arith_defs ok_or_def u64_bound_def Let_def del: One_nat_def)
qed

lemma sample_transition:
  assumes "sample_ready k n s" "64 \<le> k" "k < 72" "n < 30" "hdr_slot (latest_block_header s) < k"
  shows "\<exists>s'. state_transition sample_root_env config_minimal sample_preset s (sample_signed k) IfNeeded Verify None
      NullVerifier = Ok s' \<and> sample_ready k (Suc n) s' \<and> hdr_slot (latest_block_header s') = k"
proof -
  have "slot s = k" using assms(1) by (simp add: sample_ready_def)
  then show ?thesis
    using sample_block_processed [OF assms]
    by (auto simp: state_transition_def should_process_def process_and_check_def verify_state_root_def sample_root_env_def
        sample_block_def header_of_def ensure_def)
qed

lemma sample_state_ready: "sample_ready 70 0 (sample_state 1)" "hdr_slot (latest_block_header (sample_state 1)) = 69"
  by (simp_all add: sample_ready_def sample_state_def)

lemma sample_two_blocks:
  "\<exists>s1 s2. state_transition sample_root_env config_minimal sample_preset (sample_state 1) (sample_signed 70)
       IfNeeded Verify None NullVerifier = Ok s1
     \<and> state_transition sample_root_env config_minimal sample_preset s1 (sample_signed 71)
       IfNeeded Verify None NullVerifier = Ok s2"
proof -
  obtain s1 where s1: "state_transition sample_root_env config_minimal sample_preset (sample_state 1) (sample_signed 70)
      IfNeeded Verify None NullVerifier = Ok s1" "sample_ready 70 1 s1" "hdr_slot (latest_block_header s1) = 70"
    using sample_transition [OF sample_state_ready(1)] sample_state_ready(2) by auto
  obtain t where t: "process_slots sample_root_env config_minimal sample_preset s1 71 = Ok t" "sample_ready 71 1 t"
    "hdr_slot (latest_block_header t) = 70"
    using sample_slots [OF s1(2)] s1(3) by auto
  obtain s2 where s2: "state_transition sample_root_env config_minimal sample_preset t (sample_signed 71)
      IfNeeded Verify None NullVerifier = Ok s2"
    using sample_transition [OF t(2)] t(3) by auto
  have "slot t = 71" "slot s1 = 70" using t(2) s1(2) by (simp_all add: sample_ready_def)
  then have "state_transition sample_root_env config_minimal sample_preset s1 (sample_signed 71)
      IfNeeded Verify None NullVerifier = Ok s2"
    using s2 t(1) by (simp add: state_transition_def should_process_def sample_block_def Let_def)
  then show ?thesis using s1(1) by blast
qed

lemma sample_previous_root:
  assumes "sample_ready k n s" "64 \<le> k" "k < 72"
  shows "\<exists>root. get_block_root_at_slot sample_preset s (previous_slot (slot s)) = Ok root"
proof -
  have "SlotsPerHistoricalRoot sample_preset = 64"
    by (simp add: SlotsPerHistoricalRoot_def sample_preset_def MinimalPreset_def MainnetPreset_def)
  then show ?thesis
    using assms
    by (simp add: get_block_root_at_slot_def previous_slot_def ensure_def sample_ready_def arith_defs ok_or_def
        u64_bound_def mod_index_def list_get_def validate_index_def saturating_sub_def GENESIS_SLOT_def)
qed

lemma sample_signatures:
  assumes "sample_ready k n s" "64 \<le> k" "k < 72"
  shows "verify_signatures sample_root_env config_minimal sample_preset s (sample_signed k) SingleVerifier = Ok ()"
proof -
  have env: "ev_decompress sample_root_env = Ok" "ev_signature sample_root_env = (\<lambda>_. Ok ())"
    "ev_verify sample_root_env = (\<lambda>_ _ _. True)"
    by (simp_all add: sample_root_env_def sample_env_def)
  have "count_required_signatures (sample_block k) = Ok 2"
    by (simp add: count_required_signatures_def altair_count_required_signatures_def
        phase0_count_required_signatures_def sample_block_def sample_body_def arith_defs ok_or_def u64_bound_def)
  moreover obtain root where "get_block_root_at_slot sample_preset s (previous_slot (slot s)) = Ok root"
    using sample_previous_root [OF assms] by blast
  moreover have "sc_pubkeys (current_sync_committee s) = []" using assms(1) by (simp add: sample_ready_def)
  ultimately show ?thesis
    using sample_ready_registry(3) [OF assms(1)]
    by (simp add: verify_signatures_def sample_block_def sample_body_def env Let_def ensure_def
      validator_key_def public_key_def expect_ok_def initialize_shuffled_indices_def verifier_extend_def arith_defs ok_or_def u64_bound_def
      verify_sync_aggregate_signature_def verify_aggregate_allowing_empty_def)
qed

lemma sample_signed_transition:
  "\<exists>s'. state_transition sample_root_env config_minimal sample_preset (sample_state 1) (sample_signed 70)
     IfNeeded Verify None SingleVerifier = Ok s'"
proof -
  have "slot (sample_state 1) = 70" by (simp add: sample_state_def)
  moreover obtain s' where "process_and_check sample_root_env config_minimal sample_preset (sample_state 1)
      (sample_block 70) Verify None = Ok s'"
    using sample_transition [OF sample_state_ready(1)] sample_state_ready(2) calculation
    by (auto simp: state_transition_def should_process_def sample_block_def)
  ultimately show ?thesis
    using sample_signatures [OF sample_state_ready(1)]
    by (simp add: state_transition_def should_process_def sample_block_def)
qed

theorem accepted_block_extends_state_witness:
  "\<exists>s'. state_transition sample_root_env config_minimal sample_preset (sample_state 1) (sample_signed 70)
       IfNeeded Verify None SingleVerifier = Ok s'
     \<and> slot s' = 70 \<and> ev_htr_state sample_root_env s' = replicate 32 1
     \<and> verify_signatures sample_root_env config_minimal sample_preset (sample_state 1) (sample_signed 70) SingleVerifier = Ok ()"
proof -
  obtain s' where s': "state_transition sample_root_env config_minimal sample_preset (sample_state 1) (sample_signed 70)
      IfNeeded Verify None SingleVerifier = Ok s'"
    using sample_signed_transition by blast
  have "\<not> should_process IfNeeded (sample_state 1) (sample_block 70)"
    by (simp add: should_process_def sample_block_def sample_state_def)
  then show ?thesis
    using s' accepted_block_extends_state [OF s'] by (auto simp: sample_block_def)
qed

theorem blocks_linked_witness:
  "\<exists>s1 s2. state_transition sample_root_env config_minimal sample_preset (sample_state 1) (sample_signed 70)
       IfNeeded Verify None NullVerifier = Ok s1
     \<and> state_transition sample_root_env config_minimal sample_preset s1 (sample_signed 71)
       IfNeeded Verify None NullVerifier = Ok s2
     \<and> blk_parent_root (sample_block 71) = ev_htr_header sample_root_env
         ((header_of sample_root_env (sample_block 70))\<lparr> hdr_state_root := replicate 32 1 \<rparr>)"
proof -
  obtain s1 s2 where
    s: "state_transition sample_root_env config_minimal sample_preset (sample_state 1) (sample_signed 70)
        IfNeeded Verify None NullVerifier = Ok s1"
      "state_transition sample_root_env config_minimal sample_preset s1 (sample_signed 71)
        IfNeeded Verify None NullVerifier = Ok s2"
    using sample_two_blocks by blast
  have root: "blk_state_root (sblk_message (sample_signed 70)) = replicate 32 1"
    by (simp add: sample_block_def)
  then have "blk_state_root (sblk_message (sample_signed 70)) \<noteq> h256_zero" by simp
  from blocks_linked [OF s this] show ?thesis using s root by auto
qed

theorem chain_safe_witness:
  "\<exists>s'. chain sample_root_env config_minimal sample_preset None NullVerifier (sample_state 1)
       [sample_signed 70, sample_signed 71] s'
     \<and> state_wf sample_preset s' \<and> ffg_ordered sample_preset s'"
proof -
  obtain s' where c: "chain sample_root_env config_minimal sample_preset None NullVerifier (sample_state 1)
      [sample_signed 70, sample_signed 71] s'"
    using sample_two_blocks by (blast intro: chain_block chain_empty)
  have "ffg_ordered sample_preset (sample_state 1)"
    by (simp add: ffg_ordered_def sample_state_def sample_checkpoint_def)
  from chain_safe [OF c sample_preset.preset_laws_axioms sample_state_wf_preset this] c show ?thesis by blast
qed

end
