(* ===== verification/Merkle_Proofs.thy ===== *)
theory Merkle_Proofs
  imports Merkle
begin

unbundle bit_operations_syntax

text \<open>
  Merkle proofs and progressive trees (\<open>ssz/src/merkle_tree.rs\<close>): \<open>extend_and_construct_proofs\<close> adds
  a range of chunks to a \<open>MerkleTree\<close> at once and returns proofs for some of them, with the length of
  the list as the last node of each proof.  The proofs lead from the chunk to the root of the whole
  list, and the stored siblings are those after pushing the chunks one by one.
\<close>

subsection \<open>\<open>extend_and_construct_proofs\<close>\<close>

definition indices_at_height :: "nat \<Rightarrow> nat \<Rightarrow> nat \<Rightarrow> nat \<times> nat" where
  "indices_at_height start stop height =
     (start div 2 ^ height div 2 * 2, (stop - 1) div 2 ^ height)"

fun hash_pairs :: "compress256 \<Rightarrow> h256 list \<Rightarrow> h256 list" where
  "hash_pairs compress (left # right # rest) = hash_256_256 compress left right # hash_pairs compress rest"
| "hash_pairs compress _ = []"

definition nodes_step ::
  "compress256 \<Rightarrow> bit_reader \<Rightarrow> h256 list \<Rightarrow> h256 list \<Rightarrow> nat \<Rightarrow> nat \<Rightarrow> nat \<Rightarrow> h256 list list \<Rightarrow> h256 list list res" where
  "nodes_step compress gb sibling_hashes chunks start stop height nodes =
     (let (min_index, max_index) = indices_at_height start stop height;
          node_count = saturating_add (max_index - min_index) 1 in
      and_then (if gb start height then map_ok (\<lambda>s. [s]) (nth_rs sibling_hashes height) else Ok []) (\<lambda>kept.
      and_then
        (if height = 0 then Ok (kept @ chunks)
         else
           let right_subtree_empty = \<not> gb (stop - 1) (height - 1) in
           and_then (zero_hash_at (height - 1)) (\<lambda>zero.
           and_then (nth_rs nodes (height - 1)) (\<lambda>lower.
           Ok (kept @ hash_pairs compress (lower @ (if right_subtree_empty then [zero] else [])))))) (\<lambda>nodes_at_height.
      and_then (assert_rs (length nodes_at_height = node_count)) (\<lambda>_.
      Ok (nodes[height := nodes_at_height])))))"

definition leading_ones :: "nat \<Rightarrow> nat" where
  "leading_ones n = length (takeWhile (\<lambda>i. odd (n div 2 ^ i)) (rev [0..<64]))"

definition siblings_to_update :: "nat \<Rightarrow> nat \<Rightarrow> nat" where
  "siblings_to_update start stop =
     (let filled_left_subtree = (if leading_ones start < 64 then drop_bit (leading_ones start) u64_max else 0)
      in stop AND filled_left_subtree)"

definition update_sibling ::
  "bit_reader \<Rightarrow> h256 list list \<Rightarrow> nat \<Rightarrow> nat \<Rightarrow> nat \<Rightarrow> h256 list \<Rightarrow> h256 list res" where
  "update_sibling gb nodes start stop height sibling_hashes =
     (if gb (siblings_to_update start stop) height then
        let (min_index, max_index) = indices_at_height start stop height;
            last_new_sibling_at_height = max_index div 2 * 2 in
        and_then (nth_rs nodes height) (\<lambda>ns.
        and_then (nth_rs ns (last_new_sibling_at_height - min_index)) (\<lambda>hash.
        and_then (assert_rs (height < length sibling_hashes)) (\<lambda>_.
        Ok (sibling_hashes[height := hash]))))
      else Ok sibling_hashes)"

definition proof_node ::
  "h256 list list \<Rightarrow> nat \<Rightarrow> nat \<Rightarrow> nat \<Rightarrow> nat \<Rightarrow> h256 res" where
  "proof_node nodes start stop proof_index height =
     (let (min_index, max_index) = indices_at_height start stop height;
          proven_node_index = proof_index div 2 ^ height in
      and_then (assert_rs (min_index \<le> proven_node_index)) (\<lambda>_.
      and_then (assert_rs (proven_node_index \<le> max_index)) (\<lambda>_.
      let proof_node_index = proven_node_index XOR 1 in
      and_then (nth_rs nodes height) (\<lambda>ns.
      and_then (zero_hash_at height) (\<lambda>zero.
      Ok (if proof_node_index - min_index < length ns then ns ! (proof_node_index - min_index) else zero))))))"

definition extend_and_construct_proofs ::
  "compress256 \<Rightarrow> bit_reader \<Rightarrow> nat \<Rightarrow> h256 list \<Rightarrow> h256 list \<Rightarrow> nat \<times> nat \<Rightarrow> nat \<times> nat
    \<Rightarrow> (h256 list \<times> h256 list list) res" where
  "extend_and_construct_proofs compress gb D sibling_hashes chunks chunk_indices proof_indices =
     (let (start, stop) = chunk_indices; (proof_start, proof_stop) = proof_indices in
      and_then (assert_rs (start \<le> proof_start)) (\<lambda>_.
      and_then (assert_rs (proof_start < proof_stop)) (\<lambda>_.
      and_then (assert_rs (proof_stop \<le> stop)) (\<lambda>_.
      and_then (assert_rs (D < 64 \<and> stop \<le> 2 ^ D)) (\<lambda>_.
      and_then (assert_rs (length chunks = stop - start)) (\<lambda>_.
      and_then (ilog2 stop) (\<lambda>log.
      let cutoff_height = min (log + 1) D in
      and_then (try_fold (nodes_step compress gb sibling_hashes chunks start stop) [0..<cutoff_height]
        (replicate D [])) (\<lambda>nodes.
      and_then (try_fold (update_sibling gb nodes start stop) [0..<D] sibling_hashes) (\<lambda>sibling_hashes.
      and_then (try_map (\<lambda>proof_index.
          map_ok (\<lambda>proof. proof @ [hash_of_length stop])
            (try_map (proof_node nodes start stop proof_index) [0..<D])) [proof_start..<proof_stop]) (\<lambda>proofs.
      Ok (sibling_hashes, proofs)))))))))))"

subsection \<open>Nodes of the tree\<close>

definition node :: "compress256 \<Rightarrow> h256 list \<Rightarrow> nat \<Rightarrow> nat \<Rightarrow> h256" where
  "node compress zs h i = merkle_root compress h (take (2 ^ h) (drop (i * 2 ^ h) zs))"

lemma node_0: "i < length zs \<Longrightarrow> node compress zs 0 i = zs ! i"
  by (simp add: node_def take_Suc_conv_app_nth split: list.split)

lemma node_Suc: "node compress zs (Suc h) i = hash_256_256 compress (node compress zs h (2 * i)) (node compress zs h (2 * i + 1))"
proof -
  have a: "take (2 ^ h) (take (2 ^ Suc h) (drop (i * 2 ^ Suc h) zs)) = take (2 ^ h) (drop (2 * i * 2 ^ h) zs)"
    by (simp add: ac_simps)
  have b: "drop (2 ^ h) (take (2 ^ Suc h) (drop (i * 2 ^ Suc h) zs)) = take (2 ^ h) (drop ((2 * i + 1) * 2 ^ h) zs)"
    by (simp add: drop_take algebra_simps)
  show ?thesis
    by (simp only: node_def merkle_root.simps a b)
qed

lemma node_zero:
  assumes "zero_hash_chain compress" "h \<le> 40" "length zs \<le> i * 2 ^ h"
  shows "node compress zs h i = ZERO_HASHES ! h"
  using assms by (simp add: node_def merkle_root_Nil)

lemma node_root: "length zs \<le> 2 ^ h \<Longrightarrow> node compress zs h 0 = merkle_root compress h zs"
  by (simp add: node_def)

lemma hash_pairs_nodes:
  "hash_pairs compress (map (node compress zs h) [2 * a..<2 * b]) = map (node compress zs (Suc h)) [a..<b]"
proof (induction "b - a" arbitrary: a)
  case (Suc n)
  then have ab: "a < b" by simp
  then have "[2 * a..<2 * b] = 2 * a # Suc (2 * a) # [2 * Suc a..<2 * b]"
    by (simp add: upt_conv_Cons)
  moreover have "[a..<b] = a # [Suc a..<b]" using ab by (simp add: upt_conv_Cons)
  ultimately show ?case using Suc(1) [of "Suc a"] Suc(2) by (simp add: node_Suc)
qed simp

lemma sib_ok_node:
  "sib_ok compress D sib xs \<longleftrightarrow> length sib = D \<and>
     (\<forall>h < D. odd (length xs div 2 ^ h) \<longrightarrow> sib ! h = node compress xs h (length xs div 2 ^ h - 1))"
proof -
  have "length xs div 2 ^ Suc h * 2 ^ Suc h = (length xs div 2 ^ h - 1) * 2 ^ h" if "odd (length xs div 2 ^ h)" for h
  proof -
    have "length xs div 2 ^ Suc h = length xs div 2 ^ h div 2" by (metis div_mult2_eq power_Suc2)
    then have "length xs div 2 ^ Suc h * 2 = length xs div 2 ^ h - 1"
      using that by (simp only:) (auto elim: oddE)
    then show ?thesis by (metis mult.assoc power_Suc)
  qed
  then show ?thesis by (auto simp: sib_ok_def node_def simp del: power_Suc)
qed

text \<open>A subtree that lies in the first part of a list.\<close>

lemma node_append:
  assumes "(i + 1) * 2 ^ h \<le> length xs"
  shows "node compress (xs @ ys) h i = node compress xs h i"
proof -
  have "i * 2 ^ h + 2 ^ h \<le> length xs" using assms by (simp add: algebra_simps)
  then show ?thesis by (simp add: node_def)
qed

subsection \<open>The levels that are computed\<close>

definition level :: "compress256 \<Rightarrow> h256 list \<Rightarrow> nat \<Rightarrow> nat \<Rightarrow> h256 list" where
  "level compress zs start h =
     map (node compress zs h) [start div 2 ^ h div 2 * 2..<Suc ((length zs - 1) div 2 ^ h)]"

lemma div_power_Suc: "n div 2 ^ Suc h = n div 2 ^ h div 2" for n :: nat
  by (metis div_mult2_eq power_Suc2)

lemma kept_node:
  assumes "reads_bits gb" "h < 64" "sib_ok compress D sib xs" "h < D"
  shows "(if gb (length xs) h then map_ok (\<lambda>s. [s]) (nth_rs sib h) else Ok []) =
    (Ok (map (node compress (xs @ ys) h) [length xs div 2 ^ h div 2 * 2..<length xs div 2 ^ h]) :: h256 list res)"
proof (cases "odd (length xs div 2 ^ h)")
  case True
  define n where "n = length xs div 2 ^ h"
  have odd: "odd n" using True by (simp add: n_def)
  then have "n div 2 * 2 = n - 1" "0 < n" by (auto elim: oddE)
  then have "[n div 2 * 2..<n] = [n - 1]" by (simp add: upt_rec)
  moreover have "node compress (xs @ ys) h (n - 1) = node compress xs h (n - 1)"
    using \<open>0 < n\<close> by (intro node_append) (simp add: n_def)
  moreover have "sib ! h = node compress xs h (n - 1)" "h < length sib"
    using assms(3,4) odd by (auto simp: sib_ok_node n_def)
  ultimately show ?thesis
    using assms(1,2) odd by (simp add: reads_bits_def n_def)
next
  case False
  then show ?thesis using assms(1,2) by (simp add: reads_bits_def)
qed

lemma last_index_bounds:
  assumes "start < n"
  shows "start div 2 ^ h \<le> (n - 1) div 2 ^ h" "n \<le> Suc ((n - 1) div 2 ^ h) * 2 ^ h"
proof -
  show "start div 2 ^ h \<le> (n - 1) div 2 ^ h" using assms by (intro div_le_mono) simp
  have "n - 1 < 2 ^ h + (n - 1) div 2 ^ h * 2 ^ h" by (rule dividend_less_div_times) simp
  then show "n \<le> Suc ((n - 1) div 2 ^ h) * 2 ^ h" by simp
qed

lemma lower_padded:
  assumes "zero_hash_chain compress" "h \<le> 40" "start < length zs"
  defines "m \<equiv> (length zs - 1) div 2 ^ h"
  shows "level compress zs start h @ (if even m then [ZERO_HASHES ! h] else []) =
    map (node compress zs h) [2 * (start div 2 ^ Suc h)..<2 * Suc (m div 2)]"
proof (cases "even m")
  case True
  note b = last_index_bounds [OF assms(3), of h, folded m_def]
  have zero: "ZERO_HASHES ! h = node compress zs h (Suc m)"
    using node_zero [OF assms(1,2) b(2)] by simp
  have "2 * (start div 2 ^ Suc h) \<le> Suc m" using b(1) by (simp add: div_power_Suc del: power_Suc)
  then have "[2 * (start div 2 ^ Suc h)..<2 * Suc (m div 2)] = [2 * (start div 2 ^ Suc h)..<Suc m] @ [Suc m]"
    using True by (simp del: power_Suc)
  then show ?thesis using True zero by (simp add: level_def div_power_Suc m_def mult.commute del: upt_Suc power_Suc)
next
  case False
  then have "2 * Suc (m div 2) = Suc m" by presburger
  then show ?thesis using False by (simp add: level_def div_power_Suc m_def mult.commute del: upt_Suc power_Suc)
qed

lemma nodes_step_level:
  assumes "zero_hash_chain compress" "reads_bits gb" "sib_ok compress D sib xs" "D \<le> 40" "ys \<noteq> []"
    and "length (xs @ ys) \<le> 2 ^ D" "h < D" "length nodes = D"
    and "0 < h \<Longrightarrow> nodes ! (h - 1) = level compress (xs @ ys) (length xs) (h - 1)"
  shows "nodes_step compress gb sib ys (length xs) (length (xs @ ys)) h nodes =
    Ok (nodes[h := level compress (xs @ ys) (length xs) h])"
proof -
  let ?zs = "xs @ ys" and ?lo = "length xs div 2 ^ h"
  define m where "m = (length ?zs - 1) div 2 ^ h"
  have start: "length xs < length ?zs" using assms(5) by simp
  have lo: "?lo div 2 * 2 \<le> ?lo" "?lo \<le> m" using last_index_bounds(1) [OF start, of h] by (simp_all add: m_def)
  have kept: "(if gb (length xs) h then map_ok (\<lambda>s. [s]) (nth_rs sib h) else Ok []) =
      (Ok (map (node compress ?zs h) [?lo div 2 * 2..<?lo]) :: h256 list res)"
    using kept_node [OF assms(2) _ assms(3,7)] assms(4,7) by simp
  have upper: "map (node compress ?zs h) [?lo div 2 * 2..<?lo] @ map (node compress ?zs h) [?lo..<Suc m] =
      level compress ?zs (length xs) h"
    using lo upt_add_eq_append [of "?lo div 2 * 2" ?lo "Suc m - ?lo"]
    by (simp add: level_def m_def del: upt_Suc flip: map_append)
  have "(2::nat) ^ D \<le> 2 ^ 40" using assms(4) by (rule power_increasing) simp
  moreover have "m \<le> length ?zs - 1" by (simp add: m_def)
  ultimately have "m + 1 < u64_bound" using assms(6) start by (simp add: u64_bound_def)
  then have count: "saturating_add (m - ?lo div 2 * 2) 1 = Suc m - ?lo div 2 * 2"
    using lo by (simp add: saturating_add_exact)
  have len: "length (level compress ?zs (length xs) h) = Suc m - ?lo div 2 * 2"
    by (simp only: level_def length_map length_upt m_def)
  have "(if h = 0 then Ok (map (node compress ?zs h) [?lo div 2 * 2..<?lo] @ ys)
      else and_then (zero_hash_at (h - 1)) (\<lambda>zero. and_then (nth_rs nodes (h - 1)) (\<lambda>lower.
        Ok (map (node compress ?zs h) [?lo div 2 * 2..<?lo]
          @ hash_pairs compress (lower @ (if \<not> gb (length ?zs - 1) (h - 1) then [zero] else []))))))
    = (Ok (level compress ?zs (length xs) h) :: h256 list res)"
  proof (cases h)
    case 0
    have "map (node compress ?zs 0) [length xs..<length ?zs] = ys"
      by (rule nth_equalityI) (simp_all add: node_0)
    then show ?thesis using upper start 0 by (simp add: m_def del: upt_Suc)
  next
    case (Suc g)
    have g: "g \<le> 40" "g < 64" "g < length nodes" using Suc assms(4,7,8) by simp_all
    have bit: "gb (length ?zs - 1) g = odd ((length ?zs - 1) div 2 ^ g)" using assms(2) g by (simp add: reads_bits_def)
    have "m = (length ?zs - 1) div 2 ^ g div 2" using Suc by (simp add: m_def div_power_Suc del: power_Suc)
    then have "hash_pairs compress (level compress ?zs (length xs) g @
        (if even ((length ?zs - 1) div 2 ^ g) then [ZERO_HASHES ! g] else [])) = map (node compress ?zs h) [?lo..<Suc m]"
      using lower_padded [OF assms(1) g(1) start] hash_pairs_nodes [of compress ?zs g ?lo "Suc m"] Suc by (simp del: power_Suc upt_Suc)
    moreover have "nth_rs nodes g = (Ok (level compress ?zs (length xs) g) :: h256 list res)"
      using assms(9) g(3) Suc by simp
    moreover have "zero_hash_at g = Ok (ZERO_HASHES ! g)" using g by (simp add: zero_hash_at_def)
    moreover have "h - 1 = g" "h \<noteq> 0" using Suc by simp_all
    ultimately show ?thesis
      by (simp only: if_False and_then.simps upper bit not_not)
  qed
  then show ?thesis
    unfolding nodes_step_def indices_at_height_def Let_def case_prod_conv kept and_then.simps
    using count len by (simp only: and_then.simps m_def) (simp add: assert_rs_def)
qed

lemma nodes_built:
  assumes "zero_hash_chain compress" "reads_bits gb" "sib_ok compress D sib xs" "D \<le> 40" "ys \<noteq> []"
    and "length (xs @ ys) \<le> 2 ^ D" "H \<le> D"
  shows "try_fold (nodes_step compress gb sib ys (length xs) (length (xs @ ys))) [0..<H] (replicate D []) =
    Ok (map (\<lambda>h. if h < H then level compress (xs @ ys) (length xs) h else []) [0..<D])"
  using assms(7)
proof (induction H)
  case 0
  then show ?case by (simp add: map_replicate_const)
next
  case (Suc H)
  let ?nodes = "\<lambda>H. map (\<lambda>h. if h < H then level compress (xs @ ys) (length xs) h else []) [0..<D]"
  have "nodes_step compress gb sib ys (length xs) (length (xs @ ys)) H (?nodes H) =
      Ok ((?nodes H)[H := level compress (xs @ ys) (length xs) H])"
    using nodes_step_level [OF assms(1-6), of H "?nodes H"] Suc.prems by simp
  moreover have "(?nodes H)[H := level compress (xs @ ys) (length xs) H] = ?nodes (Suc H)"
    by (rule nth_equalityI) (auto simp: nth_list_update less_Suc_eq)
  ultimately show ?case using Suc by (simp add: try_fold_append)
qed

subsection \<open>Siblings and proofs\<close>

lemma level_nth:
  assumes "start div 2 ^ h div 2 * 2 \<le> i" "i \<le> (length zs - 1) div 2 ^ h"
  shows "i - start div 2 ^ h div 2 * 2 < length (level compress zs start h)"
    "level compress zs start h ! (i - start div 2 ^ h div 2 * 2) = node compress zs h i"
  using assms by (simp_all add: level_def del: upt_Suc)

lemma siblings_to_update_eq:
  assumes "start < 2 ^ 63" "stop < u64_bound"
  shows "siblings_to_update start stop = stop"
proof -
  have "leading_ones start = 0" using assms(1) by (simp add: leading_ones_def upt_rec)
  moreover have "take_bit 64 stop = stop" using assms(2) by (simp add: take_bit_nat_eq_self u64_bound_def)
  then have "stop AND (2 ^ 64 - 1) = stop" by (simp only: take_bit_eq_mask mask_eq_exp_minus_1)
  then have "stop AND u64_max = stop" by (simp add: u64_bound_def)
  ultimately show ?thesis by (simp only: siblings_to_update_def) simp
qed

lemma last_even_index:
  assumes "odd (n div 2 ^ h)"
  shows "(n - 1) div 2 ^ h div 2 * 2 = n div 2 ^ h - (1::nat)"
proof -
  define q where "q = n div 2 ^ h"
  define r where "r = (n - 1) div 2 ^ h"
  have "q * 2 ^ h \<le> n" by (simp add: q_def)
  moreover have "(q - 1) * 2 ^ h = q * 2 ^ h - 2 ^ h" by (simp add: diff_mult_distrib)
  moreover have "(1::nat) \<le> 2 ^ h" by simp
  ultimately have "(q - 1) * 2 ^ h \<le> n - 1" by linarith
  then have "q - 1 \<le> r" by (simp add: r_def less_eq_div_iff_mult_less_eq)
  moreover have "r \<le> q" unfolding q_def r_def by (rule div_le_mono) simp
  moreover have "odd q" using assms by (simp add: q_def)
  ultimately have "r div 2 * 2 = q - 1" by presburger
  then show ?thesis by (simp only: q_def r_def)
qed

lemma update_siblings_ok:
  assumes gb: "reads_bits gb" and sib: "sib_ok compress D sib xs" and D: "D \<le> 40" and ys: "ys \<noteq> []"
    and fits: "length (xs @ ys) \<le> 2 ^ D" and H: "\<And>h. h < D \<Longrightarrow> odd (length (xs @ ys) div 2 ^ h) \<Longrightarrow> h < H"
  defines "nodes \<equiv> map (\<lambda>h. if h < H then level compress (xs @ ys) (length xs) h else []) [0..<D]"
  shows "\<exists>sib'. try_fold (update_sibling gb nodes (length xs) (length (xs @ ys))) [0..<D] sib = Ok sib'
    \<and> sib_ok compress D sib' (xs @ ys)"
proof -
  let ?zs = "xs @ ys" and ?n = "length (xs @ ys)"
  define new where "new h = (if odd (?n div 2 ^ h) then node compress ?zs h (?n div 2 ^ h - 1) else sib ! h)" for h
  have len: "length sib = D" using sib by (simp add: sib_ok_def)
  have "(2::nat) ^ D \<le> 2 ^ 40" using D by (rule power_increasing) simp
  then have bound: "length xs < 2 ^ 63" "?n < u64_bound" using fits by (simp_all add: u64_bound_def)
  have upd: "siblings_to_update (length xs) (length xs + length ys) = length xs + length ys"
    using siblings_to_update_eq [OF bound] by simp
  have step: "update_sibling gb nodes (length xs) ?n h s = Ok (s[h := new h])"
    if "h < D" "length s = D" "s ! h = sib ! h" for h s
  proof (cases "odd (?n div 2 ^ h)")
    case True
    define i where "i = ?n div 2 ^ h - 1"
    have last: "(?n - 1) div 2 ^ h div 2 * 2 = i" unfolding i_def by (rule last_even_index [OF True])
    have "length xs div 2 ^ h \<le> (?n - 1) div 2 ^ h" using last_index_bounds(1) [of "length xs" ?n h] ys by simp
    then have "length xs div 2 ^ h div 2 * 2 \<le> i"
      unfolding last [symmetric] by (intro mult_le_mono1) (rule div_le_mono)
    moreover note last
    moreover have "i \<le> (?n - 1) div 2 ^ h" using calculation by linarith
    moreover have "nodes ! h = level compress ?zs (length xs) h" using H [OF that(1) True] that(1) by (simp add: nodes_def)
    ultimately show ?thesis
      using that True gb D level_nth [of "length xs" h i ?zs compress]
      by (simp add: update_sibling_def upd reads_bits_def indices_at_height_def nodes_def new_def i_def Let_def assert_rs_def)
  next
    case False
    then show ?thesis
      using that(1) gb D by (simp add: update_sibling_def upd reads_bits_def new_def flip: that(3))
  qed
  have "try_fold (update_sibling gb nodes (length xs) ?n) [0..<H'] sib = Ok (map new [0..<H'] @ drop H' sib)"
    if "H' \<le> D" for H'
    using that
  proof (induction H')
    case (Suc H')
    then have "drop H' sib = sib ! H' # drop (Suc H') sib" using len by (simp add: Cons_nth_drop_Suc)
    then show ?case using Suc step [of H' "map new [0..<H'] @ drop H' sib"] len
      by (simp add: try_fold_append list_update_append nth_append)
  qed simp
  then have "try_fold (update_sibling gb nodes (length xs) ?n) [0..<D] sib = Ok (map new [0..<D])" using len by simp
  moreover have "sib_ok compress D (map new [0..<D]) ?zs" by (simp add: sib_ok_node new_def)
  ultimately show ?thesis by blast
qed

lemma xor_sibling: "n XOR Suc 0 = (if even n then Suc n else n - 1)"
  using xor_one_eq [of n] by (simp split: if_splits)

lemma proof_node_ok:
  assumes chain: "zero_hash_chain compress" and D: "D \<le> 40" and h: "h < D"
    and p: "length xs \<le> p" "p < length (xs @ ys)" and H: "h < H \<or> length (xs @ ys) \<le> 2 ^ h"
  defines "nodes \<equiv> map (\<lambda>h. if h < H then level compress (xs @ ys) (length xs) h else []) [0..<D]"
  shows "proof_node nodes (length xs) (length (xs @ ys)) p h = Ok (node compress (xs @ ys) h (p div 2 ^ h XOR 1))"
proof -
  let ?zs = "xs @ ys"
  define s where "s = p div 2 ^ h"
  define lo where "lo = length xs div 2 ^ h div 2 * 2"
  define m where "m = (length ?zs - 1) div 2 ^ h"
  have "length xs div 2 ^ h \<le> s" unfolding s_def using p(1) by (rule div_le_mono)
  then have lo: "lo \<le> s" "even lo" by (simp_all add: lo_def)
  have up: "s \<le> m" unfolding s_def m_def using last_index_bounds(1) [OF p(2)] .
  have xor: "s XOR 1 = (if even s then s + 1 else s - 1)" by (simp add: xor_sibling)
  have zero: "zero_hash_at h = Ok (ZERO_HASHES ! h)" "h \<le> 40" using D h by (simp_all add: zero_hash_at_def)
  have ge: "lo \<le> s XOR 1" unfolding xor using lo by presburger
  have "(if (s XOR 1) - lo < length (nodes ! h) then nodes ! h ! ((s XOR 1) - lo) else ZERO_HASHES ! h) = node compress ?zs h (s XOR 1)"
  proof (cases "h < H \<and> s XOR 1 \<le> m")
    case True
    then show ?thesis using level_nth [of "length xs" h "s XOR 1" ?zs compress] ge h by (simp add: nodes_def lo_def m_def)
  next
    case False
    have "length ?zs \<le> (s XOR 1) * 2 ^ h \<and> \<not> (s XOR 1) - lo < length (nodes ! h)"
    proof (cases "h < H")
      case True
      then have "Suc m \<le> s XOR 1" using False by simp
      then have "Suc m * 2 ^ h \<le> (s XOR 1) * 2 ^ h" by (rule mult_le_mono1)
      moreover have "length (nodes ! h) = Suc m - lo"
        using True h by (simp add: nodes_def) (simp only: level_def length_map length_upt m_def lo_def)
      ultimately show ?thesis using last_index_bounds(2) [OF p(2), of h] \<open>Suc m \<le> s XOR 1\<close> by (simp add: m_def)
    next
      case False
      then have "length ?zs \<le> 2 ^ h" using H by simp
      then show ?thesis using False h p(2) by (simp add: s_def xor_sibling nodes_def)
    qed
    then show ?thesis using node_zero [OF chain zero(2)] by simp
  qed
  moreover have "h < length nodes" using h by (simp add: nodes_def)
  ultimately show ?thesis
    using lo(1) up zero(1)
    unfolding proof_node_def indices_at_height_def case_prod_conv Let_def s_def [symmetric] lo_def [symmetric] m_def [symmetric]
    by (simp add: assert_rs_def)
qed

lemma branch_nodes:
  assumes "reads_bits gb" "p < length zs" "n \<le> 64"
  shows "fold (\<lambda>(height, nd) hash. if gb p height then hash_256_256 compress nd hash else hash_256_256 compress hash nd)
      (enumerate 0 (map (\<lambda>h. node compress zs h (p div 2 ^ h XOR 1)) [0..<n])) (zs ! p) = node compress zs n (p div 2 ^ n)"
  using assms(3)
proof (induction n)
  case 0
  then show ?case using assms(2) by (simp add: node_0)
next
  case (Suc n)
  define s where "s = p div 2 ^ n"
  have "node compress zs (Suc n) (s div 2) =
      (if odd s then hash_256_256 compress (node compress zs n (s XOR 1)) (node compress zs n s)
       else hash_256_256 compress (node compress zs n s) (node compress zs n (s XOR 1)))"
    by (auto simp: node_Suc xor_sibling elim!: evenE oddE)
  then show ?case
    using Suc assms(1) by (simp add: enumerate_append_eq reads_bits_def div_power_Suc flip: s_def del: power_Suc)
qed

lemma try_map_Ok: "(\<And>x. x \<in> set xs \<Longrightarrow> f x = Ok (g x)) \<Longrightarrow> try_map f xs = Ok (map g xs)"
  by (induction xs) simp_all

text \<open>The value a proof leads to, as \<open>is_valid_merkle_branch\<close> computes it.\<close>

definition branch_root :: "compress256 \<Rightarrow> bit_reader \<Rightarrow> h256 \<Rightarrow> h256 list \<Rightarrow> nat \<Rightarrow> h256" where
  "branch_root compress gb leaf branch index =
     fold (\<lambda>(height, node) hash.
        if gb index height then hash_256_256 compress node hash
        else hash_256_256 compress hash node) (enumerate 0 branch) leaf"

lemma proof_branch:
  assumes gb: "reads_bits gb" and D: "D < 64" and fits: "length zs \<le> 2 ^ D" and p: "p < length zs"
  shows "branch_root compress gb (zs ! p)
      (map (\<lambda>h. node compress zs h (p div 2 ^ h XOR 1)) [0..<D] @ [hash_of_length (length zs)]) p =
    mix_in_length compress (merkle_root compress D zs) (length zs)"
proof -
  have "p < 2 ^ D" using p fits by linarith
  then have "\<not> gb p D" "p div 2 ^ D = 0" using gb D by (simp_all add: reads_bits_def)
  then show ?thesis
    using branch_nodes [OF gb p, of D compress] D node_root [OF fits]
    by (simp add: branch_root_def enumerate_append_eq mix_in_length_def)
qed

lemma extend_and_construct_proofs_ok:
  assumes chain: "zero_hash_chain compress" and gb: "reads_bits gb" and sib: "sib_ok compress D sib xs"
    and D: "D \<le> 40" and fits: "length (xs @ ys) \<le> 2 ^ D"
    and range: "length xs \<le> a" "a < b" "b \<le> length (xs @ ys)"
  shows "\<exists>sib' proofs. extend_and_construct_proofs compress gb D sib ys (length xs, length (xs @ ys)) (a, b) = Ok (sib', proofs)
    \<and> sib_ok compress D sib' (xs @ ys) \<and> length proofs = b - a
    \<and> (\<forall>i < b - a. length (proofs ! i) = D + 1
         \<and> branch_root compress gb ((xs @ ys) ! (a + i)) (proofs ! i) (a + i) =
             mix_in_length compress (merkle_root compress D (xs @ ys)) (length (xs @ ys)))"
proof -
  let ?zs = "xs @ ys" and ?n = "length (xs @ ys)"
  define H where "H = min (ilog2_nat ?n + 1) D"
  define nodes where "nodes = map (\<lambda>h. if h < H then level compress ?zs (length xs) h else []) [0..<D]"
  have ys: "ys \<noteq> []" and n: "?n \<noteq> 0" using range by auto
  have cutoff: "min (Suc (ilog2_nat (length xs + length ys))) D = H" by (simp add: H_def)
  note log = ilog2_nat_bounds [OF n]
  have built: "try_fold (nodes_step compress gb sib ys (length xs) ?n) [0..<H] (replicate D []) = Ok nodes"
    unfolding nodes_def by (rule nodes_built [OF chain gb sib D ys fits]) (simp add: H_def)
  have "h < H" if "h < D" "odd (?n div 2 ^ h)" for h
  proof -
    have "\<not> ?n < 2 ^ h" using that(2) by (auto simp: div_less)
    then have "\<not> Suc (ilog2_nat ?n) \<le> h" using log power_increasing [of "Suc (ilog2_nat ?n)" h "2::nat"] by linarith
    then show ?thesis using that(1) by (simp add: H_def)
  qed
  then obtain sib' where sib': "try_fold (update_sibling gb nodes (length xs) ?n) [0..<D] sib = Ok sib'"
    "sib_ok compress D sib' ?zs"
    using update_siblings_ok [OF gb sib D ys fits, of H] unfolding nodes_def by blast
  have node: "proof_node nodes (length xs) ?n p h = Ok (node compress ?zs h (p div 2 ^ h XOR 1))"
    if "p \<in> set [a..<b]" "h \<in> set [0..<D]" for p h
  proof -
    have "h < H \<or> ?n \<le> 2 ^ h"
      using that(2) log power_increasing [of "Suc (ilog2_nat ?n)" h "2::nat"] unfolding H_def by fastforce
    then show ?thesis
      unfolding nodes_def using that range by (intro proof_node_ok [OF chain D]) auto
  qed
  let ?proof = "\<lambda>p. map (\<lambda>h. node compress ?zs h (p div 2 ^ h XOR 1)) [0..<D] @ [hash_of_length ?n]"
  have "try_map (\<lambda>p. map_ok (\<lambda>proof. proof @ [hash_of_length ?n]) (try_map (proof_node nodes (length xs) ?n p) [0..<D])) [a..<b]
      = Ok (map ?proof [a..<b])"
  proof (rule try_map_Ok)
    fix p assume p: "p \<in> set [a..<b]"
    show "map_ok (\<lambda>proof. proof @ [hash_of_length ?n]) (try_map (proof_node nodes (length xs) ?n p) [0..<D]) = Ok (?proof p)"
      using try_map_Ok [of "[0..<D]" "proof_node nodes (length xs) ?n p" "\<lambda>h. node compress ?zs h (p div 2 ^ h XOR 1)"] node [OF p]
      by simp
  qed
  then have result: "extend_and_construct_proofs compress gb D sib ys (length xs, ?n) (a, b) = Ok (sib', map ?proof [a..<b])"
    using range D fits n built sib'(1)
    by (simp add: extend_and_construct_proofs_def assert_rs_def ilog2_def Let_def cutoff)
  have "branch_root compress gb (?zs ! p) (?proof p) p = mix_in_length compress (merkle_root compress D ?zs) ?n"
    if "p < b" for p
    using that range(3) D by (intro proof_branch [OF gb _ fits]) simp_all
  then show ?thesis
    using result sib'(2) by (intro exI [of _ sib'] exI [of _ "map ?proof [a..<b]"]) simp
qed

subsection \<open>Packed values\<close>

text \<open>
  \<open>merkleize_packed\<close> is generic in the type of the elements: \<open>fixed_part\<close> is \<open>T::SIZE.fixed_part()\<close>, \<open>factor\<close>
  is \<open>T::PackingFactor\<close> and \<open>write\<close> is \<open>write_fixed\<close>, the encoding of an element.  Both numbers are
  positive for every packed type.
\<close>

definition pack_chunk :: "nat \<Rightarrow> ('a \<Rightarrow> bytes) \<Rightarrow> 'a list \<Rightarrow> h256" where
  "pack_chunk fixed_part write pack =
     fold (\<lambda>(i, element) hash. copy_from_slice (i * fixed_part) (write element) hash)
       (zip [0..<32 div fixed_part] pack) (replicate 32 0)"

definition packed_chunks :: "nat \<Rightarrow> nat \<Rightarrow> ('a \<Rightarrow> bytes) \<Rightarrow> 'a list \<Rightarrow> h256 list" where
  "packed_chunks fixed_part factor write values = map (pack_chunk fixed_part write) (chunks_of factor values)"

definition merkleize_packed ::
  "compress256 \<Rightarrow> bit_reader \<Rightarrow> nat \<Rightarrow> nat \<Rightarrow> nat \<Rightarrow> ('a \<Rightarrow> bytes) \<Rightarrow> 'a list \<Rightarrow> h256 res" where
  "merkleize_packed compress gb D fixed_part factor write values =
     merkleize_chunks compress gb D (packed_chunks fixed_part factor write values)"

text \<open>A chunk holds the encodings of its elements one after the other, followed by zeros.\<close>

lemma pack_chunk_concat:
  assumes "\<And>x. length (write x) = n" "0 < n" "length pack \<le> 32 div n"
  shows "pack_chunk n write pack = concat (map write pack) @ replicate (32 - length pack * n) 0"
proof -
  have "zip [0..<32 div n] pack = enumerate 0 pack"
    using assms(3) by (intro nth_equalityI) (auto simp: nth_enumerate_eq)
  moreover have "fold (\<lambda>(i, x) hash. copy_from_slice (i * n) (write x) hash) (enumerate 0 pack) (replicate 32 0) =
      concat (map write pack) @ replicate (32 - length pack * n) 0"
    using assms(3)
  proof (induction pack rule: rev_induct)
    case (snoc x pack)
    have len: "length (concat (map write pack)) = length pack * n"
      by (simp add: length_concat comp_def assms(1) sum_list_triv)
    have "Suc (length pack) * n \<le> 32" using snoc.prems assms(2) by (simp add: less_eq_div_iff_mult_less_eq)
    then show ?case
      using snoc len assms(1) by (simp add: enumerate_append_eq copy_from_slice_def)
  qed simp
  ultimately show ?thesis by (simp add: pack_chunk_def)
qed

subsection \<open>Progressive Merkleization\<close>

definition progressive_hash ::
  "compress256 \<Rightarrow> nat \<Rightarrow> nat \<Rightarrow> h256 list \<Rightarrow> nat \<Rightarrow> h256 \<Rightarrow> h256 res" where
  "progressive_hash compress sibling_to_update count right_hashes local chunk =
     try_fold (\<lambda>height hash.
       and_then (if saturating_add local (2 ^ height) < count then nth_rs right_hashes height else zero_hash_at height)
         (\<lambda>right. Ok (hash_256_256 compress hash right))) [0..<sibling_to_update] chunk"

definition progressive_step ::
  "compress256 \<Rightarrow> nat \<Rightarrow> nat \<Rightarrow> nat \<times> h256 \<Rightarrow> h256 list \<times> h256 \<Rightarrow> (h256 list \<times> h256) res" where
  "progressive_step compress depth count = (\<lambda>(local, chunk) (right_hashes, root).
     let sibling_to_update = min (trailing_zeros local) depth in
     and_then (progressive_hash compress sibling_to_update count right_hashes local chunk) (\<lambda>hash.
     if local = 0 then Ok (right_hashes, hash_256_256 compress hash root)
     else
       and_then (assert_rs (sibling_to_update < length right_hashes)) (\<lambda>_.
       Ok (right_hashes[sibling_to_update := hash], root))))"

definition progressive_level ::
  "compress256 \<Rightarrow> nat \<Rightarrow> h256 list \<times> h256 list \<times> h256 \<Rightarrow> (h256 list \<times> h256 list \<times> h256) res" where
  "progressive_level compress depth = (\<lambda>(chunks, right_hashes, root).
     let capacity = 2 ^ depth;
         offset = (capacity - 1) div 3;
         count = length chunks - offset in
     map_ok (\<lambda>(right_hashes, root). (take (length chunks - count) chunks, right_hashes, root))
       (try_fold (progressive_step compress depth count) (zip (rev [0..<count]) (rev chunks)) (right_hashes, root)))"

definition merkleize_progressive :: "compress256 \<Rightarrow> h256 list \<Rightarrow> h256 res" where
  "merkleize_progressive compress chunks =
     (if length chunks = 0 then Ok (replicate 32 0)
      else
        and_then (expect (checked_mul (length chunks) 3)) (\<lambda>triple_len.
        and_then (ilog2 triple_len) (\<lambda>log.
        let max_depth = log div 2 * 2;
            right_hashes = replicate max_depth (replicate 32 0);
            root = replicate 32 0 in
        map_ok (\<lambda>(_, _, root). root)
          (try_fold (progressive_level compress) (map (\<lambda>k. 2 * k) (rev [0..<max_depth div 2 + 1]))
            (chunks, right_hashes, root)))))"

definition progressive_bytes :: "compress256 \<Rightarrow> bytes \<Rightarrow> h256 res" where
  "progressive_bytes compress bs =
     merkleize_progressive compress
       (map (\<lambda>partial_chunk. copy_from_slice 0 partial_chunk (replicate 32 0)) (chunks_of 32 bs))"

definition progressive_packed :: "compress256 \<Rightarrow> nat \<Rightarrow> nat \<Rightarrow> ('a \<Rightarrow> bytes) \<Rightarrow> 'a list \<Rightarrow> h256 res" where
  "progressive_packed compress fixed_part factor write values =
     merkleize_progressive compress (packed_chunks fixed_part factor write values)"

text \<open>
  The reference: the first \<open>2 ^ d\<close> chunks form a tree of depth \<open>d\<close>, which is hashed with the root of
  the rest, whose first tree is two levels deeper.
\<close>

function progressive_root :: "compress256 \<Rightarrow> nat \<Rightarrow> h256 list \<Rightarrow> h256" where
  "progressive_root compress d xs =
     (if xs = [] then replicate 32 0
      else hash_256_256 compress (merkle_root compress d (take (2 ^ d) xs))
        (progressive_root compress (d + 2) (drop (2 ^ d) xs)))"
  by auto
termination by (relation "measure (\<lambda>(_, _, xs). length xs)") auto

declare progressive_root.simps [simp del]

lemma progressive_root_Nil [simp]: "progressive_root compress d [] = replicate 32 0"
  by (simp add: progressive_root.simps)

definition right_ok :: "compress256 \<Rightarrow> h256 list \<Rightarrow> nat \<Rightarrow> h256 list \<Rightarrow> bool" where
  "right_ok compress seg l rights \<longleftrightarrow>
     (\<forall>h i. odd i \<and> l \<le> i * 2 ^ h \<and> i * 2 ^ h < length seg \<and> i * 2 ^ h < l + 2 ^ Suc h \<longrightarrow> rights ! h = node compress seg h i)"

lemma right_okD:
  "right_ok compress seg l rights \<Longrightarrow> odd i \<Longrightarrow> l \<le> i * 2 ^ h \<Longrightarrow> i * 2 ^ h < length seg \<Longrightarrow>
    i * 2 ^ h < l + 2 ^ Suc h \<Longrightarrow> rights ! h = node compress seg h i"
  by (simp add: right_ok_def)

lemma progressive_hash_ok:
  assumes chain: "zero_hash_chain compress" and r: "right_ok compress seg (Suc l) rights"
    and l: "l < length seg" "2 ^ k dvd l" and len: "length seg \<le> 2 ^ length rights" and k: "k \<le> 41"
    and bound: "l + 2 ^ 41 < u64_bound"
  shows "progressive_hash compress k (length seg) rights l (seg ! l) = Ok (node compress seg k (l div 2 ^ k))"
  using l(2) k
proof (induction k)
  case 0
  then show ?case using l(1) by (simp add: progressive_hash_def node_0)
next
  case (Suc h)
  then obtain m where m: "l = 2 ^ Suc h * m" by (auto elim: dvdE)
  then have dvd: "2 ^ h dvd l" and quot: "l div 2 ^ h = 2 * m" "l div 2 ^ Suc h = m"
    by (simp_all add: ac_simps)
  have pos: "(2 * m + 1) * 2 ^ h = l + 2 ^ h" using m by (simp add: algebra_simps)
  have "(2::nat) ^ h \<le> 2 ^ 41" using Suc.prems by (intro power_increasing) simp_all
  then have sat: "saturating_add l (2 ^ h) = l + 2 ^ h" using bound by (simp add: saturating_add_exact)
  have "(if saturating_add l (2 ^ h) < length seg then nth_rs rights h else zero_hash_at h) =
      Ok (node compress seg h (2 * m + 1))"
  proof (cases "l + 2 ^ h < length seg")
    case True
    then have "rights ! h = node compress seg h (2 * m + 1)"
      using pos by (intro right_okD [OF r]) simp_all
    moreover have "h < length rights"
    proof -
      have "(2::nat) ^ h < 2 ^ length rights" using True len by linarith
      then show ?thesis by (simp only: power_strict_increasing_iff)
    qed
    ultimately show ?thesis using True sat by simp
  next
    case False
    then have "node compress seg h (2 * m + 1) = ZERO_HASHES ! h"
      using pos Suc.prems by (intro node_zero [OF chain]) simp_all
    then show ?thesis using False sat Suc.prems by (simp add: zero_hash_at_def)
  qed
  then show ?case
    using Suc dvd quot by (simp add: progressive_hash_def try_fold_append node_Suc del: power_Suc)
qed

lemma odd_power_le:
  fixes i j :: nat
  assumes "i * 2 ^ h = j * 2 ^ t" "odd i"
  shows "t \<le> h"
proof (rule ccontr)
  assume "\<not> t \<le> h"
  then obtain k where "t = h + Suc k" using less_imp_Suc_add [of h t] by auto
  then have "i * 2 ^ h = j * 2 ^ Suc k * 2 ^ h" using assms(1) by (simp add: power_add)
  then have "i = j * 2 ^ Suc k" by (simp only: mult_cancel2) simp
  then show False using assms(2) by simp
qed

lemma odd_power_eq: "i * 2 ^ h = j * 2 ^ t \<Longrightarrow> odd i \<Longrightarrow> odd j \<Longrightarrow> h = t" for i j :: nat
  using odd_power_le [of i h j t] odd_power_le [of j t i h] by simp

lemma right_ok_step:
  assumes r: "right_ok compress seg (Suc l) rights" and l: "l = j * 2 ^ t" "odd j" and t: "t < length rights"
  shows "right_ok compress seg l (rights[t := node compress seg t j])"
  unfolding right_ok_def
proof (intro allI impI, elim conjE)
  fix h i :: nat
  assume i: "odd i" "l \<le> i * 2 ^ h" "i * 2 ^ h < length seg" "i * 2 ^ h < l + 2 ^ Suc h"
  show "rights[t := node compress seg t j] ! h = node compress seg h i"
  proof (cases "h = t")
    case True
    have "j * 2 ^ t \<le> i * 2 ^ t" "i * 2 ^ t < (j + 2) * 2 ^ t"
      using i(2,4) l(1) True by (simp_all add: algebra_simps)
    then have "j \<le> i" "i < j + 2" by (simp, simp only: mult_less_cancel2)
    then have "i = j" using i(1) l(2) by presburger
    then show ?thesis using True t by simp
  next
    case False
    have "l \<noteq> i * 2 ^ h"
    proof
      assume "l = i * 2 ^ h"
      then show False using odd_power_eq [of i h j t] l False i(1) by simp
    qed
    then show ?thesis using False i right_okD [OF r i(1), of h] by simp
  qed
qed

lemma progressive_step_ok:
  assumes chain: "zero_hash_chain compress" and r: "right_ok compress seg (Suc l) rights"
    and l: "0 < l" "l < length seg" and depth: "length seg \<le> 2 ^ depth" "depth \<le> length rights" "depth \<le> 40"
  shows "\<exists>rights'. progressive_step compress depth (length seg) (l, seg ! l) (rights, root) = Ok (rights', root)
    \<and> right_ok compress seg l rights' \<and> length rights' = length rights"
proof -
  define t where "t = trailing_zeros l"
  obtain q where q: "l = 2 ^ t * (2 * q + 1)" using trailing_zeros_split [of l] l(1) by (auto simp: t_def)
  have "2 ^ t \<le> l" using q by simp
  then have "(2::nat) ^ t < 2 ^ depth" using l(2) depth(1) by linarith
  then have t: "t < depth" by (simp only: power_strict_increasing_iff)
  have "(2::nat) ^ depth \<le> 2 ^ 40" "(2::nat) ^ depth \<le> 2 ^ length rights"
    by (rule power_increasing [OF depth(3)], simp, rule power_increasing [OF depth(2)], simp)
  then have "length seg \<le> 2 ^ length rights" "l + 2 ^ 41 < u64_bound"
    using le_trans [OF depth(1)] depth(1) l(2) by (blast, simp add: u64_bound_def)
  moreover have "l div 2 ^ t = 2 * q + 1" "2 ^ t dvd l" using q by simp_all
  ultimately have "progressive_hash compress t (length seg) rights l (seg ! l) = Ok (node compress seg t (2 * q + 1))"
    using progressive_hash_ok [OF chain r l(2), of t] t depth(3) by simp
  moreover have "right_ok compress seg l (rights[t := node compress seg t (2 * q + 1)])"
    using t depth(2) q by (intro right_ok_step [OF r]) (simp_all add: mult.commute)
  moreover have "min (trailing_zeros l) depth = t" using t by (simp add: t_def)
  ultimately show ?thesis
    using l(1) t depth(2) by (simp add: progressive_step_def assert_rs_def Let_def)
qed

lemma progressive_seg_ok:
  assumes chain: "zero_hash_chain compress" and seg: "seg \<noteq> []"
    and depth: "length seg \<le> 2 ^ depth" "depth \<le> length rights" "depth \<le> 40"
  shows "\<exists>rights'. try_fold (progressive_step compress depth (length seg)) (rev (enumerate 0 seg)) (rights, root) =
      Ok (rights', hash_256_256 compress (merkle_root compress depth seg) root) \<and> length rights' = length rights"
proof -
  let ?step = "progressive_step compress depth (length seg)"
  have loop: "\<exists>rights'. try_fold ?step (rev (map (\<lambda>l. (l, seg ! l)) [l..<length seg])) (rights, root) = Ok (rights', root)
      \<and> right_ok compress seg l rights' \<and> length rights' = length rights" if "l \<le> length seg" "0 < l" for l
    using that
  proof (induction l rule: inc_induct)
    case base
    then show ?case by (auto simp: right_ok_def)
  next
    case (step l)
    then obtain r where r: "try_fold ?step (rev (map (\<lambda>l. (l, seg ! l)) [Suc l..<length seg])) (rights, root) = Ok (r, root)"
      "right_ok compress seg (Suc l) r" "length r = length rights"
      by auto
    have "depth \<le> length r" using depth(2) r(3) by simp
    from progressive_step_ok [OF chain r(2) step.prems step.hyps(2) depth(1) this depth(3)]
    obtain r' where "?step (l, seg ! l) (r, root) = Ok (r', root)" "right_ok compress seg l r'" "length r' = length r"
      by blast
    moreover have "[l..<length seg] = l # [Suc l..<length seg]" using step.hyps by (simp add: upt_conv_Cons)
    ultimately show ?case using r by (simp add: try_fold_append)
  qed
  have "Suc 0 \<le> length seg" using seg by (simp add: Suc_le_eq)
  from loop [OF this] obtain r where
    r: "try_fold ?step (rev (map (\<lambda>l. (l, seg ! l)) [Suc 0..<length seg])) (rights, root) = Ok (r, root)"
      "right_ok compress seg (Suc 0) r" "length r = length rights"
    by auto
  have "(2::nat) ^ depth \<le> 2 ^ length r" by (rule power_increasing) (use depth r in simp_all)
  then have "length seg \<le> 2 ^ length r" using depth(1) by linarith
  moreover have "0 + 2 ^ 41 < u64_bound" by (simp add: u64_bound_def)
  ultimately have "progressive_hash compress depth (length seg) r 0 (seg ! 0) = Ok (node compress seg depth (0 div 2 ^ depth))"
    using seg depth(3) by (intro progressive_hash_ok [OF chain r(2)]) simp_all
  moreover have "min (trailing_zeros 0) depth = depth" using depth(3) by (subst trailing_zeros.simps) simp
  ultimately have "?step (0, seg ! 0) (r, root) = Ok (r, hash_256_256 compress (merkle_root compress depth seg) root)"
    by (simp add: progressive_step_def node_root [OF depth(1)])
  moreover have "enumerate 0 seg = (0, seg ! 0) # map (\<lambda>l. (l, seg ! l)) [Suc 0..<length seg]"
    using seg by (intro nth_equalityI) (auto simp: nth_enumerate_eq nth_Cons split: nat.split)
  ultimately show ?thesis using r by (simp add: try_fold_append)
qed

lemma zip_rev_enumerate:
  assumes "c \<le> length xs"
  shows "zip (rev [0..<c]) (rev xs) = rev (enumerate 0 (drop (length xs - c) xs))"
  using assms by (intro nth_equalityI) (auto simp: rev_nth nth_enumerate_eq)

definition subtree_offset :: "nat \<Rightarrow> nat" where
  "subtree_offset k = (2 ^ (2 * k) - 1) div 3"

lemma subtree_offset_power: "2 ^ (2 * k) = 3 * subtree_offset k + 1"
proof -
  have "\<exists>q. 2 ^ (2 * k) = 3 * q + (1::nat)"
  proof (induction k)
    case (Suc k)
    then obtain q where "2 ^ (2 * k) = 3 * q + (1::nat)" by blast
    then have "2 ^ (2 * Suc k) = 3 * (4 * q + 1) + (1::nat)" by simp
    then show ?case by blast
  qed simp
  then show ?thesis by (auto simp: subtree_offset_def)
qed

lemma subtree_offset_Suc: "subtree_offset (Suc k) = subtree_offset k + 2 ^ (2 * k)"
  using subtree_offset_power [of k] subtree_offset_power [of "Suc k"] by simp

lemma progressive_level_ok:
  assumes "zero_hash_chain compress" "2 * k \<le> length rights" "2 * k \<le> 40"
  shows "\<exists>rights'. progressive_level compress (2 * k)
      (take (subtree_offset (Suc k)) xs, rights, progressive_root compress (2 * Suc k) (drop (subtree_offset (Suc k)) xs)) =
    Ok (take (subtree_offset k) xs, rights', progressive_root compress (2 * k) (drop (subtree_offset k) xs))
    \<and> length rights' = length rights"
proof -
  let ?o = "subtree_offset k" and ?o' = "subtree_offset (Suc k)"
  let ?chunks = "take ?o' xs"
  define seg where "seg = drop ?o ?chunks"
  define root where "root = progressive_root compress (2 * Suc k) (drop ?o' xs)"
  have seg: "seg = take (2 ^ (2 * k)) (drop ?o xs)" by (simp add: seg_def subtree_offset_Suc drop_take)
  have count: "length ?chunks - ?o = length seg" by (simp add: seg_def)
  have "length ?chunks - length seg = min ?o (length ?chunks)" unfolding seg_def length_drop by simp
  then have rest: "take (length ?chunks - length seg) ?chunks = take ?o xs" "drop (length ?chunks - length seg) ?chunks = seg"
    by (simp_all add: seg_def subtree_offset_Suc min_def)
  have "length seg \<le> length ?chunks" by (simp only: seg_def length_drop diff_le_self)
  from zip_rev_enumerate [OF this] have zip: "zip (rev [0..<length seg]) (rev ?chunks) = rev (enumerate 0 seg)"
    by (simp only: rest(2))
  have level: "progressive_level compress (2 * k) (?chunks, rights, root) =
      map_ok (\<lambda>(rights, root). (take ?o xs, rights, root))
        (try_fold (progressive_step compress (2 * k) (length seg)) (rev (enumerate 0 seg)) (rights, root))"
    unfolding progressive_level_def case_prod_conv Let_def subtree_offset_def [symmetric] count rest(1) zip ..
  show ?thesis
  proof (cases "drop ?o xs = []")
    case True
    then have "seg = []" "drop ?o' xs = []" using seg by (simp_all add: subtree_offset_Suc)
    then show ?thesis
      using True level by (simp add: root_def)
  next
    case False
    then have "seg \<noteq> []" "length seg \<le> 2 ^ (2 * k)" using seg by simp_all
    then obtain rights' where "try_fold (progressive_step compress (2 * k) (length seg)) (rev (enumerate 0 seg)) (rights, root) =
        Ok (rights', hash_256_256 compress (merkle_root compress (2 * k) seg) root)" "length rights' = length rights"
      using progressive_seg_ok [OF assms(1) _ _ assms(2,3)] by blast
    moreover have "hash_256_256 compress (merkle_root compress (2 * k) seg) root = progressive_root compress (2 * k) (drop ?o xs)"
      using False by (simp add: progressive_root.simps [of compress "2 * k"] seg root_def subtree_offset_Suc add.commute)
    ultimately show ?thesis using level by (simp add: root_def)
  qed
qed

lemma progressive_levels:
  assumes "zero_hash_chain compress" "2 * j \<le> length rights + 2" "2 * j \<le> 42"
  shows "\<exists>rights'. try_fold (progressive_level compress) (map (\<lambda>k. 2 * k) (rev [0..<j]))
      (take (subtree_offset j) xs, rights, progressive_root compress (2 * j) (drop (subtree_offset j) xs)) =
    Ok ([], rights', progressive_root compress 0 xs)"
  using assms(2,3)
proof (induction j arbitrary: rights)
  case 0
  then show ?case by (simp add: subtree_offset_def)
next
  case (Suc j)
  then have "2 * j \<le> length rights" "2 * j \<le> 40" by simp_all
  from progressive_level_ok [OF assms(1) this, of xs] obtain rights' where
    "progressive_level compress (2 * j) (take (subtree_offset (Suc j)) xs, rights,
       progressive_root compress (2 * Suc j) (drop (subtree_offset (Suc j)) xs)) =
     Ok (take (subtree_offset j) xs, rights', progressive_root compress (2 * j) (drop (subtree_offset j) xs))"
    "length rights' = length rights"
    by blast
  then show ?case using Suc.IH [of rights'] Suc.prems by simp
qed

text \<open>
  C17. Progressive Merkleization, which walks the chunks from the last to the first and stores one hash
  per level, returns without panicking the root of the progressive tree: the first \<open>4 ^ k\<close> chunks
  after those of the smaller trees form a binary tree, and each tree is hashed with the root of the
  rest.
\<close>

theorem merkleize_progressive_correct:
  assumes "zero_hash_chain compress" "3 * length chunks < 2 ^ 42"
  shows "merkleize_progressive compress chunks = Ok (progressive_root compress 0 chunks)"
proof (cases "chunks = []")
  case False
  define log where "log = ilog2_nat (3 * length chunks)"
  define K where "K = log div 2"
  have n: "3 * length chunks \<noteq> 0" using False by simp
  note bounds = ilog2_nat_bounds [OF n, folded log_def]
  have "(2::nat) ^ log < 2 ^ 42" using bounds assms(2) by linarith
  then have "log < 42" by (simp only: power_strict_increasing_iff)
  then have K: "2 * K \<le> 40" "Suc log \<le> 2 * Suc K" by (simp_all add: K_def)
  have "(2::nat) ^ Suc log \<le> 2 ^ (2 * Suc K)" using K(2) by (rule power_increasing) simp
  then have all: "length chunks \<le> subtree_offset (Suc K)"
    using bounds subtree_offset_power [of "Suc K"] by linarith
  then obtain rights' where "try_fold (progressive_level compress) (map (\<lambda>k. 2 * k) (rev [0..<Suc K]))
      (chunks, replicate (K * 2) (replicate 32 0), replicate 32 0) = Ok ([], rights', progressive_root compress 0 chunks)"
    using progressive_levels [OF assms(1), of "Suc K" "replicate (K * 2) (replicate 32 0)" chunks] K(1) by auto
  moreover have "expect (checked_mul (length chunks) 3) = (Ok (3 * length chunks) :: nat res)"
    using assms(2) by (simp add: checked_mul_def u64_bound_def expect_def mult.commute)
  moreover have "ilog2 (3 * length chunks) = Ok log" using n by (simp add: ilog2_def log_def)
  ultimately show ?thesis
    using False by (simp add: merkleize_progressive_def Let_def K_def del: upt_Suc)
qed (simp add: merkleize_progressive_def)

theorem merkleize_progressive_correct_witness:
  "merkleize_progressive compress_table [replicate 32 1, replicate 32 2] =
     Ok (hash_256_256 compress_table (replicate 32 1)
       (hash_256_256 compress_table
         (hash_256_256 compress_table (hash_256_256 compress_table (replicate 32 2) (replicate 32 0))
           (hash_256_256 compress_table (replicate 32 0) (replicate 32 0))) (replicate 32 0)))"
  using merkleize_progressive_correct [OF zero_hash_chain_compress_table, of "[replicate 32 1, replicate 32 2]"]
  by (simp add: progressive_root.simps)

end
