(* ===== verification/Deposit_Tree.thy ===== *)
theory Deposit_Tree
  imports Merkle_Proofs Block_Processing
begin

text \<open>
  The tree of deposits (\<open>deposit_tree/src/lib.rs\<close>).  It keeps only the hashes that are needed to add
  deposits and to construct proofs for them, and it is the counterpart of the check of Merkle
  branches in block processing: block producers take deposits with proofs from it, and the root
  that the deposit contract reports is the root of the list of deposits with its length.
\<close>

subsection \<open>Operations\<close>

definition DepositContractTreeDepth :: nat where
  "DepositContractTreeDepth = 32"

definition MAX_DEPOSITS :: nat where
  "MAX_DEPOSITS = 2 ^ DepositContractTreeDepth"

record deposit_tree =
  dt_merkle_tree :: "h256 list"
  dt_deposit_count :: nat
  dt_last_added_block_number :: nat

definition deposit_tree_default :: deposit_tree where
  "deposit_tree_default =
     \<lparr> dt_merkle_tree = merkle_tree_default DepositContractTreeDepth, dt_deposit_count = 0,
       dt_last_added_block_number = 0 \<rparr>"

definition validate_index_fits :: "nat \<Rightarrow> unit res" where
  "validate_index_fits index = ensure (index < MAX_DEPOSITS) (Tree (TreeFull index))"

definition validate_index_expected :: "deposit_tree \<Rightarrow> nat \<Rightarrow> unit res" where
  "validate_index_expected self index =
     (let expected = dt_deposit_count self; actual = index
      in ensure (actual = expected) (Tree (UnexpectedIndex expected actual)))"

definition dt_validate_index :: "deposit_tree \<Rightarrow> nat \<Rightarrow> nat res" where
  "dt_validate_index self index =
     and_then (validate_index_fits index) (\<lambda>_.
     and_then (validate_index_expected self index) (\<lambda>_.
     Ok index))"

definition dt_push :: "env \<Rightarrow> deposit_tree \<Rightarrow> nat \<Rightarrow> deposit_data \<Rightarrow> deposit_tree res" where
  "dt_push E self index data =
     and_then (dt_validate_index self index) (\<lambda>index.
     let chunk = ev_htr_deposit_data E data in
     and_then (merkle_push (ev_compress E) DepositContractTreeDepth (dt_merkle_tree self) index chunk) (\<lambda>(tree, _).
     Ok (self\<lparr> dt_merkle_tree := tree, dt_deposit_count := saturating_add (dt_deposit_count self) 1 \<rparr>)))"

definition dt_push_and_compute_root ::
  "env \<Rightarrow> deposit_tree \<Rightarrow> nat \<Rightarrow> deposit_data \<Rightarrow> (deposit_tree \<times> h256) res" where
  "dt_push_and_compute_root E self index data =
     and_then (dt_validate_index self index) (\<lambda>index.
     let chunk = ev_htr_deposit_data E data in
     and_then (push_and_compute_root (ev_compress E) (ev_index_bit E) DepositContractTreeDepth
       (dt_merkle_tree self) index chunk) (\<lambda>(tree, root).
     let root_with_length = mix_in_length (ev_compress E) root (saturating_add index 1) in
     Ok (self\<lparr> dt_merkle_tree := tree, dt_deposit_count := saturating_add (dt_deposit_count self) 1 \<rparr>,
       root_with_length)))"

definition dt_extend_and_construct_proofs ::
  "env \<Rightarrow> deposit_tree \<Rightarrow> deposit_data list \<Rightarrow> nat \<times> nat \<Rightarrow> nat \<times> nat \<Rightarrow> (deposit_tree \<times> deposit list) res" where
  "dt_extend_and_construct_proofs E self data deposit_indices proof_indices =
     (let (start, stop) = deposit_indices; (proof_start, proof_stop) = proof_indices in
      and_then (ensure (start \<le> proof_start \<and> proof_start < proof_stop \<and> proof_stop \<le> stop)
        (Tree (InvalidIndexRanges deposit_indices proof_indices))) (\<lambda>_.
      and_then (validate_index_fits (stop - 1)) (\<lambda>_.
      and_then (validate_index_expected self start) (\<lambda>_.
      let data_count = length data; index_count = stop - start in
      and_then (ensure (data_count = index_count) (Tree (CountMismatch data_count index_count))) (\<lambda>_.
      let chunks = map (ev_htr_deposit_data E) data in
      and_then (extend_and_construct_proofs (ev_compress E) (ev_index_bit E) DepositContractTreeDepth
        (dt_merkle_tree self) chunks deposit_indices proof_indices) (\<lambda>(tree, proofs).
      and_then (try_map (\<lambda>index. nth_rs data (index - start)) [proof_start..<proof_stop]) (\<lambda>selected.
      and_then (assert_rs (length proofs = length selected)) (\<lambda>_.
      Ok (self\<lparr> dt_merkle_tree := tree, dt_deposit_count := stop \<rparr>,
        map (\<lambda>(p, d). \<lparr> dep_proof = p, dep_data = d \<rparr>) (zip proofs selected))))))))))"

subsection \<open>The list of deposits behind a tree\<close>

definition deposit_chunks :: "env \<Rightarrow> deposit_data list \<Rightarrow> h256 list" where
  "deposit_chunks E ds = map (ev_htr_deposit_data E) ds"

definition deposit_root :: "env \<Rightarrow> deposit_data list \<Rightarrow> h256" where
  "deposit_root E ds =
     mix_in_length (ev_compress E) (merkle_root (ev_compress E) 32 (deposit_chunks E ds)) (length ds)"

definition tree_of :: "env \<Rightarrow> deposit_data list \<Rightarrow> deposit_tree \<Rightarrow> bool" where
  "tree_of E ds tree \<longleftrightarrow>
     sib_ok (ev_compress E) 32 (dt_merkle_tree tree) (deposit_chunks E ds)
     \<and> dt_deposit_count tree = length ds \<and> length ds \<le> 2 ^ 32"

lemma tree_of_default: "tree_of E [] deposit_tree_default"
  by (simp add: tree_of_def deposit_tree_default_def deposit_chunks_def sib_ok_default DepositContractTreeDepth_def)

lemmas deposit_index_defs = dt_validate_index_def validate_index_fits_def validate_index_expected_def
  MAX_DEPOSITS_def DepositContractTreeDepth_def

text \<open>A tree over the functions that satisfy what is assumed of hashing, and three deposits.\<close>

definition sample_tree_env :: env where
  "sample_tree_env = sample_env\<lparr> ev_compress := compress_table, ev_index_bit := get_bit_std \<rparr>"

definition sample_deposit_data :: "nat \<Rightarrow> deposit_data" where
  "sample_deposit_data amount =
     \<lparr> dd_pubkey = [], dd_withdrawal_credentials = [], dd_amount = amount, dd_signature = [] \<rparr>"

lemma sample_tree_env_hashing:
  "zero_hash_chain (ev_compress sample_tree_env)" "reads_bits (ev_index_bit sample_tree_env)"
  by (simp_all add: sample_tree_env_def zero_hash_chain_compress_table reads_bits_std)

text \<open>
  C16. The deposit tree is the tree of the list of deposits.  It starts empty; a deposit can be added
  exactly with the next index while there is room, and the two ways to add it give the same tree,
  that of the longer list; the root that is computed is the Merkle root of the list with its
  length.  Any other index and a full tree are errors.
\<close>

theorem deposit_tree_follows_list:
  assumes "zero_hash_chain (ev_compress E)" "reads_bits (ev_index_bit E)" "tree_of E ds tree"
  shows "if index < 2 ^ 32 \<and> index = length ds
    then \<exists>tree'. dt_push E tree index d = Ok tree' \<and> tree_of E (ds @ [d]) tree'
      \<and> dt_push_and_compute_root E tree index d = Ok (tree', deposit_root E (ds @ [d]))
    else \<exists>e. dt_push E tree index d = Err (Tree e) \<and> dt_push_and_compute_root E tree index d = Err (Tree e)"
proof (cases "index < 2 ^ 32 \<and> index = length ds")
  case True
  let ?xs = "deposit_chunks E ds" and ?x = "ev_htr_deposit_data E d" and ?c = "ev_compress E"
  have sib: "sib_ok ?c 32 (dt_merkle_tree tree) ?xs" and len: "length ?xs = index" "dt_deposit_count tree = index"
    using assms(3) True by (simp_all add: tree_of_def deposit_chunks_def)
  have fits: "length ?xs < 2 ^ 32" using len True by simp
  obtain sib' where root: "push_and_compute_root ?c (ev_index_bit E) 32 (dt_merkle_tree tree) index ?x =
      Ok (sib', merkle_root ?c 32 (?xs @ [?x]))" "sib_ok ?c 32 sib' (?xs @ [?x])"
    using push_and_compute_root_ok [OF assms(1,2) sib _ fits, of ?x] len(1) by auto
  then obtain k h where push: "merkle_push ?c 32 (dt_merkle_tree tree) index ?x = Ok (sib', k, h)"
    by (auto simp: push_and_compute_root_def res_simps)
  have "saturating_add index 1 = Suc index" using True by (simp add: saturating_add_exact u64_bound_def)
  then show ?thesis
    using True root push len assms(3)
    by (auto simp: dt_push_def dt_push_and_compute_root_def deposit_index_defs tree_of_def deposit_root_def
        deposit_chunks_def ensure_def)
next
  case False
  then show ?thesis
    using assms(3) by (auto simp: dt_push_def dt_push_and_compute_root_def deposit_index_defs tree_of_def ensure_def)
qed

theorem deposit_tree_follows_list_witness:
  "\<exists>tree. dt_push sample_tree_env deposit_tree_default 0 (sample_deposit_data 32000000000) = Ok tree
     \<and> tree_of sample_tree_env [sample_deposit_data 32000000000] tree
     \<and> dt_push_and_compute_root sample_tree_env deposit_tree_default 0 (sample_deposit_data 32000000000) =
         Ok (tree, deposit_root sample_tree_env [sample_deposit_data 32000000000])"
  using deposit_tree_follows_list [OF sample_tree_env_hashing tree_of_default, of 0 "sample_deposit_data 32000000000"]
  by simp

lemma is_valid_merkle_branch_root:
  "is_valid_merkle_branch compress gb leaf branch index root \<longleftrightarrow> branch_root compress gb leaf branch index = root"
  by (simp add: is_valid_merkle_branch_def branch_root_def)

lemma try_map_nth_rs:
  assumes "start \<le> a" "b \<le> start + length xs"
  shows "try_map (\<lambda>i. nth_rs xs (i - start)) [a..<b] = Ok (map (\<lambda>i. xs ! (i - start)) [a..<b])"
proof -
  have "set is \<subseteq> {start..<start + length xs} \<Longrightarrow>
      try_map (\<lambda>i. nth_rs xs (i - start)) is = Ok (map (\<lambda>i. xs ! (i - start)) is)" for "is"
    by (induction "is") auto
  moreover have "set [a..<b] \<subseteq> {start..<start + length xs}" using assms by auto
  ultimately show ?thesis by blast
qed

text \<open>
  C15. Proofs taken from the deposit tree are accepted by block processing.  Extending the tree of a
  list of deposits by further ones and asking for the proofs of some of these succeeds, gives the
  tree of the longer list and one deposit for each index asked for, in order and with its data; and
  every state whose Eth1 data has the root of the longer list accepts the branch of each of them at
  its index.
\<close>

theorem deposit_proofs_accepted:
  assumes "zero_hash_chain (ev_compress E)" "reads_bits (ev_index_bit E)" "tree_of E ds tree"
    and "length ds \<le> a" "a < b" "b \<le> length (ds @ new)" "length (ds @ new) \<le> 2 ^ 32"
  shows "\<exists>tree' deposits.
    dt_extend_and_construct_proofs E tree new (length ds, length (ds @ new)) (a, b) = Ok (tree', deposits)
    \<and> tree_of E (ds @ new) tree'
    \<and> map dep_data deposits = map ((!) (ds @ new)) [a..<b]
    \<and> (\<forall>i < length deposits. \<forall>state. e1_deposit_root (eth1_data state) = deposit_root E (ds @ new) \<longrightarrow>
         verify_deposit_merkle_branch E state (a + i) (deposits ! i) = Ok ())"
proof -
  let ?xs = "deposit_chunks E ds" and ?ys = "deposit_chunks E new" and ?n = "length (ds @ new)"
  have sib: "sib_ok (ev_compress E) 32 (dt_merkle_tree tree) ?xs" and count: "dt_deposit_count tree = length ds"
    using assms(3) by (simp_all add: tree_of_def)
  have len [simp]: "length (deposit_chunks E xs) = length xs" for xs by (simp add: deposit_chunks_def)
  have app: "deposit_chunks E (ds @ new) = ?xs @ ?ys" by (simp add: deposit_chunks_def)
  obtain sib' proofs where ext: "extend_and_construct_proofs (ev_compress E) (ev_index_bit E) 32
      (dt_merkle_tree tree) ?ys (length ds, ?n) (a, b) = Ok (sib', proofs)"
    and sib': "sib_ok (ev_compress E) 32 sib' (?xs @ ?ys)" and count': "length proofs = b - a"
    and branch: "\<And>i. i < b - a \<Longrightarrow> branch_root (ev_compress E) (ev_index_bit E) ((?xs @ ?ys) ! (a + i)) (proofs ! i) (a + i) =
      mix_in_length (ev_compress E) (merkle_root (ev_compress E) 32 (?xs @ ?ys)) ?n"
    using extend_and_construct_proofs_ok [OF assms(1,2) sib, of ?ys a b] assms(4-7) by auto
  let ?deposits = "map (\<lambda>(p, d). \<lparr> dep_proof = p, dep_data = d \<rparr>)
    (zip proofs (map (\<lambda>i. new ! (i - length ds)) [a..<b]))"
  have fits: "length ds + length new - Suc 0 < 4294967296" using assms(5-7) by simp
  have run: "dt_extend_and_construct_proofs E tree new (length ds, ?n) (a, b) =
      Ok (tree\<lparr> dt_merkle_tree := sib', dt_deposit_count := ?n \<rparr>, ?deposits)"
    using ext count count' assms(4-7) fits
    by (simp add: try_map_nth_rs dt_extend_and_construct_proofs_def validate_index_fits_def validate_index_expected_def
        MAX_DEPOSITS_def DepositContractTreeDepth_def deposit_chunks_def ensure_def assert_rs_def)
  have data: "map dep_data ?deposits = map ((!) (ds @ new)) [a..<b]"
    using count' assms(4) by (intro nth_equalityI) (simp_all add: nth_append)
  have accepted: "verify_deposit_merkle_branch E state (a + i) (?deposits ! i) = Ok ()"
    if "i < length ?deposits" "e1_deposit_root (eth1_data state) = deposit_root E (ds @ new)" for i state
    using that branch [of i] count' assms(4-6) app
    by (simp add: verify_deposit_merkle_branch_def is_valid_merkle_branch_root deposit_root_def ensure_def
        nth_append deposit_chunks_def)
  show ?thesis
    using run data accepted sib' app assms(7)
    by (intro exI [of _ "tree\<lparr> dt_merkle_tree := sib', dt_deposit_count := ?n \<rparr>"] exI [of _ ?deposits])
      (simp add: tree_of_def)
qed

theorem deposit_proofs_accepted_witness:
  "\<exists>tree deposits.
    dt_extend_and_construct_proofs sample_tree_env deposit_tree_default
      (map sample_deposit_data [1, 2, 3]) (0, 3) (1, 3) = Ok (tree, deposits)
    \<and> map dep_data deposits = map sample_deposit_data [2, 3]
    \<and> (\<forall>state. e1_deposit_root (eth1_data state) = deposit_root sample_tree_env (map sample_deposit_data [1, 2, 3]) \<longrightarrow>
         verify_deposit_merkle_branch sample_tree_env state 2 (deposits ! 1) = Ok ())"
proof -
  have range: "[Suc 0..<3] = [Suc 0, 2]" "Suc (Suc (Suc 0)) = 3" by (simp_all add: upt_rec)
  obtain tree deposits where "dt_extend_and_construct_proofs sample_tree_env deposit_tree_default
        (map sample_deposit_data [1, 2, 3]) (0, 3) (1, 3) = Ok (tree, deposits)"
    and data: "map dep_data deposits = map sample_deposit_data [2, 3]"
    and accepted: "\<And>i state. i < length deposits \<Longrightarrow>
      e1_deposit_root (eth1_data state) = deposit_root sample_tree_env (map sample_deposit_data [1, 2, 3]) \<Longrightarrow>
      verify_deposit_merkle_branch sample_tree_env state (1 + i) (deposits ! i) = Ok ()"
    using deposit_proofs_accepted [OF sample_tree_env_hashing tree_of_default,
        of 1 3 "map sample_deposit_data [1, 2, 3]"]
    by (auto simp: range)
  moreover have "length deposits = 2" using arg_cong [OF data, of length] by simp
  then have "verify_deposit_merkle_branch sample_tree_env state 2 (deposits ! 1) = Ok ()"
    if "e1_deposit_root (eth1_data state) = deposit_root sample_tree_env (map sample_deposit_data [1, 2, 3])"
    for state
    using accepted [of 1, OF _ that] by (simp add: numeral_2_eq_2)
  ultimately show ?thesis using data by blast
qed

end
