(* ===== verification/Spec2Isabelle.thy ===== *)
theory Spec2Isabelle
  imports State_Transition Deposit_Tree
begin

text \<open>
  This library verifies the consensus core of Grandine, an Ethereum beacon node: the state transition
  of the Electra phase, from hashing and the collections that hold the state up to chains of blocks.
  File names below are relative to \<open>src/\<close>.

  \<^bold>\<open>How the program is modelled.\<close>  Functions of the source are HOL functions of the same name.  A
  function with \<open>&mut state\<close> takes the state and returns the new one.  Results are values of type
  \<open>'a res\<close>: \<open>Ok\<close>, \<open>Err\<close> with the error the source returns (theory Errors has its error types), or
  \<open>Panic\<close> for an \<open>expect\<close>, an index out of range or an overflow in plain arithmetic, which the build of
  the node checks.  Every early return and every \<open>?\<close> is a branch.  \<open>u64\<close> and \<open>usize\<close> are natural numbers
  with the bound \<open>2 ^ 64\<close> written out in the checked, saturating and panicking operations of theory
  Arithmetic; bytes are \<open>8 word\<close>, hash words \<open>32 word\<close>.  Structs are records, enums datatypes.  Loops
  are folds (\<open>try_fold\<close>, \<open>loop_with_break\<close> for loops that can \<open>break\<close>) or functions with a termination
  proof.  No loop needs fuel: the proposer and sync committee loops of the source have an explicit
  bound on their attempts, and the slot loop ends because each iteration advances the slot.

  Code that is not part of the sources is a parameter: the SHA-256 compression function, the BLS
  library and the hashes of containers that the derive macro generates are the fields of the record
  \<open>env\<close> (theory \<open>Beacon_State\<close>), and definitions that use them take it as the argument \<open>E\<close>.  Theorems
  hold for every \<open>env\<close>.  The preset is a record of its constants, and the locale \<open>preset_laws\<close> states
  what the type-level bounds of the source guarantee of them; it is interpreted for both presets.

  \<^bold>\<open>Foundations.\<close>
  \<^item> Prelude: the result type with its combinators and rules, loops with an invariant (the locales
    \<open>loop_exit\<close>, \<open>loop_body\<close> and \<open>preserving\<close>), lemmas on lists, numbers and bytes.
  \<^item> Arithmetic (\<open>arithmetic/src/lib.rs\<close>): checked operations and \<open>ilog2_ceil\<close>.
  \<^item> Hashing (\<open>hashing/src/lib.rs\<close>): the functions with hardcoded padding compute SHA-256.
  \<^item> Shuffling (\<open>shuffling/src/lib.rs\<close>): shuffling a slice, in chunks and over threads, agrees with
    shuffling single indices, is a permutation and never panics.

  \<^bold>\<open>Collections.\<close>
  \<^item> \<open>Ssz_List\<close>, \<open>Persistent_List\<close> (\<open>ssz/src/persistent_list.rs\<close>): the tree behind a list with all its
    operations refines a plain list, errors included, for every sequence of operations.
  \<^item> Merkle, \<open>Merkle_Proofs\<close> (\<open>ssz/src/merkle_tree.rs\<close>): incremental Merkleization computes the root of
    the padded tree; a tree can be extended with proofs for the new leaves, each of which leads to
    the root; progressive Merkleization computes the root of the progressive tree.
  \<^item> \<open>Bit_Vector\<close> (\<open>ssz/src/bit_vector.rs\<close>): the packed bits refine a list of booleans for the sizes in
    use, and \<open>shift_up_by_1\<close> is wrong for the other sizes that do not fill their last byte: it leaves
    an unused bit set or loses the last bit.
  \<^item> \<open>Validator_List\<close> (\<open>types/src/phase0/validator_list.rs\<close>): the registry with its public key index, its
    columns and its hash cache refines a list of validators; keys can be dropped and restored.

  \<^bold>\<open>Configuration and state.\<close>
  \<^item> Preset, Config (\<open>types/src/preset.rs\<close>, \<open>types/src/config.rs\<close>): presets, fork schedule, phases.
  \<^item> Containers, Errors, \<open>Beacon_State\<close>: the containers of an Electra block, the error types, the state
    as a record, its well-formedness \<open>state_wf\<close>, and the parameters \<open>env\<close>.  The cache of the state is
    not part of the model; cached values are computed anew where they are read.  The source changes the
    cache only when it advances a slot or an epoch and leaves it in place in every block operation.
    For slashing, \<open>slashing_keeps_caches\<close> proves that the total active balance, the proposer and the
    committees that a cache holds stay the same; for the other operations this is not proved.

  \<^bold>\<open>Helper functions\<close> (\<open>helper_functions/src\<close>).
  \<^item> Misc, Accessors, Mutators: epochs and slots, credentials, domains and signing roots, committees,
    proposer selection, indexed attestations, churn limits, exits and slashing.
  \<^item> Committees: the committees of an epoch partition its active validators; attesting and slashable
    indices; proposer selection; packed indices.
  \<^item> Duties: slashing marks exactly one validator and accounts for every balance.

  \<^bold>\<open>State transition\<close> (\<open>transition_functions/src\<close>).
  \<^item> \<open>Epoch_Intermediates\<close>, \<open>Epoch_Processing\<close> (\<open>electra\<close>, \<open>altair\<close> and \<open>unphased\<close>): statistics, rewards and
    penalties, and all steps of \<open>process_epoch\<close> and \<open>epoch_report\<close>.  Reports agree with what the
    transition applies.
  \<^item> Finality: justification needs two thirds of the active balance, finalization justified successors.
  \<^item> \<open>Epoch_Invariants\<close>, \<open>Epoch_Correctness\<close>: every step keeps \<open>state_wf\<close>; effective balances follow the
    balances with hysteresis; consolidations conserve the sum of balances; pending deposits are
    accounted for and respect the churn limit.
  \<^item> \<open>Slot_Processing\<close> (\<open>electra/slot_processing.rs\<close>): the slot loop ends at the target, can be split, and
    keeps the roots of past blocks.
  \<^item> Withdrawals, \<open>Block_Processing\<close> (\<open>electra/block_processing.rs\<close> with the shared parts of other phases):
    all handlers of a block.  Withdrawals are covered by the balances.
  \<^item> \<open>Block_Invariants\<close>: each handler keeps \<open>state_wf\<close>, the history of roots and the checkpoints; a block
    sets the header of the state to its own.
  \<^item> \<open>State_Transition\<close> (\<open>electra/state_transition.rs\<close>): an accepted block extends the state, blocks are
    linked by their hashes, and along chains of blocks the state stays well formed and finality
    never moves backwards.
  \<^item> \<open>Deposit_Tree\<close> (\<open>deposit_tree/src/lib.rs\<close>): the tree that block producers take deposits from is the
    tree of the list of deposits, and block processing accepts the proofs it constructs.

  \<^bold>\<open>Interfaces.\<close>  What one component promises another is a locale with an interpretation on the model's
  definitions: lists by index (\<open>Ssz_List\<close>, provided by plain lists and by the persistent tree), the
  laws of presets, loop bodies with an invariant (instances for pending deposits, consolidations and
  withdrawals), queues with a churn limit (\<open>churn_queue\<close>, for exits and for consolidations), the two
  implementations of epoch deltas (\<open>deltas_simulation\<close>), and operations that keep a relation between states (\<open>preserving\<close>, one instance for
  each block operation).

  \<^bold>\<open>Not modelled.\<close>
  \<^item> Phases other than Electra and blinded blocks: the code repeats that of Electra over other state types.
  \<^item> \<open>MultiVerifier\<close> as a verifier of blocks and the options to skip signatures: verifiers are the null
    and the single one.  The multi-verification of deposit signatures is modelled.
  \<^item> Slot reports, metrics, tracing and debug assertions: they do not influence the state.
  \<^item> The cached root that \<open>StateRootPolicy::Trust\<close> stores: chains use \<open>Verify\<close>.
  \<^item> The two limits of \<open>Config\<close> that are lengths of encoded containers
    (\<open>max_data_columns_by_root_request\<close>, \<open>max_data_column_sidecar_size\<close>).
  \<^item> SSZ encoding and decoding, which a macro generates, and the BLS, KZG and SHA-256 libraries.
  \<^item> The fork choice store, pools, networking, the HTTP interface, storage, validator duties and the
    tools: threads, channels, locks and input and output around the consensus core.
\<close>

end
